theory Spec2Isabelle
  imports Main
begin

section \<open>Python syntax trees\<close>

text \<open>
  The analyzer works on the tree that Python's \<^verbatim>\<open>ast.parse\<close> returns. The parser itself is
  an external collaborator; what the program observes of a tree is the class of each node
  (through \<^verbatim>\<open>isinstance\<close>), a few of its fields, and the order in which \<^verbatim>\<open>ast.walk\<close> yields
  the nodes. Python's trees are dynamically typed, so a single type \<open>node\<close> holds every
  class the program tests for, with the fields the program reads, in the order of the
  class's \<^verbatim>\<open>_fields\<close>; the last argument of a constructor is the node's \<^verbatim>\<open>lineno\<close>.

  \<^item> \<open>IfStmt\<close> is \<^verbatim>\<open>ast.If\<close> (the name \<open>If\<close> is taken by HOL's conditional).
  \<^item> \<open>Other children lineno\<close> stands for a node of any class that the program never tests
    for (\<^verbatim>\<open>With\<close>, \<^verbatim>\<open>Lambda\<close>, \<^verbatim>\<open>Subscript\<close>, \<^verbatim>\<open>keyword\<close>, \<^verbatim>\<open>match_case\<close>, comprehensions, ...):
    all that is observed of it are its children and its line number, if it has one.
  \<^item> Nodes that have no children and that no test of the program matches (operator and
    expression-context nodes, \<^verbatim>\<open>alias\<close>) are not represented as nodes. The operator of a
    \<^verbatim>\<open>BinOp\<close> or \<^verbatim>\<open>AugAssign\<close> is kept as a field, since one rule reads it; the aliases of an
    import are kept as pairs of the imported name and the optional \<^verbatim>\<open>asname\<close>.
\<close>

datatype operator = Add | Sub | Mult | Div | Mod | OtherOperator

type_synonym import_alias = "string \<times> string option"

datatype node =
    Module "node list"
  | FunctionDef string node "node list" "node list" "node option" int
  | AsyncFunctionDef string node "node list" "node list" "node option" int
  | ClassDef string "node list" "node list" "node list" "node list" int
  | Return "node option" int
  | Assign "node list" node int
  | AugAssign node operator node int
  | For node node "node list" "node list" int
  | AsyncFor node node "node list" "node list" int
  | While node "node list" "node list" int
  | IfStmt node "node list" "node list" int
  | Try "node list" "node list" "node list" "node list" int
  | ExceptHandler "node option" "node list" int
  | Match node "node list" int
  | Assert node "node option" int
  | Import "import_alias list" int
  | ImportFrom "string option" "import_alias list" int
  | Global "string list" int
  | Expr node int
  | Pass int
  | Break int
  | Continue int
  | BinOp node operator node int
  | Compare node "node list" int
  | IfExp node node node int
  | Call node "node list" "node list" int
  | Constant int
  | Attribute node string int
  | Name string int
  | Tuple "node list" int
  | arguments "node list" "node list" "node option" "node list" "node list" "node option" "node list"
  | arg string "node option" int
  | Other "node list" "int option"

definition optional :: "node option \<Rightarrow> node list" where
  "optional x = (case x of None \<Rightarrow> [] | Some n \<Rightarrow> [n])"

text \<open>
  \<^verbatim>\<open>ast.iter_child_nodes\<close>: the child nodes in the order of the fields. The field order is
  that of CPython: \<^verbatim>\<open>FunctionDef(name, args, body, decorator_list, returns)\<close>,
  \<^verbatim>\<open>ClassDef(name, bases, keywords, body, decorator_list)\<close>,
  \<^verbatim>\<open>Try(body, handlers, orelse, finalbody)\<close>, \<^verbatim>\<open>ExceptHandler(type, name, body)\<close>,
  \<^verbatim>\<open>arguments(posonlyargs, args, vararg, kwonlyargs, kw_defaults, kwarg, defaults)\<close>, and
  so on. Entries \<^verbatim>\<open>None\<close> of \<^verbatim>\<open>kw_defaults\<close> are skipped by \<^verbatim>\<open>iter_child_nodes\<close>, so the
  field holds the defaults that are present.
\<close>

fun iter_child_nodes :: "node \<Rightarrow> node list" where
  "iter_child_nodes (Module body) = body"
| "iter_child_nodes (FunctionDef name args body decorator_list returns l) =
     args # body @ decorator_list @ optional returns"
| "iter_child_nodes (AsyncFunctionDef name args body decorator_list returns l) =
     args # body @ decorator_list @ optional returns"
| "iter_child_nodes (ClassDef name bases keywords body decorator_list l) =
     bases @ keywords @ body @ decorator_list"
| "iter_child_nodes (Return val l) = optional val"
| "iter_child_nodes (Assign targets val l) = targets @ [val]"
| "iter_child_nodes (AugAssign target op val l) = [target, val]"
| "iter_child_nodes (For target iter body orelse l) = target # iter # body @ orelse"
| "iter_child_nodes (AsyncFor target iter body orelse l) = target # iter # body @ orelse"
| "iter_child_nodes (While test body orelse l) = test # body @ orelse"
| "iter_child_nodes (IfStmt test body orelse l) = test # body @ orelse"
| "iter_child_nodes (Try body handlers orelse finalbody l) =
     body @ handlers @ orelse @ finalbody"
| "iter_child_nodes (ExceptHandler type body l) = optional type @ body"
| "iter_child_nodes (Match subject cases l) = subject # cases"
| "iter_child_nodes (Assert test msg l) = test # optional msg"
| "iter_child_nodes (Import names l) = []"
| "iter_child_nodes (ImportFrom module names l) = []"
| "iter_child_nodes (Global names l) = []"
| "iter_child_nodes (Expr val l) = [val]"
| "iter_child_nodes (Pass l) = []"
| "iter_child_nodes (Break l) = []"
| "iter_child_nodes (Continue l) = []"
| "iter_child_nodes (BinOp left op right l) = [left, right]"
| "iter_child_nodes (Compare left comparators l) = left # comparators"
| "iter_child_nodes (IfExp test body orelse l) = [test, body, orelse]"
| "iter_child_nodes (Call func args keywords l) = func # args @ keywords"
| "iter_child_nodes (Constant l) = []"
| "iter_child_nodes (Attribute val attr l) = [val]"
| "iter_child_nodes (Name ident l) = []"
| "iter_child_nodes (Tuple elts l) = elts"
| "iter_child_nodes (arguments posonlyargs args vararg kwonlyargs kw_defaults kwarg defaults) =
     posonlyargs @ args @ optional vararg @ kwonlyargs @ kw_defaults @ optional kwarg @ defaults"
| "iter_child_nodes (arg name annotation l) = optional annotation"
| "iter_child_nodes (Other children l) = children"

text \<open>\<^verbatim>\<open>getattr(node, 'lineno', ...)\<close>: modules and \<^verbatim>\<open>arguments\<close> nodes carry no line number.\<close>

fun lineno :: "node \<Rightarrow> int option" where
  "lineno (Module body) = None"
| "lineno (FunctionDef name args body decorator_list returns l) = Some l"
| "lineno (AsyncFunctionDef name args body decorator_list returns l) = Some l"
| "lineno (ClassDef name bases keywords body decorator_list l) = Some l"
| "lineno (Return val l) = Some l"
| "lineno (Assign targets val l) = Some l"
| "lineno (AugAssign target op val l) = Some l"
| "lineno (For target iter body orelse l) = Some l"
| "lineno (AsyncFor target iter body orelse l) = Some l"
| "lineno (While test body orelse l) = Some l"
| "lineno (IfStmt test body orelse l) = Some l"
| "lineno (Try body handlers orelse finalbody l) = Some l"
| "lineno (ExceptHandler type body l) = Some l"
| "lineno (Match subject cases l) = Some l"
| "lineno (Assert test msg l) = Some l"
| "lineno (Import names l) = Some l"
| "lineno (ImportFrom module names l) = Some l"
| "lineno (Global names l) = Some l"
| "lineno (Expr val l) = Some l"
| "lineno (Pass l) = Some l"
| "lineno (Break l) = Some l"
| "lineno (Continue l) = Some l"
| "lineno (BinOp left op right l) = Some l"
| "lineno (Compare left comparators l) = Some l"
| "lineno (IfExp test body orelse l) = Some l"
| "lineno (Call func args keywords l) = Some l"
| "lineno (Constant l) = Some l"
| "lineno (Attribute val attr l) = Some l"
| "lineno (Name ident l) = Some l"
| "lineno (Tuple elts l) = Some l"
| "lineno (arguments posonlyargs args vararg kwonlyargs kw_defaults kwarg defaults) = None"
| "lineno (arg name annotation l) = Some l"
| "lineno (Other children l) = l"

lemma sum_list_weight:
  "sum_list (map (\<lambda>c. Suc (3 * f c)) xs) = 3 * sum_list (map f xs) + length xs"
  by (induction xs) auto

lemma size_children:
  "sum_list (map (\<lambda>c. Suc (3 * size c)) (iter_child_nodes n)) \<le> 3 * size n"
  by (cases n) (auto simp: optional_def size_list_conv_sum_list sum_list_weight split: option.splits)

text \<open>
  \<^verbatim>\<open>ast.walk\<close> keeps a queue: it takes the first node, appends its children to the queue and
  yields the node, until the queue is empty. The walk starts with the node itself and
  visits the tree breadth-first.
\<close>

function walk_todo :: "node list \<Rightarrow> node list" where
  "walk_todo [] = []"
| "walk_todo (n # todo) = n # walk_todo (todo @ iter_child_nodes n)"
  by pat_completeness auto
termination
  by (relation "measure (\<lambda>todo. sum_list (map (\<lambda>c. Suc (3 * size c)) todo))")
     (auto simp: less_Suc_eq_le intro: order_trans [OF size_children])

definition walk :: "node \<Rightarrow> node list" where
  "walk n = walk_todo [n]"

section \<open>The data model (base.py)\<close>

text \<open>
  The dataclasses of \<^verbatim>\<open>base.py\<close> as records. Python's integers are unbounded, so they are
  \<open>int\<close>. Field names that several dataclasses share carry a prefix in all but one of
  them: \<open>fs_name\<close>, \<open>fs_line_number\<close>, \<open>fs_baseline_score\<close> are \<^verbatim>\<open>FunctionScore.name\<close>,
  \<^verbatim>\<open>.line_number\<close>, \<^verbatim>\<open>.baseline_score\<close>; \<open>cs_name\<close>, \<open>cs_line_number\<close> are \<^verbatim>\<open>ClassScore.name\<close>,
  \<^verbatim>\<open>.line_number\<close>.
\<close>

record Violation =
  rule_name :: string
  description :: string
  points_deducted :: int
  line_number :: int
  function_name :: string
  is_red_flag :: bool

record FunctionScore =
  fs_name :: string
  fs_line_number :: int
  final_score :: int
  violations :: "Violation list"
  fs_baseline_score :: int

record ClassScore =
  cs_name :: string
  cs_line_number :: int
  constructor_violations :: "Violation list"
  method_scores :: "FunctionScore list"

record FileScore =
  file_path :: string
  overall_score :: int
  classification :: string
  function_scores :: "FunctionScore list"
  class_scores :: "ClassScore list"
  red_flags :: "Violation list"

section \<open>The score calculator (scoring.py)\<close>

record ScoreCalculator =
  baseline_score :: int
  min_score :: int

definition ScoreCalculator_init :: ScoreCalculator where
  "ScoreCalculator_init = \<lparr>baseline_score = 100, min_score = 0\<rparr>"

definition total_points :: "Violation list \<Rightarrow> int" where
  "total_points vs = sum_list (map points_deducted vs)"

definition calculate_function_score ::
  "ScoreCalculator \<Rightarrow> string \<Rightarrow> int \<Rightarrow> Violation list \<Rightarrow> FunctionScore" where
  "calculate_function_score self fname line vs =
     (let score = baseline_score self;
          total_deduction = total_points vs;
          score = score - total_deduction;
          score = max score (min_score self)
      in \<lparr>fs_name = fname, fs_line_number = line, final_score = score,
          violations = vs, fs_baseline_score = baseline_score self\<rparr>)"

section \<open>Strings\<close>

text \<open>
  Python strings are modelled as \<open>string\<close>; identifiers and module names are taken to be
  ASCII.
\<close>

definition lower :: "string \<Rightarrow> string" where
  "lower s = map (\<lambda>c. case map_of (zip ''ABCDEFGHIJKLMNOPQRSTUVWXYZ''
                                          ''abcdefghijklmnopqrstuvwxyz'') c of
                        None \<Rightarrow> c | Some d \<Rightarrow> d) s"

text \<open>\<^verbatim>\<open>sub in s\<close> for strings: \<open>sub\<close> occurs in \<open>s\<close> as a contiguous substring.\<close>

fun is_substring :: "string \<Rightarrow> string \<Rightarrow> bool" where
  "is_substring sub [] = (sub = [])"
| "is_substring sub (c # cs) = (take (length sub) (c # cs) = sub \<or> is_substring sub cs)"

text \<open>\<^verbatim>\<open>module_name.split('.')[0]\<close>: the part before the first dot.\<close>

definition top_level_module :: "string \<Rightarrow> string" where
  "top_level_module module_name = takeWhile (\<lambda>c. c \<noteq> CHR ''.'') module_name"

text \<open>
  \<^verbatim>\<open>[t for t in re.split(r"[^a-z0-9]+", name) if t]\<close>: the maximal runs of lower-case
  letters and digits.
\<close>

fun split_tokens :: "string \<Rightarrow> string \<Rightarrow> string list" where
  "split_tokens cur [] = (if cur = [] then [] else [cur])"
| "split_tokens cur (c # cs) =
     (if c \<in> set ''abcdefghijklmnopqrstuvwxyz0123456789'' then split_tokens (cur @ [c]) cs
      else (if cur = [] then [] else [cur]) @ split_tokens [] cs)"

text \<open>\<^verbatim>\<open>str(n)\<close> of a natural number, for the messages that quote a count.\<close>

fun str_nat :: "nat \<Rightarrow> string" where
  "str_nat n = (if n < 10 then [''0123456789'' ! n]
                else str_nat (n div 10) @ [''0123456789'' ! (n mod 10)])"

section \<open>Exceptions and the analysis context\<close>

text \<open>
  The exceptions that the modelled code can meet. \<open>IndentationError\<close> and \<open>TabError\<close> are
  subclasses of \<^verbatim>\<open>SyntaxError\<close>; \<open>FileNotFoundError\<close>, \<open>PermissionError\<close> and
  \<open>IsADirectoryError\<close> are subclasses of \<^verbatim>\<open>OSError\<close>; \<open>UnicodeDecodeError\<close> is a subclass of
  \<^verbatim>\<open>ValueError\<close>.
\<close>

datatype error =
    SyntaxError | IndentationError | TabError
  | UnicodeDecodeError | ValueError
  | FileNotFoundError | PermissionError | IsADirectoryError
  | AttributeError | RecursionError | MemoryError

text \<open>
  \<^verbatim>\<open>AnalysisContext\<close> of \<^verbatim>\<open>ast_utils.py\<close>. The fields \<open>ctx_imports\<close>, \<open>ctx_functions\<close> and
  \<open>ctx_classes\<close> are \<^verbatim>\<open>imports\<close>, \<^verbatim>\<open>functions\<close> and \<^verbatim>\<open>classes\<close> (reserved words of the theory
  language).
\<close>

record AnalysisContext =
  ctx_imports :: "string set"
  global_variables :: "string set"
  ctx_functions :: "string list"
  ctx_classes :: "string list"
  current_function :: "string option"
  current_class :: "string option"

section \<open>The rules (rules/*.py)\<close>

text \<open>
  Every rule starts with \<^verbatim>\<open>if not isinstance(node, (ast.FunctionDef, ast.AsyncFunctionDef)):
  return []\<close> (the constructor rule tests for \<^verbatim>\<open>ast.ClassDef\<close> instead) and then reads
  \<^verbatim>\<open>node.name\<close> and \<^verbatim>\<open>node.lineno\<close>. \<open>on_function node f d\<close> is \<open>f name lineno\<close> on a function
  node and \<open>d\<close> on any other node.
\<close>

definition is_function_node :: "node \<Rightarrow> bool" where
  "is_function_node node =
     (case node of FunctionDef name args body decorator_list returns l \<Rightarrow> True
      | AsyncFunctionDef name args body decorator_list returns l \<Rightarrow> True
      | _ \<Rightarrow> False)"

definition on_function :: "node \<Rightarrow> (string \<Rightarrow> int \<Rightarrow> 'a) \<Rightarrow> 'a \<Rightarrow> 'a" where
  "on_function node f d =
     (case node of FunctionDef name args body decorator_list returns l \<Rightarrow> f name l
      | AsyncFunctionDef name args body decorator_list returns l \<Rightarrow> f name l
      | _ \<Rightarrow> d)"

text \<open>\<^verbatim>\<open>getattr(child, 'lineno', node.lineno)\<close>\<close>

definition lineno_or :: "node \<Rightarrow> int \<Rightarrow> int" where
  "lineno_or child d = (case lineno child of None \<Rightarrow> d | Some l \<Rightarrow> l)"

text \<open>
  Several rules look at a call through the shape of \<^verbatim>\<open>node.func\<close>: a plain name
  (\<^verbatim>\<open>f(...)\<close>), an attribute of a name (\<^verbatim>\<open>m.f(...)\<close>), an attribute of an attribute of a name
  (\<^verbatim>\<open>m.c.f(...)\<close>), or anything else.
\<close>

datatype callee =
    NameCall string
  | AttrCall string string
  | ChainCall string string string
  | AttrOther
  | OtherCall

definition callee_of :: "node \<Rightarrow> callee option" where
  "callee_of node =
     (case node of
        Call func args keywords l \<Rightarrow>
          Some (case func of
                  Name ident l1 \<Rightarrow> NameCall ident
                | Attribute val attr l1 \<Rightarrow>
                    (case val of
                       Name module_name l2 \<Rightarrow> AttrCall module_name attr
                     | Attribute val2 class_name l2 \<Rightarrow>
                         (case val2 of
                            Name module_name l3 \<Rightarrow> ChainCall module_name class_name attr
                          | _ \<Rightarrow> AttrOther)
                     | _ \<Rightarrow> AttrOther)
                | _ \<Rightarrow> OtherCall)
      | _ \<Rightarrow> None)"

text \<open>The names an import statement imports: the aliases' names, or the module of a from-import.\<close>

definition alias_names :: "import_alias list \<Rightarrow> string list" where
  "alias_names names = map fst names"

subsection \<open>External Dependency Count (external\_dependency\_rule.py)\<close>

text \<open>
  \<^verbatim>\<open>_dependency_types\<close>, a dictionary in insertion order: the key, its \<^verbatim>\<open>functions\<close> and its
  \<^verbatim>\<open>modules\<close>. \<open>dep_type_title\<close> is \<^verbatim>\<open>dep_type.replace('_', ' ').title()\<close> on the five keys.
\<close>

definition dependency_types :: "(string \<times> string list \<times> string list) list" where
  "dependency_types =
     [(''file_system'',
         [''open'', ''read'', ''write'', ''remove'', ''mkdir'', ''rmdir'', ''exists'', ''isfile'',
          ''isdir''],
         [''os'', ''pathlib'', ''shutil'']),
      (''environment'', [''getenv'', ''environ''], [''os'']),
      (''network'',
         [''requests'', ''urlopen'', ''urllib.request'', ''socket'', ''connect''],
         [''requests'', ''urllib'', ''socket'', ''http'', ''https'']),
      (''os_level'',
         [''subprocess'', ''system'', ''exec'', ''popen''],
         [''subprocess'', ''os'', ''sys'']),
      (''singletons'',
         [''getInstance'', ''instance'', ''current''],
         [''logging'', ''threading'', ''multiprocessing''])]"

definition dep_type_title :: "string \<Rightarrow> string" where
  "dep_type_title dep_type =
     (if dep_type = ''file_system'' then ''File System''
      else if dep_type = ''environment'' then ''Environment''
      else if dep_type = ''network'' then ''Network''
      else if dep_type = ''os_level'' then ''Os Level''
      else ''Singletons'')"

definition classify_dependency :: "node \<Rightarrow> string option" where
  "classify_dependency call_node =
     (case callee_of call_node of
        Some (NameCall func_name) \<Rightarrow>
          (case find (\<lambda>(dep_type, funs, modules).
                        func_name \<in> set funs
                        \<or> list_ex (\<lambda>module. is_substring module func_name) modules)
                     dependency_types of
             None \<Rightarrow> None
           | Some (dep_type, funs, modules) \<Rightarrow> Some (dep_type_title dep_type))
      | Some (AttrCall module_name method_name) \<Rightarrow>
          (case find (\<lambda>(dep_type, funs, modules). module_name \<in> set modules) dependency_types of
             None \<Rightarrow> None
           | Some (dep_type, funs, modules) \<Rightarrow> Some (dep_type_title dep_type))
      | _ \<Rightarrow> None)"

text \<open>
  The detected types are a Python set, whose iteration order the language does not fix;
  the model lists them in the order of the table.
\<close>

definition ExternalDependencyRule_evaluate :: "node \<Rightarrow> AnalysisContext \<Rightarrow> Violation list" where
  "ExternalDependencyRule_evaluate node ctx =
     on_function node
       (\<lambda>name line.
          let detected_types = List.map_filter classify_dependency (walk node)
          in map (\<lambda>dep_type.
                    \<lparr>rule_name = ''External Dependency Count'',
                     description = ''External dependency: '' @ dep_type,
                     points_deducted = 5, line_number = line, function_name = name,
                     is_red_flag = False\<rparr>)
                 (filter (\<lambda>t. t \<in> set detected_types)
                    (map (\<lambda>(dep_type, funs, modules). dep_type_title dep_type) dependency_types)))
       []"

subsection \<open>Direct File I/O in Logic (file\_io\_rule.py)\<close>

definition io_functions :: "string list" where
  "io_functions = [''open'', ''read'', ''write'', ''close'', ''seek'', ''tell'', ''remove'',
     ''mkdir'', ''rmdir'', ''exists'', ''isfile'', ''isdir'', ''listdir'', ''scandir'', ''walk'',
     ''glob'', ''rglob'']"

definition file_io_modules :: "string list" where
  "file_io_modules = [''os'', ''pathlib'', ''shutil'', ''io'', ''tempfile'']"

definition io_classes :: "string list" where
  "io_classes = [''Path'', ''PurePath'', ''PosixPath'', ''WindowsPath'', ''FileIO'',
     ''TextIOWrapper'', ''BufferedReader'', ''BufferedWriter'', ''TemporaryFile'',
     ''NamedTemporaryFile'']"

definition is_io_function_name :: "string \<Rightarrow> bool" where
  "is_io_function_name fname =
     (let io_indicators = [''read'', ''write'', ''file'', ''dir'', ''path'', ''io'', ''temp''];
          tokens = split_tokens [] (lower fname)
      in list_ex (\<lambda>indicator. indicator \<in> set tokens) io_indicators)"

definition is_Name_in :: "string list \<Rightarrow> node \<Rightarrow> bool" where
  "is_Name_in names node = (case node of Name ident l \<Rightarrow> ident \<in> set names | _ \<Rightarrow> False)"

definition contains_io_operation :: "node \<Rightarrow> bool" where
  "contains_io_operation node =
     ((case callee_of node of
         Some (NameCall ident) \<Rightarrow> ident \<in> set io_functions
       | Some (AttrCall obj attr) \<Rightarrow> obj \<in> set io_classes
       | _ \<Rightarrow> False)
      \<or> list_ex (is_Name_in file_io_modules) (walk node))"

definition FileIORule_evaluate :: "node \<Rightarrow> AnalysisContext \<Rightarrow> Violation list" where
  "FileIORule_evaluate node ctx =
     on_function node
       (\<lambda>name line.
          if is_io_function_name name then []
          else (case find contains_io_operation (walk node) of
                  None \<Rightarrow> []
                | Some child \<Rightarrow>
                    [\<lparr>rule_name = ''Direct File I/O in Logic'',
                      description = ''Direct file I/O in business logic'',
                      points_deducted = 10, line_number = lineno_or child line,
                      function_name = name, is_red_flag = False\<rparr>]))
       []"

subsection \<open>Non-Deterministic Time Usage (time\_usage\_rule.py)\<close>

definition time_functions :: "string list" where
  "time_functions = [''time.time'', ''time.sleep'', ''time.monotonic'', ''time.perf_counter'',
     ''time.process_time'', ''time.thread_time'', ''time.time_ns'',
     ''datetime.now'', ''datetime.today'', ''datetime.utcnow'',
     ''datetime.timestamp'', ''date.today'', ''datetime.datetime.now'',
     ''datetime.datetime.today'', ''datetime.datetime.utcnow'']"

definition time_modules :: "string list" where
  "time_modules = [''time'', ''datetime'', ''date'']"

text \<open>
  The second half of \<^verbatim>\<open>_contains_time_operation\<close> and of \<^verbatim>\<open>_contains_random_operation\<close>: some
  node under \<open>node\<close> imports one of the modules. \<^verbatim>\<open>child.module and ...\<close> asks for a module
  name that is neither \<^verbatim>\<open>None\<close> nor empty.
\<close>

definition imports_module_in :: "string list \<Rightarrow> node \<Rightarrow> bool" where
  "imports_module_in modules child =
     (case child of
        Import names l \<Rightarrow> list_ex (\<lambda>name. name \<in> set modules) (alias_names names)
      | ImportFrom module names l \<Rightarrow>
          (case module of None \<Rightarrow> False | Some m \<Rightarrow> m \<noteq> [] \<and> m \<in> set modules)
      | _ \<Rightarrow> False)"

definition contains_time_operation :: "node \<Rightarrow> bool" where
  "contains_time_operation node =
     ((case callee_of node of
         Some (NameCall ident) \<Rightarrow> ident \<in> set time_functions
       | Some (AttrCall module_name method_name) \<Rightarrow>
           module_name \<in> set time_modules
           \<and> module_name @ ''.'' @ method_name \<in> set time_functions
       | Some (ChainCall module_name class_name method_name) \<Rightarrow>
           module_name \<in> set time_modules
           \<and> module_name @ ''.'' @ class_name @ ''.'' @ method_name \<in> set time_functions
       | _ \<Rightarrow> False)
      \<or> list_ex (imports_module_in time_modules) (walk node))"

definition TimeUsageRule_evaluate :: "node \<Rightarrow> AnalysisContext \<Rightarrow> Violation list" where
  "TimeUsageRule_evaluate node ctx =
     on_function node
       (\<lambda>name line.
          case find contains_time_operation (walk node) of
            None \<Rightarrow> []
          | Some child \<Rightarrow>
              [\<lparr>rule_name = ''Non-Deterministic Time Usage'',
                description = ''Non-deterministic time usage makes testing difficult'',
                points_deducted = 10, line_number = lineno_or child line,
                function_name = name, is_red_flag = True\<rparr>])
       []"

subsection \<open>Randomness Usage (randomness\_rule.py)\<close>

definition random_functions :: "string list" where
  "random_functions = [''random.random'', ''random.randint'', ''random.randrange'',
     ''random.choice'', ''random.shuffle'', ''random.sample'', ''random.uniform'',
     ''random.triangular'', ''random.betavariate'', ''random.expovariate'',
     ''random.gammavariate'', ''random.gauss'', ''random.lognormvariate'',
     ''random.normalvariate'', ''random.paretovariate'', ''random.vonmisesvariate'',
     ''random.weibullvariate'', ''random.getrandbits'', ''random.seed'', ''random.getstate'',
     ''random.setstate'', ''numpy.random.random'', ''numpy.random.randint'',
     ''numpy.random.rand'', ''numpy.random.randn'', ''numpy.random.choice'',
     ''numpy.random.shuffle'', ''numpy.random.uniform'', ''numpy.random.normal'',
     ''numpy.random.binomial'', ''numpy.random.poisson'', ''numpy.random.exponential'',
     ''secrets.randbelow'', ''secrets.choice'', ''secrets.token_bytes'', ''secrets.token_hex'',
     ''secrets.token_urlsafe'', ''secrets.compare_digest'', ''uuid.uuid1'', ''uuid.uuid3'',
     ''uuid.uuid4'', ''uuid.uuid5'', ''os.urandom'', ''os.getrandom'']"

definition random_modules :: "string list" where
  "random_modules = [''random'', ''numpy'', ''secrets'', ''uuid'', ''os'']"

definition contains_random_operation :: "node \<Rightarrow> bool" where
  "contains_random_operation node =
     ((case callee_of node of
         Some (NameCall ident) \<Rightarrow> ident \<in> set [''random'', ''randint'', ''choice'', ''shuffle'']
       | Some (AttrCall module_name method_name) \<Rightarrow>
           module_name \<in> set random_modules
           \<and> module_name @ ''.'' @ method_name \<in> set random_functions
       | Some (ChainCall module_name class_name method_name) \<Rightarrow>
           module_name \<in> set random_modules
           \<and> module_name @ ''.'' @ class_name @ ''.'' @ method_name \<in> set random_functions
       | _ \<Rightarrow> False)
      \<or> list_ex (imports_module_in random_modules) (walk node))"

definition RandomnessRule_evaluate :: "node \<Rightarrow> AnalysisContext \<Rightarrow> Violation list" where
  "RandomnessRule_evaluate node ctx =
     on_function node
       (\<lambda>name line.
          case find contains_random_operation (walk node) of
            None \<Rightarrow> []
          | Some child \<Rightarrow>
              [\<lparr>rule_name = ''Randomness Usage'',
                description = ''Randomness usage makes testing non-deterministic'',
                points_deducted = 10, line_number = lineno_or child line,
                function_name = name, is_red_flag = True\<rparr>])
       []"

subsection \<open>Global State Mutation (global\_state\_rule.py)\<close>

definition is_global_assignment :: "node \<Rightarrow> AnalysisContext \<Rightarrow> bool" where
  "is_global_assignment target ctx =
     (case target of
        Name ident l \<Rightarrow>
          ident \<in> global_variables ctx
          \<or> (\<exists>import_name \<in> ctx_imports ctx. ident = top_level_module import_name)
      | Attribute val attr l \<Rightarrow> is_Name_in [''os'', ''sys'', ''config'', ''settings''] val
      | _ \<Rightarrow> False)"

definition contains_global_mutation :: "node \<Rightarrow> AnalysisContext \<Rightarrow> bool" where
  "contains_global_mutation node ctx =
     (case node of
        Global names l \<Rightarrow> True
      | Assign targets val l \<Rightarrow> list_ex (\<lambda>target. is_global_assignment target ctx) targets
      | AugAssign target op val l \<Rightarrow>
          (case target of Name ident l1 \<Rightarrow> ident \<in> global_variables ctx | _ \<Rightarrow> False)
      | Attribute val attr l \<Rightarrow>
          is_Name_in [''os'', ''sys'', ''config'', ''settings'', ''globals''] val
      | Call func args keywords l \<Rightarrow>
          (case callee_of node of
             Some (AttrCall obj attr) \<Rightarrow>
               attr \<in> set [''register'', ''unregister'', ''update'', ''set'', ''clear'', ''append'',
                            ''extend'']
               \<and> obj \<in> set [''registry'', ''cache'', ''pool'', ''manager'']
           | _ \<Rightarrow> False)
      | _ \<Rightarrow> False)"

definition GlobalStateRule_evaluate :: "node \<Rightarrow> AnalysisContext \<Rightarrow> Violation list" where
  "GlobalStateRule_evaluate node ctx =
     on_function node
       (\<lambda>name line.
          case find (\<lambda>child. contains_global_mutation child ctx) (walk node) of
            None \<Rightarrow> []
          | Some child \<Rightarrow>
              [\<lparr>rule_name = ''Global State Mutation'',
                description = ''Global state mutation makes testing unpredictable'',
                points_deducted = 10, line_number = lineno_or child line,
                function_name = name, is_red_flag = True\<rparr>])
       []"

subsection \<open>Mixed I/O and Logic (mixed\_io\_logic\_rule.py)\<close>

definition file_ops :: "string list" where
  "file_ops = [''open'', ''read'', ''write'', ''close'', ''seek'', ''tell'', ''remove'', ''mkdir'']"

definition console_ops :: "string list" where
  "console_ops = [''print'', ''input'', ''raw_input'']"

definition mixed_io_modules :: "string list" where
  "mixed_io_modules = [''os'', ''pathlib'', ''shutil'', ''io'', ''tempfile'', ''requests'',
     ''urllib'', ''socket'', ''http'', ''https'', ''sqlite3'', ''psycopg2'', ''mysql'',
     ''mongodb'']"

definition is_pure_io_function :: "string \<Rightarrow> bool" where
  "is_pure_io_function fname =
     (let function_name = lower fname;
          io_indicators = [''read'', ''write'', ''open'', ''close'', ''fetch'', ''send'',
            ''receive'', ''connect'', ''download'', ''upload'', ''import'', ''export'', ''print'',
            ''display'']
      in list_ex (\<lambda>indicator. is_substring indicator function_name) io_indicators)"

definition is_io_call :: "node \<Rightarrow> bool" where
  "is_io_call child =
     (case callee_of child of
        Some (NameCall ident) \<Rightarrow> ident \<in> set file_ops \<or> ident \<in> set console_ops
      | Some (AttrCall module_name method_name) \<Rightarrow> module_name \<in> set mixed_io_modules
      | _ \<Rightarrow> False)"

definition count_io_operations :: "node \<Rightarrow> nat" where
  "count_io_operations node = length (filter is_io_call (walk node))"

definition is_logic_operation :: "node \<Rightarrow> bool" where
  "is_logic_operation child =
     (case child of
        IfStmt test body orelse l \<Rightarrow> True
      | For target iter body orelse l \<Rightarrow> True
      | While test body orelse l \<Rightarrow> True
      | Try body handlers orelse finalbody l \<Rightarrow> True
      | BinOp left op right l \<Rightarrow> op \<in> {Add, Sub, Mult, Div, Mod}
      | Compare left comparators l \<Rightarrow> True
      | Call func args keywords l \<Rightarrow>
          (case func of
             Name ident l1 \<Rightarrow> ident \<notin> set file_ops \<and> ident \<notin> set console_ops
           | _ \<Rightarrow> False)
      | _ \<Rightarrow> False)"

definition count_logic_operations :: "node \<Rightarrow> nat" where
  "count_logic_operations node = length (filter is_logic_operation (walk node))"

definition MixedIOLogicRule_evaluate :: "node \<Rightarrow> AnalysisContext \<Rightarrow> Violation list" where
  "MixedIOLogicRule_evaluate node ctx =
     on_function node
       (\<lambda>name line.
          if is_pure_io_function name then []
          else if 0 < count_io_operations node \<and> 0 < count_logic_operations node
          then [\<lparr>rule_name = ''Mixed I/O and Logic'',
                 description = ''Mixed I/O and business logic makes testing difficult'',
                 points_deducted = 8, line_number = line, function_name = name,
                 is_red_flag = True\<rparr>]
          else [])
       []"

subsection \<open>Branch Explosion Risk (branch\_explosion\_rule.py)\<close>

text \<open>
  \<^verbatim>\<open>_count_branches\<close> tests each node of the walk in an \<^verbatim>\<open>if\<close>/\<^verbatim>\<open>elif\<close> chain. The third test is
  \<^verbatim>\<open>isinstance(child, (ast.While, ast.AsyncWhile))\<close>. Python evaluates the tuple before the
  call, and the module \<^verbatim>\<open>ast\<close> has no attribute \<^verbatim>\<open>AsyncWhile\<close>: the language has no
  \<^verbatim>\<open>async while\<close> statement, and CPython's \<^verbatim>\<open>ast\<close> defines \<^verbatim>\<open>AsyncFunctionDef\<close>, \<^verbatim>\<open>AsyncFor\<close> and
  \<^verbatim>\<open>AsyncWith\<close> only. So the attribute lookup raises \<^verbatim>\<open>AttributeError\<close> as soon as the chain
  reaches the third test, that is, for the first node that is neither an \<^verbatim>\<open>If\<close> nor a
  \<^verbatim>\<open>For\<close>/\<^verbatim>\<open>AsyncFor\<close>. \<open>ast_AsyncWhile\<close> is the outcome of that lookup: \<open>None\<close> when the
  attribute does not exist, otherwise the \<^verbatim>\<open>isinstance\<close> test of the class found.
\<close>

definition ast_AsyncWhile :: "(node \<Rightarrow> bool) option" where
  "ast_AsyncWhile = None"

definition is_If :: "node \<Rightarrow> bool" where
  "is_If node = (case node of IfStmt test body orelse l \<Rightarrow> True | _ \<Rightarrow> False)"

definition is_While :: "node \<Rightarrow> bool" where
  "is_While node = (case node of While test body orelse l \<Rightarrow> True | _ \<Rightarrow> False)"

text \<open>What one node of the walk adds to \<^verbatim>\<open>branch_count\<close>, or the exception it raises.\<close>

definition branches_of :: "node \<Rightarrow> error + nat" where
  "branches_of child =
     (case child of
        IfStmt test body orelse l \<Rightarrow> Inr (1 + length (filter is_If orelse))
      | For target iter body orelse l \<Rightarrow> Inr 1
      | AsyncFor target iter body orelse l \<Rightarrow> Inr 1
      | _ \<Rightarrow>
          (case ast_AsyncWhile of
             None \<Rightarrow> Inl AttributeError
           | Some is_AsyncWhile \<Rightarrow>
               if is_While child \<or> is_AsyncWhile child then Inr 1
               else (case child of
                       Try body handlers orelse finalbody l \<Rightarrow> Inr (1 + length handlers)
                     | IfExp test body orelse l \<Rightarrow> Inr 1
                     | Match subject cases l \<Rightarrow> Inr (1 + length cases)
                     | _ \<Rightarrow> Inr 0)))"

fun count_branches_loop :: "node list \<Rightarrow> nat \<Rightarrow> error + nat" where
  "count_branches_loop [] branch_count = Inr branch_count"
| "count_branches_loop (child # rest) branch_count =
     (case branches_of child of
        Inl e \<Rightarrow> Inl e
      | Inr k \<Rightarrow> count_branches_loop rest (branch_count + k))"

definition count_branches :: "node \<Rightarrow> error + nat" where
  "count_branches node = count_branches_loop (walk node) 0"

definition branch_threshold :: nat where
  "branch_threshold = 3"

definition BranchExplosionRule_evaluate :: "node \<Rightarrow> AnalysisContext \<Rightarrow> error + Violation list" where
  "BranchExplosionRule_evaluate node ctx =
     on_function node
       (\<lambda>name line.
          case count_branches node of
            Inl e \<Rightarrow> Inl e
          | Inr branch_count \<Rightarrow>
              if branch_count > branch_threshold
              then let excess_branches = int branch_count - int branch_threshold;
                       total_penalty = excess_branches * 2
                   in Inr [\<lparr>rule_name = ''Branch Explosion Risk'',
                            description = ''Excessive branching: '' @ str_nat branch_count
                              @ '' branches (threshold: '' @ str_nat branch_threshold @ '')'',
                            points_deducted = total_penalty, line_number = line,
                            function_name = name, is_red_flag = False\<rparr>]
              else Inr [])
       (Inr [])"

subsection \<open>Exception-Driven Control Flow (exception\_control\_flow\_rule.py)\<close>

text \<open>
  The handlers of a \<^verbatim>\<open>Try\<close> that the parser built are \<^verbatim>\<open>ExceptHandler\<close> nodes. \<open>handler_type\<close>
  and \<open>handler_body\<close> read their fields; on a node of another class, which a parsed tree
  does not hold there, they answer as for a bare handler with an empty body.
\<close>

definition handler_type :: "node \<Rightarrow> node option" where
  "handler_type handler = (case handler of ExceptHandler type body l \<Rightarrow> type | _ \<Rightarrow> None)"

definition handler_body :: "node \<Rightarrow> node list" where
  "handler_body handler = (case handler of ExceptHandler type body l \<Rightarrow> body | _ \<Rightarrow> [])"

definition control_flow_exceptions :: "string list" where
  "control_flow_exceptions = [''ValueError'', ''TypeError'', ''KeyError'', ''IndexError'',
     ''AttributeError'', ''StopIteration'', ''LookupError'', ''RuntimeError'',
     ''AssertionError'']"

definition is_empty_except_handler :: "node \<Rightarrow> bool" where
  "is_empty_except_handler handler =
     (handler_body handler = []
      \<or> list_all (\<lambda>stmt. case stmt of
                          Pass l \<Rightarrow> True
                        | Expr val l \<Rightarrow> (case val of Constant l1 \<Rightarrow> True | _ \<Rightarrow> False)
                        | _ \<Rightarrow> False)
           (handler_body handler))"

text \<open>The type of a handler names one of \<open>names\<close>, alone or in a tuple.\<close>

definition handler_catches :: "string list \<Rightarrow> node \<Rightarrow> bool" where
  "handler_catches names type =
     (case type of
        Name ident l \<Rightarrow> ident \<in> set names
      | Tuple elts l \<Rightarrow> list_ex (is_Name_in names) elts
      | _ \<Rightarrow> False)"

definition is_broad_exception_handler :: "node \<Rightarrow> bool" where
  "is_broad_exception_handler handler =
     (case handler_type handler of
        None \<Rightarrow> True
      | Some type \<Rightarrow> handler_catches [''Exception'', ''BaseException''] type)"

definition uses_control_flow_exceptions :: "node \<Rightarrow> bool" where
  "uses_control_flow_exceptions handler =
     (case handler_type handler of
        None \<Rightarrow> False
      | Some type \<Rightarrow> handler_catches control_flow_exceptions type)"

definition has_exception_based_loop :: "node list \<Rightarrow> node list \<Rightarrow> bool" where
  "has_exception_based_loop try_body handlers =
     (list_ex (\<lambda>handler. case handler_type handler of
                            Some (Name ident l) \<Rightarrow> ident = ''StopIteration''
                          | _ \<Rightarrow> False) handlers
      \<or> (let has_loop = list_ex (\<lambda>stmt. case stmt of
                                          For target iter body orelse l \<Rightarrow> True
                                        | While test body orelse l \<Rightarrow> True
                                        | _ \<Rightarrow> False) try_body
          in has_loop
             \<and> list_ex (\<lambda>handler.
                          list_ex (\<lambda>stmt. case stmt of Break l \<Rightarrow> True | Continue l \<Rightarrow> True
                                          | _ \<Rightarrow> False)
                            (handler_body handler)) handlers))"

definition is_exception_driven_control_flow :: "node \<Rightarrow> bool" where
  "is_exception_driven_control_flow child =
     (case child of
        Try body handlers orelse finalbody l \<Rightarrow>
          list_ex is_empty_except_handler handlers
          \<or> list_ex is_broad_exception_handler handlers
          \<or> list_ex uses_control_flow_exceptions handlers
          \<or> has_exception_based_loop body handlers
      | _ \<Rightarrow> False)"

definition ExceptionControlFlowRule_evaluate :: "node \<Rightarrow> AnalysisContext \<Rightarrow> Violation list" where
  "ExceptionControlFlowRule_evaluate node ctx =
     on_function node
       (\<lambda>name line.
          case find is_exception_driven_control_flow (walk node) of
            Some (Try body handlers orelse finalbody child_lineno) \<Rightarrow>
              [\<lparr>rule_name = ''Exception-Driven Control Flow'',
                description = ''Exception-driven control flow makes testing difficult'',
                points_deducted = 5, line_number = child_lineno,
                function_name = name, is_red_flag = True\<rparr>]
          | _ \<Rightarrow> [])
       []"

subsection \<open>Constructor Side Effects (constructor\_side\_effects\_rule.py)\<close>

text \<open>
  \<^verbatim>\<open>_side_effect_operations\<close>: the union of the six sets, which is all that the rule asks of
  them.
\<close>

definition side_effect_operations :: "string list" where
  "side_effect_operations =
     [''open'', ''write'', ''read'', ''remove'', ''mkdir'']
     @ [''connect'', ''send'', ''receive'', ''request'']
     @ [''execute'', ''commit'', ''cursor'', ''connect'']
     @ [''start'', ''stop'', ''kill'', ''run'']
     @ [''start'', ''join'', ''lock'', ''acquire'']
     @ [''register'', ''unregister'', ''update'', ''modify'']"

definition side_effect_modules :: "string list" where
  "side_effect_modules = [''os'', ''pathlib'', ''shutil'', ''requests'', ''urllib'', ''socket'',
     ''sqlite3'', ''psycopg2'', ''mysql'', ''threading'', ''multiprocessing'', ''logging'',
     ''subprocess'', ''sys'']"

definition contains_side_effect_operation :: "node \<Rightarrow> bool" where
  "contains_side_effect_operation node =
     (case node of
        Call func args keywords l \<Rightarrow>
          (case callee_of node of
             Some (NameCall ident) \<Rightarrow>
               ident \<in> set side_effect_operations
               \<or> ident \<in> set [''Thread'', ''Process'', ''Pool'', ''Lock'', ''Semaphore'']
           | Some (AttrCall module_name method_name) \<Rightarrow>
               module_name \<in> set side_effect_modules
               \<or> method_name \<in> set [''open'', ''write'', ''read'', ''connect'', ''start'', ''stop'',
                     ''register'', ''unregister'', ''update'', ''modify'', ''execute'', ''commit'',
                     ''cursor'', ''send'', ''receive'']
           | _ \<Rightarrow> False)
      | Assign targets val l \<Rightarrow>
          list_ex (\<lambda>target. case target of
                              Attribute obj attr l1 \<Rightarrow>
                                is_Name_in [''registry'', ''cache'', ''pool'', ''manager'',
                                            ''globals''] obj
                            | _ \<Rightarrow> False) targets
      | Import names l \<Rightarrow> True
      | ImportFrom module names l \<Rightarrow> True
      | _ \<Rightarrow> False)"

definition has_constructor_side_effects :: "node \<Rightarrow> bool" where
  "has_constructor_side_effects init_method =
     list_ex contains_side_effect_operation (walk init_method)"

text \<open>\<^verbatim>\<open>isinstance(item, ast.FunctionDef) and item.name == "__init__"\<close>\<close>

definition is_init_method :: "node \<Rightarrow> bool" where
  "is_init_method item =
     (case item of
        FunctionDef name args body decorator_list returns l \<Rightarrow> name = ''__init__''
      | _ \<Rightarrow> False)"

definition ConstructorSideEffectsRule_evaluate :: "node \<Rightarrow> AnalysisContext \<Rightarrow> Violation list" where
  "ConstructorSideEffectsRule_evaluate node ctx =
     (case node of
        ClassDef class_name bases keywords body decorator_list l \<Rightarrow>
          (case find is_init_method body of
             Some (FunctionDef name args init_body init_decorators returns init_lineno) \<Rightarrow>
               if has_constructor_side_effects
                    (FunctionDef name args init_body init_decorators returns init_lineno)
               then [\<lparr>rule_name = ''Constructor Side Effects'',
                      description = ''Constructor has side effects that make testing difficult'',
                      points_deducted = 15, line_number = init_lineno,
                      function_name = class_name @ ''.__init__'', is_red_flag = True\<rparr>]
               else []
           | _ \<Rightarrow> [])
      | _ \<Rightarrow> [])"

subsection \<open>Hidden Dependencies via Imports-in-Function (hidden\_imports\_rule.py)\<close>

definition allowed_imports :: "string list" where
  "allowed_imports = [''typing'', ''collections'', ''itertools'', ''functools'', ''datetime'',
     ''re'', ''json'', ''csv'', ''math'', ''random'']"

definition external_indicators :: "string list" where
  "external_indicators = [''requests'', ''numpy'', ''pandas'', ''scipy'', ''matplotlib'',
     ''flask'', ''django'', ''fastapi'', ''sqlalchemy'', ''pytest'', ''click'', ''black'',
     ''pylint'', ''mypy'', ''setuptools'']"

definition is_external_dependency :: "string \<Rightarrow> bool" where
  "is_external_dependency module_name =
     (let top_level = top_level_module module_name
      in if top_level \<in> set allowed_imports then False
         else top_level \<in> set external_indicators)"

definition is_problematic_import :: "node \<Rightarrow> bool" where
  "is_problematic_import import_node =
     (case import_node of
        Import names l \<Rightarrow> list_ex is_external_dependency (alias_names names)
      | ImportFrom module names l \<Rightarrow>
          (case module of
             None \<Rightarrow> False
           | Some module_name \<Rightarrow> module_name \<noteq> [] \<and> is_external_dependency module_name)
      | _ \<Rightarrow> False)"

definition HiddenImportsRule_evaluate :: "node \<Rightarrow> AnalysisContext \<Rightarrow> Violation list" where
  "HiddenImportsRule_evaluate node ctx =
     on_function node
       (\<lambda>name line.
          case find is_problematic_import (walk node) of
            None \<Rightarrow> []
          | Some child \<Rightarrow>
              [\<lparr>rule_name = ''Hidden Dependencies via Imports-in-Function'',
                description = ''Hidden dependency via import inside function'',
                points_deducted = 5, line_number = lineno_or child line,
                function_name = name, is_red_flag = False\<rparr>])
       []"

subsection \<open>Excessive Parameter Count (parameter\_count\_rule.py)\<close>

text \<open>
  \<^verbatim>\<open>node.args\<close> of a parsed function is an \<^verbatim>\<open>arguments\<close> node whose lists hold \<^verbatim>\<open>arg\<close> nodes;
  \<open>arg_name\<close> is \<^verbatim>\<open>arg.arg\<close>.
\<close>

definition arg_name :: "node \<Rightarrow> string" where
  "arg_name a = (case a of arg name annotation l \<Rightarrow> name | _ \<Rightarrow> [])"

definition should_ignore_parameter :: "string \<Rightarrow> bool" where
  "should_ignore_parameter param_name = (True \<and> param_name = ''self'')"

definition count_in :: "node list \<Rightarrow> nat" where
  "count_in args = length (filter (\<lambda>a. \<not> should_ignore_parameter (arg_name a)) args)"

definition count_effective_parameters :: "node \<Rightarrow> nat" where
  "count_effective_parameters node =
     (case (case node of
              FunctionDef name args body decorator_list returns l \<Rightarrow> Some args
            | AsyncFunctionDef name args body decorator_list returns l \<Rightarrow> Some args
            | _ \<Rightarrow> None) of
        Some (arguments posonlyargs args vararg kwonlyargs kw_defaults kwarg defaults) \<Rightarrow>
          count_in args + count_in posonlyargs + count_in kwonlyargs
          + count_in (optional vararg) + count_in (optional kwarg)
      | _ \<Rightarrow> 0)"

definition parameter_threshold :: nat where
  "parameter_threshold = 5"

definition ParameterCountRule_evaluate :: "node \<Rightarrow> AnalysisContext \<Rightarrow> Violation list" where
  "ParameterCountRule_evaluate node ctx =
     on_function node
       (\<lambda>name line.
          let param_count = count_effective_parameters node
          in if param_count > parameter_threshold
             then [\<lparr>rule_name = ''Excessive Parameter Count'',
                    description = ''Excessive parameters: '' @ str_nat param_count
                      @ '' (threshold: '' @ str_nat parameter_threshold @ '')'',
                    points_deducted = 5, line_number = line, function_name = name,
                    is_red_flag = False\<rparr>]
             else [])
       []"

subsection \<open>Low Observability (observability\_rule.py)\<close>

definition has_return_statements :: "node \<Rightarrow> bool" where
  "has_return_statements node =
     list_ex (\<lambda>child. case child of Return val l \<Rightarrow> val \<noteq> None | _ \<Rightarrow> False) (walk node)"

definition has_logging_statements :: "node \<Rightarrow> bool" where
  "has_logging_statements node =
     list_ex (\<lambda>child. case callee_of child of
                        Some (AttrCall module_name method_name) \<Rightarrow>
                          (module_name = ''logging''
                           \<and> method_name \<in> set [''debug'', ''info'', ''warning'', ''error'',
                                                  ''critical''])
                          \<or> module_name = ''print''
                      | Some (NameCall ident) \<Rightarrow> ident = ''print''
                      | _ \<Rightarrow> False) (walk node)"

definition has_assertions :: "node \<Rightarrow> bool" where
  "has_assertions node =
     list_ex (\<lambda>child. case child of Assert test msg l \<Rightarrow> True | _ \<Rightarrow> False) (walk node)"

definition has_observable_side_effects :: "node \<Rightarrow> bool" where
  "has_observable_side_effects node =
     list_ex (\<lambda>child. case callee_of child of
                        Some (NameCall ident) \<Rightarrow>
                          ident \<in> set [''write'', ''print'', ''save'', ''commit'']
                      | Some (AttrCall obj method_name) \<Rightarrow>
                          method_name \<in> set [''write'', ''save'', ''commit'', ''send'', ''publish'']
                      | _ \<Rightarrow> False) (walk node)"

definition calculate_observability_score :: "node \<Rightarrow> nat" where
  "calculate_observability_score node =
     (if has_return_statements node then 1 else 0)
     + (if has_logging_statements node then 1 else 0)
     + (if has_assertions node then 1 else 0)
     + (if has_observable_side_effects node then 1 else 0)"

definition ObservabilityRule_evaluate :: "node \<Rightarrow> AnalysisContext \<Rightarrow> Violation list" where
  "ObservabilityRule_evaluate node ctx =
     on_function node
       (\<lambda>name line.
          if calculate_observability_score node = 0
          then [\<lparr>rule_name = ''Low Observability'',
                 description =
                   ''Low observability: function lacks return values, logging, or assertions'',
                 points_deducted = 5, line_number = line, function_name = name,
                 is_red_flag = False\<rparr>]
          else [])
       []"

subsection \<open>The rule classes and the registry (rules/rule\_registry.py)\<close>

text \<open>
  The twelve rule classes of the package. Their instances hold constant tables only, so
  an instance is its class. \<open>rule_name_of\<close> and \<open>penalty_points\<close> are the properties
  \<^verbatim>\<open>rule_name\<close> and \<^verbatim>\<open>penalty_points\<close>; \<open>evaluate\<close> is the method \<^verbatim>\<open>evaluate\<close>, which returns a list
  of violations or raises.
\<close>

datatype rule =
    ExternalDependencyRule
  | FileIORule
  | TimeUsageRule
  | RandomnessRule
  | GlobalStateRule
  | MixedIOLogicRule
  | BranchExplosionRule
  | ExceptionControlFlowRule
  | ConstructorSideEffectsRule
  | HiddenImportsRule
  | ParameterCountRule
  | ObservabilityRule

fun rule_name_of :: "rule \<Rightarrow> string" where
  "rule_name_of ExternalDependencyRule = ''External Dependency Count''"
| "rule_name_of FileIORule = ''Direct File I/O in Logic''"
| "rule_name_of TimeUsageRule = ''Non-Deterministic Time Usage''"
| "rule_name_of RandomnessRule = ''Randomness Usage''"
| "rule_name_of GlobalStateRule = ''Global State Mutation''"
| "rule_name_of MixedIOLogicRule = ''Mixed I/O and Logic''"
| "rule_name_of BranchExplosionRule = ''Branch Explosion Risk''"
| "rule_name_of ExceptionControlFlowRule = ''Exception-Driven Control Flow''"
| "rule_name_of ConstructorSideEffectsRule = ''Constructor Side Effects''"
| "rule_name_of HiddenImportsRule = ''Hidden Dependencies via Imports-in-Function''"
| "rule_name_of ParameterCountRule = ''Excessive Parameter Count''"
| "rule_name_of ObservabilityRule = ''Low Observability''"

fun penalty_points :: "rule \<Rightarrow> int" where
  "penalty_points ExternalDependencyRule = 5"
| "penalty_points FileIORule = 10"
| "penalty_points TimeUsageRule = 10"
| "penalty_points RandomnessRule = 10"
| "penalty_points GlobalStateRule = 10"
| "penalty_points MixedIOLogicRule = 8"
| "penalty_points BranchExplosionRule = 2"
| "penalty_points ExceptionControlFlowRule = 5"
| "penalty_points ConstructorSideEffectsRule = 15"
| "penalty_points HiddenImportsRule = 5"
| "penalty_points ParameterCountRule = 5"
| "penalty_points ObservabilityRule = 5"

fun evaluate :: "rule \<Rightarrow> node \<Rightarrow> AnalysisContext \<Rightarrow> error + Violation list" where
  "evaluate ExternalDependencyRule node ctx = Inr (ExternalDependencyRule_evaluate node ctx)"
| "evaluate FileIORule node ctx = Inr (FileIORule_evaluate node ctx)"
| "evaluate TimeUsageRule node ctx = Inr (TimeUsageRule_evaluate node ctx)"
| "evaluate RandomnessRule node ctx = Inr (RandomnessRule_evaluate node ctx)"
| "evaluate GlobalStateRule node ctx = Inr (GlobalStateRule_evaluate node ctx)"
| "evaluate MixedIOLogicRule node ctx = Inr (MixedIOLogicRule_evaluate node ctx)"
| "evaluate BranchExplosionRule node ctx = BranchExplosionRule_evaluate node ctx"
| "evaluate ExceptionControlFlowRule node ctx = Inr (ExceptionControlFlowRule_evaluate node ctx)"
| "evaluate ConstructorSideEffectsRule node ctx = Inr (ConstructorSideEffectsRule_evaluate node ctx)"
| "evaluate HiddenImportsRule node ctx = Inr (HiddenImportsRule_evaluate node ctx)"
| "evaluate ParameterCountRule node ctx = Inr (ParameterCountRule_evaluate node ctx)"
| "evaluate ObservabilityRule node ctx = Inr (ObservabilityRule_evaluate node ctx)"

text \<open>\<^verbatim>\<open>RuleRegistry.__init__\<close> builds the list \<^verbatim>\<open>_rules\<close>; \<^verbatim>\<open>get_all_rules\<close> returns it.\<close>

record RuleRegistry =
  rules :: "rule list"

definition RuleRegistry_init :: RuleRegistry where
  "RuleRegistry_init =
     \<lparr>rules = [FileIORule, TimeUsageRule, RandomnessRule, GlobalStateRule, MixedIOLogicRule,
               BranchExplosionRule, ExceptionControlFlowRule, ConstructorSideEffectsRule,
               HiddenImportsRule, ParameterCountRule, ObservabilityRule]\<rparr>"

definition get_all_rules :: "RuleRegistry \<Rightarrow> rule list" where
  "get_all_rules self = rules self"

definition get_rule_by_name :: "RuleRegistry \<Rightarrow> string \<Rightarrow> rule option" where
  "get_rule_by_name self name = find (\<lambda>rule. rule_name_of rule = name) (rules self)"

definition get_red_flag_rules :: "RuleRegistry \<Rightarrow> rule list" where
  "get_red_flag_rules self =
     filter (\<lambda>rule. rule_name_of rule \<in> set [''Constructor Side Effects'',
                       ''Global State Mutation'', ''Non-Deterministic Time Usage'',
                       ''Mixed I/O and Logic'', ''Exception-Driven Control Flow''])
       (rules self)"

section \<open>The threshold classifier (threshold\_classifier.py)\<close>

text \<open>
  \<^verbatim>\<open>file_bands\<close> and \<^verbatim>\<open>function_bands\<close> are dictionaries in insertion order;
  \<^verbatim>\<open>classify_file_score\<close> returns the first band that holds the score.
\<close>

definition file_bands :: "(string \<times> int \<times> int) list" where
  "file_bands = [(''Healthy'', 80, 100), (''Caution'', 60, 79), (''High Friction'', 40, 59),
                 (''Refactor First'', 0, 39)]"

definition function_bands :: "(string \<times> int \<times> int) list" where
  "function_bands = [(''Easy'', 75, 100), (''Testable'', 55, 74), (''Hard'', 35, 54),
                     (''Painful'', 0, 34)]"

definition classify :: "(string \<times> int \<times> int) list \<Rightarrow> int \<Rightarrow> string" where
  "classify bands score =
     (case find (\<lambda>(band_name, band_min, band_max). band_min \<le> score \<and> score \<le> band_max)
             bands of
        None \<Rightarrow> ''Unknown''
      | Some (band_name, band_min, band_max) \<Rightarrow> band_name)"

definition classify_file_score :: "int \<Rightarrow> string" where
  "classify_file_score score = classify file_bands score"

definition classify_function_score :: "int \<Rightarrow> string" where
  "classify_function_score score = classify function_bands score"

section \<open>The context builder (ast\_utils.py)\<close>

lemma child_smaller: "c \<in> set (iter_child_nodes n) \<Longrightarrow> size c < size n"
proof -
  assume "c \<in> set (iter_child_nodes n)"
  then have "Suc (3 * size c) \<in> set (map (\<lambda>c. Suc (3 * size c)) (iter_child_nodes n))"
    by simp
  then have "Suc (3 * size c) \<le> sum_list (map (\<lambda>c. Suc (3 * size c)) (iter_child_nodes n))"
    by (auto intro: member_le_sum_list)
  with size_children [of n] show ?thesis by simp
qed

text \<open>
  \<^verbatim>\<open>ASTVisitor\<close>: every \<^verbatim>\<open>visit_*\<close> method ends in \<^verbatim>\<open>generic_visit\<close>, which visits the children in
  the order of the fields. \<open>enter\<close> is what a method does before that call, \<open>leave\<close> what it
  does after it (restoring \<^verbatim>\<open>current_function\<close> or \<^verbatim>\<open>current_class\<close>).
\<close>

definition AnalysisContext_init :: AnalysisContext where
  "AnalysisContext_init =
     \<lparr>ctx_imports = {}, global_variables = {}, ctx_functions = [], ctx_classes = [],
      current_function = None, current_class = None\<rparr>"

definition enter :: "node \<Rightarrow> AnalysisContext \<Rightarrow> AnalysisContext" where
  "enter node ctx =
     (case node of
        Import names l \<Rightarrow> ctx\<lparr>ctx_imports := ctx_imports ctx \<union> set (alias_names names)\<rparr>
      | ImportFrom module names l \<Rightarrow>
          (case module of
             None \<Rightarrow> ctx
           | Some m \<Rightarrow> if m = [] then ctx else ctx\<lparr>ctx_imports := insert m (ctx_imports ctx)\<rparr>)
      | FunctionDef name args body decorator_list returns l \<Rightarrow>
          ctx\<lparr>ctx_functions := ctx_functions ctx @ [name], current_function := Some name\<rparr>
      | AsyncFunctionDef name args body decorator_list returns l \<Rightarrow>
          ctx\<lparr>ctx_functions := ctx_functions ctx @ [name], current_function := Some name\<rparr>
      | ClassDef name bases keywords body decorator_list l \<Rightarrow>
          ctx\<lparr>ctx_classes := ctx_classes ctx @ [name], current_class := Some name\<rparr>
      | Global names l \<Rightarrow> ctx\<lparr>global_variables := global_variables ctx \<union> set names\<rparr>
      | _ \<Rightarrow> ctx)"

definition leave :: "node \<Rightarrow> AnalysisContext \<Rightarrow> AnalysisContext \<Rightarrow> AnalysisContext" where
  "leave node before ctx =
     (case node of
        FunctionDef name args body decorator_list returns l \<Rightarrow>
          ctx\<lparr>current_function := current_function before\<rparr>
      | AsyncFunctionDef name args body decorator_list returns l \<Rightarrow>
          ctx\<lparr>current_function := current_function before\<rparr>
      | ClassDef name bases keywords body decorator_list l \<Rightarrow>
          ctx\<lparr>current_class := current_class before\<rparr>
      | _ \<Rightarrow> ctx)"

function visit :: "node \<Rightarrow> AnalysisContext \<Rightarrow> AnalysisContext" where
  "visit node ctx = leave node ctx (fold visit (iter_child_nodes node) (enter node ctx))"
  by pat_completeness auto
termination
  by (relation "measure (\<lambda>(node, ctx). size node)") (auto simp: child_smaller)

definition build_context :: "node \<Rightarrow> AnalysisContext" where
  "build_context tree = visit tree AnalysisContext_init"

section \<open>Reading and parsing a file (ast\_utils.parse\_file)\<close>

text \<open>
  The file system and the parser are outside the program. \<open>read_text env path\<close> is the
  outcome of \<^verbatim>\<open>open(path, 'r', encoding='utf-8')\<close> followed by \<^verbatim>\<open>file.read()\<close>: the text, or
  the exception raised (an \<^verbatim>\<open>OSError\<close> for a file that is missing or cannot be opened, a
  \<^verbatim>\<open>UnicodeDecodeError\<close> for bytes that are not UTF-8). \<open>ast_parse env content path\<close> is the
  outcome of \<^verbatim>\<open>ast.parse(content, filename=path)\<close>.

  \<^verbatim>\<open>parse_file\<close> wraps both in \<^verbatim>\<open>try: ... except (SyntaxError, UnicodeDecodeError)\<close>, prints a
  warning and returns \<^verbatim>\<open>None\<close>; the handler also catches the subclasses of the two. Any
  other exception leaves the function.
\<close>

record py_env =
  read_text :: "string \<Rightarrow> error + string"
  ast_parse :: "string \<Rightarrow> string \<Rightarrow> error + node"

definition caught_by_parse_file :: "error \<Rightarrow> bool" where
  "caught_by_parse_file e =
     (e \<in> {SyntaxError, IndentationError, TabError} \<or> e = UnicodeDecodeError)"

definition parse_file :: "py_env \<Rightarrow> string \<Rightarrow> error + node option" where
  "parse_file env path =
     (case (case read_text env path of
              Inl e \<Rightarrow> Inl e
            | Inr content \<Rightarrow> ast_parse env content path) of
        Inl e \<Rightarrow> if caught_by_parse_file e then Inr None else Inl e
      | Inr tree \<Rightarrow> Inr (Some tree))"

section \<open>Aggregation (scoring.py)\<close>

definition calculate_class_score ::
  "ScoreCalculator \<Rightarrow> string \<Rightarrow> int \<Rightarrow> Violation list \<Rightarrow> FunctionScore list \<Rightarrow> ClassScore" where
  "calculate_class_score self cname line cvs mss =
     \<lparr>cs_name = cname, cs_line_number = line, constructor_violations = cvs,
      method_scores = mss\<rparr>"

text \<open>
  The list \<^verbatim>\<open>all_scores\<close> that both \<^verbatim>\<open>aggregate_file_score\<close> and \<^verbatim>\<open>analyze_file\<close> build: the
  final scores of the function scores, then of the method scores of each class, then
  (\<open>constructor_scores\<close>), for each class whose constructor penalty is positive, the
  constructor score.
\<close>

definition constructor_scores :: "int \<Rightarrow> int \<Rightarrow> ClassScore list \<Rightarrow> int list" where
  "constructor_scores baseline minimum css =
     concat (map (\<lambda>class_score.
                    let constructor_penalty = total_points (constructor_violations class_score)
                    in if constructor_penalty > 0
                       then [max (baseline - constructor_penalty) minimum]
                       else []) css)"

definition all_scores :: "int \<Rightarrow> int \<Rightarrow> FunctionScore list \<Rightarrow> ClassScore list \<Rightarrow> int list" where
  "all_scores baseline minimum fss css =
     map final_score fss
     @ concat (map (\<lambda>class_score. map final_score (method_scores class_score)) css)
     @ constructor_scores baseline minimum css"

definition aggregate_file_score ::
  "ScoreCalculator \<Rightarrow> FunctionScore list \<Rightarrow> ClassScore list \<Rightarrow> int" where
  "aggregate_file_score self fss css =
     (let scores = all_scores (baseline_score self) (min_score self) fss css
      in if scores = [] then baseline_score self else min_list scores)"

section \<open>The analyzer (analyzer.py)\<close>

text \<open>
  \<^verbatim>\<open>TestabilityAnalyzer.__init__\<close> stores a score calculator and a rule registry (and a
  threshold classifier, whose tables are the constants above).
\<close>

record TestabilityAnalyzer =
  score_calculator :: ScoreCalculator
  rule_registry :: RuleRegistry

definition TestabilityAnalyzer_init :: TestabilityAnalyzer where
  "TestabilityAnalyzer_init =
     \<lparr>score_calculator = ScoreCalculator_init, rule_registry = RuleRegistry_init\<rparr>"

text \<open>
  The inner loop of \<^verbatim>\<open>_analyze_functions\<close> and \<^verbatim>\<open>_analyze_classes\<close>:
  \<^verbatim>\<open>for rule in self.rule_registry.get_all_rules(): violations.extend(rule.evaluate(node,
  context))\<close>. An exception raised by a rule ends the loop and leaves the caller.
\<close>

fun evaluate_rules :: "rule list \<Rightarrow> node \<Rightarrow> AnalysisContext \<Rightarrow> error + Violation list" where
  "evaluate_rules [] node ctx = Inr []"
| "evaluate_rules (rule # rest) node ctx =
     (case evaluate rule node ctx of
        Inl e \<Rightarrow> Inl e
      | Inr rule_violations \<Rightarrow>
          (case evaluate_rules rest node ctx of
             Inl e \<Rightarrow> Inl e
           | Inr others \<Rightarrow> Inr (rule_violations @ others)))"

definition run_rules :: "TestabilityAnalyzer \<Rightarrow> node \<Rightarrow> AnalysisContext \<Rightarrow> error + Violation list" where
  "run_rules self node ctx = evaluate_rules (get_all_rules (rule_registry self)) node ctx"

text \<open>\<^verbatim>\<open>(node.name, node.lineno)\<close> of a function or async function definition.\<close>

definition def_header :: "node \<Rightarrow> (string \<times> int) option" where
  "def_header node = on_function node (\<lambda>name line. Some (name, line)) None"

text \<open>\<^verbatim>\<open>_analyze_functions\<close>: the loop over \<^verbatim>\<open>ast.walk(tree)\<close>.\<close>

fun analyze_function_nodes ::
  "TestabilityAnalyzer \<Rightarrow> node list \<Rightarrow> AnalysisContext \<Rightarrow> error + FunctionScore list" where
  "analyze_function_nodes self [] ctx = Inr []"
| "analyze_function_nodes self (node # rest) ctx =
     (case def_header node of
        None \<Rightarrow> analyze_function_nodes self rest ctx
      | Some (name, line) \<Rightarrow>
          (case run_rules self node ctx of
             Inl e \<Rightarrow> Inl e
           | Inr vs \<Rightarrow>
               (case analyze_function_nodes self rest ctx of
                  Inl e \<Rightarrow> Inl e
                | Inr scores \<Rightarrow>
                    Inr (calculate_function_score (score_calculator self) name line vs
                         # scores))))"

definition analyze_functions ::
  "TestabilityAnalyzer \<Rightarrow> node \<Rightarrow> AnalysisContext \<Rightarrow> error + FunctionScore list" where
  "analyze_functions self tree ctx = analyze_function_nodes self (walk tree) ctx"

text \<open>
  \<^verbatim>\<open>_analyze_classes\<close>: for every class of the walk, the loop over \<^verbatim>\<open>node.body\<close> collects the
  violations of each \<^verbatim>\<open>__init__\<close> into \<^verbatim>\<open>constructor_violations\<close> and scores every other
  function or async function of the body as a method.
\<close>

fun analyze_class_body ::
  "TestabilityAnalyzer \<Rightarrow> node list \<Rightarrow> AnalysisContext
     \<Rightarrow> error + (Violation list \<times> FunctionScore list)" where
  "analyze_class_body self [] ctx = Inr ([], [])"
| "analyze_class_body self (item # rest) ctx =
     (if is_init_method item then
        (case run_rules self item ctx of
           Inl e \<Rightarrow> Inl e
         | Inr vs \<Rightarrow>
             (case analyze_class_body self rest ctx of
                Inl e \<Rightarrow> Inl e
              | Inr (cvs, mss) \<Rightarrow> Inr (vs @ cvs, mss)))
      else
        (case def_header item of
           None \<Rightarrow> analyze_class_body self rest ctx
         | Some (name, line) \<Rightarrow>
             (case run_rules self item ctx of
                Inl e \<Rightarrow> Inl e
              | Inr vs \<Rightarrow>
                  (case analyze_class_body self rest ctx of
                     Inl e \<Rightarrow> Inl e
                   | Inr (cvs, mss) \<Rightarrow>
                       Inr (cvs, calculate_function_score (score_calculator self) name line vs
                                 # mss)))))"

fun analyze_class_nodes ::
  "TestabilityAnalyzer \<Rightarrow> node list \<Rightarrow> AnalysisContext \<Rightarrow> error + ClassScore list" where
  "analyze_class_nodes self [] ctx = Inr []"
| "analyze_class_nodes self (node # rest) ctx =
     (case node of
        ClassDef cname bases keywords body decorator_list line \<Rightarrow>
          (case analyze_class_body self body ctx of
             Inl e \<Rightarrow> Inl e
           | Inr (cvs, mss) \<Rightarrow>
               (case analyze_class_nodes self rest ctx of
                  Inl e \<Rightarrow> Inl e
                | Inr scores \<Rightarrow>
                    Inr (\<lparr>cs_name = cname, cs_line_number = line,
                          constructor_violations = cvs, method_scores = mss\<rparr> # scores)))
      | _ \<Rightarrow> analyze_class_nodes self rest ctx)"

definition analyze_classes ::
  "TestabilityAnalyzer \<Rightarrow> node \<Rightarrow> AnalysisContext \<Rightarrow> error + ClassScore list" where
  "analyze_classes self tree ctx = analyze_class_nodes self (walk tree) ctx"

text \<open>\<^verbatim>\<open>analyze_file\<close> from the line \<^verbatim>\<open>context = build_context(tree)\<close> on.\<close>

definition collect_red_flags :: "FunctionScore list \<Rightarrow> ClassScore list \<Rightarrow> Violation list" where
  "collect_red_flags fss css =
     concat (map (\<lambda>score. filter is_red_flag (violations score)) fss)
     @ concat (map constructor_violations css)"

definition analyze_tree :: "TestabilityAnalyzer \<Rightarrow> string \<Rightarrow> node \<Rightarrow> error + FileScore" where
  "analyze_tree self path tree =
     (let ctx = build_context tree
      in case analyze_functions self tree ctx of
           Inl e \<Rightarrow> Inl e
         | Inr fss \<Rightarrow>
             (case analyze_classes self tree ctx of
                Inl e \<Rightarrow> Inl e
              | Inr css \<Rightarrow>
                  (let scores = all_scores 100 0 fss css;
                       overall = (if scores \<noteq> [] then min_list scores else 100)
                   in Inr \<lparr>file_path = path, overall_score = overall,
                           classification = classify_file_score overall,
                           function_scores = fss, class_scores = css,
                           red_flags = collect_red_flags fss css\<rparr>)))"

definition parse_error_score :: "string \<Rightarrow> FileScore" where
  "parse_error_score path =
     \<lparr>file_path = path, overall_score = 0, classification = ''Parse Error'',
      function_scores = [], class_scores = [], red_flags = []\<rparr>"

definition analyze_file :: "TestabilityAnalyzer \<Rightarrow> py_env \<Rightarrow> string \<Rightarrow> error + FileScore" where
  "analyze_file self env path =
     (case parse_file env path of
        Inl e \<Rightarrow> Inl e
      | Inr None \<Rightarrow> Inr (parse_error_score path)
      | Inr (Some tree) \<Rightarrow> analyze_tree self path tree)"

section \<open>The vocabulary of the properties\<close>

text \<open>
  The definitions of this section are not part of the program. They name what the
  specification speaks of, so that a property can compare it with what the code computes.
\<close>

subsection \<open>The modules a function imports in its body\<close>

text \<open>
  The modules named by one node of a walk: the names of an \<^verbatim>\<open>import\<close> statement, the module
  of a \<^verbatim>\<open>from ... import\<close> statement when it has one. \<open>imported_modules node\<close> lists them for
  every node of \<^verbatim>\<open>ast.walk(node)\<close>.
\<close>

definition import_names_of :: "node \<Rightarrow> string list" where
  "import_names_of child =
     (case child of
        Import names l \<Rightarrow> alias_names names
      | ImportFrom module names l \<Rightarrow>
          (case module of None \<Rightarrow> [] | Some m \<Rightarrow> if m = [] then [] else [m])
      | _ \<Rightarrow> [])"

definition imported_modules :: "node \<Rightarrow> string list" where
  "imported_modules node = concat (map import_names_of (walk node))"

text \<open>
  The import statements of the walk that name one of the packages of \<^verbatim>\<open>external_indicators\<close>,
  in the order of the walk, which is breadth first: a statement nested in a block comes
  after the statements of the enclosing level.
\<close>

definition names_external_package :: "node \<Rightarrow> bool" where
  "names_external_package child =
     list_ex (\<lambda>m. top_level_module m \<in> set external_indicators) (import_names_of child)"

definition external_imports :: "node \<Rightarrow> node list" where
  "external_imports node = filter names_external_package (walk node)"

subsection \<open>The categories of the calls of a function\<close>

text \<open>
  The categories that \<^verbatim>\<open>_classify_dependency\<close> gives to the calls of \<^verbatim>\<open>ast.walk(node)\<close>, as a set:
  the \<^verbatim>\<open>detected_types\<close> of the External Dependency Count rule.
\<close>

definition detected_categories :: "node \<Rightarrow> string set" where
  "detected_categories node = set (List.map_filter classify_dependency (walk node))"

subsection \<open>The pool of scores of the specification\<close>

text \<open>
  The specification's words for the file score: the minimum over the final score of every
  function score, the final score of every method score of every class, and, for each
  class with at least one constructor violation, \<open>max(0, 100 - sum of the points of its
  constructor violations)\<close>; 100 when there is no such score. The code tests the sum of the
  points, \<open>constructor_penalty > 0\<close>, where the specification counts the violations.
\<close>

definition constructor_score :: "Violation list \<Rightarrow> int" where
  "constructor_score cvs = max 0 (100 - total_points cvs)"

definition dirty_constructor_scores :: "ClassScore list \<Rightarrow> int list" where
  "dirty_constructor_scores css =
     map (\<lambda>c. constructor_score (constructor_violations c))
       (filter (\<lambda>c. constructor_violations c \<noteq> []) css)"

definition scored_constructs :: "FunctionScore list \<Rightarrow> ClassScore list \<Rightarrow> int list" where
  "scored_constructs fss css =
     map final_score fss
     @ concat (map (\<lambda>c. map final_score (method_scores c)) css)
     @ dirty_constructor_scores css"

definition minimum_or_100 :: "int list \<Rightarrow> int" where
  "minimum_or_100 pool = (if set pool = {} then 100 else Min (set pool))"

subsection \<open>The scores of the definitions of a tree\<close>

text \<open>
  What a file analysis is to hold, read off the tree. \<open>score_of\<close> is the FunctionScore of a
  function or async function definition: its name, its line and the violations that the
  rules of the registry return for it. \<open>walk_function_scores\<close> lists it for every definition
  of \<^verbatim>\<open>ast.walk(tree)\<close>, \<open>top_level_function_scores\<close> for the definitions in the body of the
  module only. \<open>class_score_of\<close> is the ClassScore of a class definition: the violations of
  the \<^verbatim>\<open>__init__\<close> definitions of its body, and the scores of the other definitions of its
  body; \<open>walk_class_scores\<close> lists it for every class of the walk. \<open>rules_return\<close> says
  that the rules of the registry raise no exception on any definition of the walk.
  \<open>claimed_pool\<close> is the pool of the specification, with the top-level functions only.
\<close>

definition score_of :: "TestabilityAnalyzer \<Rightarrow> AnalysisContext \<Rightarrow> node \<Rightarrow> FunctionScore option" where
  "score_of self ctx n =
     map_option (\<lambda>(name, line). calculate_function_score (score_calculator self) name line
                                    (projr (run_rules self n ctx)))
       (def_header n)"

definition walk_function_scores :: "TestabilityAnalyzer \<Rightarrow> node \<Rightarrow> FunctionScore list" where
  "walk_function_scores self tree =
     List.map_filter (score_of self (build_context tree)) (walk tree)"

definition top_level_function_scores :: "TestabilityAnalyzer \<Rightarrow> node \<Rightarrow> FunctionScore list" where
  "top_level_function_scores self tree =
     (case tree of
        Module body \<Rightarrow> List.map_filter (score_of self (build_context tree)) body
      | _ \<Rightarrow> [])"

definition class_score_of :: "TestabilityAnalyzer \<Rightarrow> AnalysisContext \<Rightarrow> node \<Rightarrow> ClassScore option" where
  "class_score_of self ctx n =
     (case n of
        ClassDef cname bases kws body decorator_list line \<Rightarrow>
          Some \<lparr>cs_name = cname, cs_line_number = line,
                constructor_violations =
                  concat (map (\<lambda>item. projr (run_rules self item ctx))
                            (filter is_init_method body)),
                method_scores =
                  List.map_filter (score_of self ctx)
                    (filter (\<lambda>item. \<not> is_init_method item) body)\<rparr>
      | _ \<Rightarrow> None)"

definition walk_class_scores :: "TestabilityAnalyzer \<Rightarrow> node \<Rightarrow> ClassScore list" where
  "walk_class_scores self tree =
     List.map_filter (class_score_of self (build_context tree)) (walk tree)"

definition class_bodies :: "node list \<Rightarrow> node list" where
  "class_bodies ns =
     concat (map (\<lambda>n. case n of ClassDef cname bases kws body decorator_list line \<Rightarrow> body
                      | _ \<Rightarrow> []) ns)"

definition rules_return_on :: "TestabilityAnalyzer \<Rightarrow> AnalysisContext \<Rightarrow> node list \<Rightarrow> bool" where
  "rules_return_on self ctx ns =
     list_all (\<lambda>n. \<not> isl (run_rules self n ctx)) (filter is_function_node ns)"

definition rules_return :: "TestabilityAnalyzer \<Rightarrow> node \<Rightarrow> bool" where
  "rules_return self tree = rules_return_on self (build_context tree) (walk tree)"

definition claimed_pool :: "TestabilityAnalyzer \<Rightarrow> node \<Rightarrow> int list" where
  "claimed_pool self tree =
     scored_constructs (top_level_function_scores self tree) (walk_class_scores self tree)"

subsection \<open>What every rule returns\<close>

text \<open>
  The violations of a rule deduct a positive number of points and carry the name of the
  rule (\<open>sound_for\<close>); \<open>positive_points\<close> keeps the first half, and \<open>no_constructor_rule\<close>
  says that no violation of a list comes from the Constructor Side Effects rule.
\<close>

definition sound_for :: "rule \<Rightarrow> Violation list \<Rightarrow> bool" where
  "sound_for rule vs =
     list_all (\<lambda>v. 0 < points_deducted v \<and> rule_name v = rule_name_of rule) vs"

definition positive_points :: "Violation list \<Rightarrow> bool" where
  "positive_points vs = list_all (\<lambda>v. 0 < points_deducted v) vs"

definition no_constructor_rule :: "Violation list \<Rightarrow> bool" where
  "no_constructor_rule vs = list_all (\<lambda>v. rule_name v \<noteq> ''Constructor Side Effects'') vs"

section \<open>Example programs\<close>

text \<open>
  The trees of Python sources, as \<^verbatim>\<open>ast.parse\<close> builds them. Most are the fixtures of the
  repository's tests, whose source texts start with a newline, so that their first
  statement is on line 2.
\<close>

text \<open>
  \<^verbatim>\<open>tests/test_rules.py\<close>, \<^verbatim>\<open>TestBranchExplosionRule.test_simple_function\<close>, which expects no
  violation:

  \<^verbatim>\<open>def simple_function(x):\<close>

  \<^verbatim>\<open>    if x > 0:\<close>

  \<^verbatim>\<open>        return x\<close>

  \<^verbatim>\<open>    return 0\<close>
\<close>

definition simple_function :: node where
  "simple_function =
     FunctionDef ''simple_function'' (arguments [] [(arg ''x'' None 2)] None [] [] None [])
       [(IfStmt (Compare (Name ''x'' 3) [(Constant 3)] 3) [(Return (Some (Name ''x'' 4)) 4)] [] 3),
        (Return (Some (Constant 5)) 5)] [] None 2"

text \<open>
  \<^verbatim>\<open>tests/test_rules.py\<close>, \<^verbatim>\<open>TestHiddenImportsRule.test_hidden_import\<close>, which expects one
  violation of 5 points:

  \<^verbatim>\<open>def process_data():\<close>

  \<^verbatim>\<open>    import requests\<close>

  \<^verbatim>\<open>    return requests.get('http://example.com')\<close>
\<close>

definition requests_import_function :: node where
  "requests_import_function =
     FunctionDef ''process_data'' (arguments [] [] None [] [] None [])
       [Import [(''requests'', None)] 3,
        Return (Some (Call (Attribute (Name ''requests'' 4) ''get'' 4) [Constant 4] [] 4)) 4]
       [] None 2"

text \<open>
  A function that imports a module of the standard library that is not in the allow-list
  of the rule:

  \<^verbatim>\<open>def process_data():\<close>

  \<^verbatim>\<open>    import os\<close>

  \<^verbatim>\<open>    return os.getcwd()\<close>
\<close>

definition os_import_function :: node where
  "os_import_function =
     FunctionDef ''process_data'' (arguments [] [] None [] [] None [])
       [Import [(''os'', None)] 2,
        Return (Some (Call (Attribute (Name ''os'' 3) ''getcwd'' 3) [] [] 3)) 3] [] None 1"

text \<open>
  Two functions with two imports of external packages. In the second one the first import
  of the source is nested in an \<^verbatim>\<open>if\<close>, so the walk reaches it after the second.

  \<^verbatim>\<open>def load():\<close>

  \<^verbatim>\<open>    import numpy\<close>

  \<^verbatim>\<open>    import requests\<close>

  \<^verbatim>\<open>    return requests.get(numpy.pi)\<close>

  \<^verbatim>\<open>def load(flag):\<close>

  \<^verbatim>\<open>    if flag:\<close>

  \<^verbatim>\<open>        import numpy\<close>

  \<^verbatim>\<open>    import requests\<close>

  \<^verbatim>\<open>    return requests\<close>
\<close>

definition two_imports_function :: node where
  "two_imports_function =
     FunctionDef ''load'' (arguments [] [] None [] [] None [])
       [Import [(''numpy'', None)] 2,
        Import [(''requests'', None)] 3,
        Return (Some (Call (Attribute (Name ''requests'' 4) ''get'' 4)
                        [Attribute (Name ''numpy'' 4) ''pi'' 4] [] 4)) 4] [] None 1"

definition nested_import_function :: node where
  "nested_import_function =
     FunctionDef ''load'' (arguments [] [arg ''flag'' None 1] None [] [] None [])
       [IfStmt (Name ''flag'' 2) [Import [(''numpy'', None)] 3] [] 2,
        Import [(''requests'', None)] 4,
        Return (Some (Name ''requests'' 5)) 5] [] None 1"

text \<open>
  \<^verbatim>\<open>tests/test_rules.py\<close>, \<^verbatim>\<open>TestExternalDependencyRule.test_file_system_dependency\<close>, which
  expects one violation of 5 points:

  \<^verbatim>\<open>def read_config():\<close>

  \<^verbatim>\<open>    with open('config.json', 'r') as f:\<close>

  \<^verbatim>\<open>        return json.load(f)\<close>

  and a function with one call to the network and two to the file system:

  \<^verbatim>\<open>def fetch_and_store(url):\<close>

  \<^verbatim>\<open>    data = requests.get(url)\<close>

  \<^verbatim>\<open>    open('out.txt', 'w')\<close>

  \<^verbatim>\<open>    open('log.txt', 'w')\<close>

  \<^verbatim>\<open>    return data\<close>
\<close>

definition read_config :: node where
  "read_config =
     FunctionDef ''read_config'' (arguments [] [] None [] [] None [])
       [Other [Other [Call (Name ''open'' 3) [Constant 3, Constant 3] [] 3, Name ''f'' 3] None,
               Return (Some (Call (Attribute (Name ''json'' 4) ''load'' 4) [Name ''f'' 4] [] 4)) 4]
          (Some 3)] [] None 2"

definition fetch_and_store :: node where
  "fetch_and_store =
     FunctionDef ''fetch_and_store'' (arguments [] [arg ''url'' None 1] None [] [] None [])
       [Assign [Name ''data'' 2]
          (Call (Attribute (Name ''requests'' 2) ''get'' 2) [Name ''url'' 2] [] 2) 2,
        Expr (Call (Name ''open'' 3) [Constant 3, Constant 3] [] 3) 3,
        Expr (Call (Name ''open'' 4) [Constant 4, Constant 4] [] 4) 4,
        Return (Some (Name ''data'' 5)) 5] [] None 1"

text \<open>
  A function nested in a function; the inner one has six parameters.

  \<^verbatim>\<open>def outer():\<close>

  \<^verbatim>\<open>    def inner(a, b, c, d, e, f):\<close>

  \<^verbatim>\<open>        return a\<close>

  \<^verbatim>\<open>    return inner\<close>
\<close>

definition nested_functions :: node where
  "nested_functions =
     Module
       [FunctionDef ''outer'' (arguments [] [] None [] [] None [])
          [FunctionDef ''inner''
             (arguments [] [arg ''a'' None 2, arg ''b'' None 2, arg ''c'' None 2, arg ''d'' None 2,
                            arg ''e'' None 2, arg ''f'' None 2] None [] [] None [])
             [Return (Some (Name ''a'' 3)) 3] [] None 2,
           Return (Some (Name ''inner'' 4)) 4] [] None 1]"

text \<open>
  \<^verbatim>\<open>tests/test_integration.py\<close>, \<^verbatim>\<open>test_simple_codebase\<close>: the functions \<^verbatim>\<open>calculate_area\<close> (line 2)
  and \<^verbatim>\<open>format_result\<close> (line 6), and the class \<^verbatim>\<open>Rectangle\<close> (line 10) with the methods
  \<^verbatim>\<open>__init__\<close> (line 13) and \<^verbatim>\<open>area\<close> (line 17). The test expects two function scores and one
  class score.
\<close>

definition simple_codebase :: node where
  "simple_codebase =
     Module [(FunctionDef ''calculate_area'' (arguments [] [(arg ''length'' None 2), (arg
       ''width'' None 2)] None [] [] None []) [(Expr (Constant 3) 3), (Return (Some (BinOp (Name
       ''length'' 4) Mult (Name ''width'' 4) 4)) 4)] [] None 2), (FunctionDef ''format_result''
       (arguments [] [(arg ''area'' None 6)] None [] [] None []) [(Expr (Constant 7) 7), (Return
       (Some (Other [(Constant 8), (Other [(Name ''area'' 8), (Other [(Constant 8)] (Some 8))]
       (Some 8))] (Some 8))) 8)] [] None 6), (ClassDef ''Rectangle'' [] [] [(Expr (Constant 11)
       11), (FunctionDef ''__init__'' (arguments [] [(arg ''self'' None 13), (arg ''length''
       None 13), (arg ''width'' None 13)] None [] [] None []) [(Assign [(Attribute (Name
       ''self'' 14) ''length'' 14)] (Name ''length'' 14) 14), (Assign [(Attribute (Name ''self''
       15) ''width'' 15)] (Name ''width'' 15) 15)] [] None 13), (FunctionDef ''area'' (arguments
       [] [(arg ''self'' None 17)] None [] [] None []) [(Return (Some (Call (Name
       ''calculate_area'' 18) [(Attribute (Name ''self'' 18) ''length'' 18), (Attribute (Name
       ''self'' 18) ''width'' 18)] [] 18)) 18)] [] None 17)] [] 10)]"

text \<open>
  \<^verbatim>\<open>tests/test_rules.py\<close>, \<^verbatim>\<open>TestConstructorSideEffectsRule\<close>: a class whose constructor opens
  and reads a file.

  \<^verbatim>\<open>class MyClass:\<close>

  \<^verbatim>\<open>    def __init__(self):\<close>

  \<^verbatim>\<open>        with open('config.txt', 'r') as f:\<close>

  \<^verbatim>\<open>            self.config = f.read()\<close>
\<close>

definition my_class_init :: node where
  "my_class_init =
     FunctionDef ''__init__'' (arguments [] [(arg ''self'' None 3)] None [] [] None []) [(Other
       [(Other [(Call (Name ''open'' 4) [(Constant 4), (Constant 4)] [] 4), (Name ''f'' 4)]
       None), (Assign [(Attribute (Name ''self'' 5) ''config'' 5)] (Call (Attribute (Name ''f''
       5) ''read'' 5) [] [] 5) 5)] (Some 4))] [] None 3"

definition my_class :: node where
  "my_class = ClassDef ''MyClass'' [] [] [my_class_init] [] 2"

definition constructor_class :: node where
  "constructor_class = Module [my_class]"

text \<open>
  A class with one method that is not a constructor and reads the clock:

  \<^verbatim>\<open>class Clock:\<close>

  \<^verbatim>\<open>    def now(self):\<close>

  \<^verbatim>\<open>        return time.time()\<close>
\<close>

definition clock_now :: node where
  "clock_now =
     FunctionDef ''now'' (arguments [] [(arg ''self'' None 2)] None [] [] None [])
       [(Return (Some (Call (Attribute (Name ''time'' 3) ''time'' 3) [] [] 3)) 3)] [] None 2"

definition clock_class :: node where
  "clock_class = Module [ClassDef ''Clock'' [] [] [clock_now] [] 1]"

text \<open>
  The analyzer as constructed raises \<^verbatim>\<open>AttributeError\<close> for every function definition (see
  the Branch Explosion rule). The examples of the orchestration therefore also run an
  analyzer whose registry is the constructed one without that rule.
\<close>

definition without_branch_rule :: TestabilityAnalyzer where
  "without_branch_rule =
     TestabilityAnalyzer_init
       \<lparr>rule_registry := \<lparr>rules = removeAll BranchExplosionRule
                                        (get_all_rules RuleRegistry_init)\<rparr>\<rparr>"



text \<open>An environment where the file holds the class \<^verbatim>\<open>MyClass\<close> above.\<close>

definition my_class_env :: py_env where
  "my_class_env =
     \<lparr>read_text = (\<lambda>path. Inr (''class MyClass:'' @ [CHR 0x0A]
                                 @ ''    def __init__(self):'' @ [CHR 0x0A]
                                 @ ''        with open('' @ [CHR 0x27] @ ''config.txt'' @ [CHR 0x27]
                                 @ '', '' @ [CHR 0x27] @ ''r'' @ [CHR 0x27] @ '') as f:'' @ [CHR 0x0A]
                                 @ ''            self.config = f.read()'' @ [CHR 0x0A])),
      ast_parse = (\<lambda>content path. Inr constructor_class)\<rparr>"

text \<open>
  \<^verbatim>\<open>tests/test_scoring_validation.py\<close>, \<^verbatim>\<open>test_file_aggregation_worst_score\<close>: three function
  scores, 100, 85 and 70.
\<close>

definition worst_score_functions :: "FunctionScore list" where
  "worst_score_functions =
     [calculate_function_score ScoreCalculator_init ''good_func'' 1 [],
      calculate_function_score ScoreCalculator_init ''bad_func'' 10
        [\<lparr>rule_name = ''Constructor Side Effects'', description = ''Test'',
          points_deducted = 15, line_number = 1, function_name = ''bad_func'',
          is_red_flag = True\<rparr>],
      calculate_function_score ScoreCalculator_init ''worst_func'' 20
        [\<lparr>rule_name = ''Non-Deterministic Time Usage'', description = ''Test'',
          points_deducted = 10, line_number = 1, function_name = ''worst_func'',
          is_red_flag = True\<rparr>,
         \<lparr>rule_name = ''Randomness Usage'', description = ''Test'',
          points_deducted = 10, line_number = 2, function_name = ''worst_func'',
          is_red_flag = True\<rparr>,
         \<lparr>rule_name = ''Global State Mutation'', description = ''Test'',
          points_deducted = 10, line_number = 3, function_name = ''worst_func'',
          is_red_flag = True\<rparr>]]"

section \<open>Auxiliary lemmas\<close>

subsection \<open>The walk\<close>

lemma walk_head: "walk n = n # walk_todo (iter_child_nodes n)"
  by (simp add: walk_def)

lemma walk_todo_contains: "set todo \<subseteq> set (walk_todo todo)"
  by (induction todo rule: walk_todo.induct) auto

lemma walk_todo_closed:
  "n \<in> set (walk_todo todo) \<Longrightarrow> set (iter_child_nodes n) \<subseteq> set (walk_todo todo)"
proof (induction todo rule: walk_todo.induct)
  case 1
  then show ?case by simp
next
  case (2 m todo)
  from "2.prems" have "n = m \<or> n \<in> set (walk_todo (todo @ iter_child_nodes m))" by simp
  then show ?case
  proof
    assume "n = m"
    then show ?thesis
      using walk_todo_contains [of "todo @ iter_child_nodes m"] by auto
  next
    assume "n \<in> set (walk_todo (todo @ iter_child_nodes m))"
    then show ?thesis using "2.IH" by auto
  qed
qed

lemma walk_child:
  "n \<in> set (walk tree) \<Longrightarrow> c \<in> set (iter_child_nodes n) \<Longrightarrow> c \<in> set (walk tree)"
  unfolding walk_def using walk_todo_closed by blast

lemma walk_class_body:
  "ClassDef cname bases kws body decorator_list line \<in> set (walk tree) \<Longrightarrow>
   item \<in> set body \<Longrightarrow> item \<in> set (walk tree)"
  by (erule walk_child) simp

subsection \<open>Function nodes\<close>

lemma on_function_simps [simp]:
  "on_function (FunctionDef name args body decorator_list returns l) f d = f name l"
  "on_function (AsyncFunctionDef name args body decorator_list returns l) f d = f name l"
  by (simp_all add: on_function_def)

lemma on_function_other:
  "\<not> is_function_node node \<Longrightarrow> on_function node f d = d"
  by (cases node) (simp_all add: is_function_node_def on_function_def)

lemma on_function_induct:
  "(\<And>name line. P (f name line)) \<Longrightarrow> P d \<Longrightarrow> P (on_function node f d)"
  by (cases node) (simp_all add: on_function_def)

lemma def_header_function: "def_header n = Some h \<Longrightarrow> is_function_node n"
  by (cases n) (simp_all add: def_header_def on_function_def is_function_node_def)

lemma def_header_None: "def_header n = None \<longleftrightarrow> \<not> is_function_node n"
  by (cases n) (simp_all add: def_header_def on_function_def is_function_node_def)

lemma init_method_function: "is_init_method n \<Longrightarrow> is_function_node n"
  by (cases n) (simp_all add: is_init_method_def is_function_node_def)

lemma init_method_header:
  "is_init_method item \<Longrightarrow> \<exists>line. def_header item = Some (''__init__'', line)"
  by (cases item) (simp_all add: is_init_method_def def_header_def)

subsection \<open>Every violation deducts a positive number of points\<close>

lemma ExternalDependencyRule_sound: "sound_for ExternalDependencyRule (ExternalDependencyRule_evaluate node ctx)"
  unfolding ExternalDependencyRule_evaluate_def
  by (rule on_function_induct) (auto simp: sound_for_def list_all_iff Let_def )

lemma FileIORule_sound: "sound_for FileIORule (FileIORule_evaluate node ctx)"
  unfolding FileIORule_evaluate_def
  by (rule on_function_induct) (auto simp: sound_for_def list_all_iff  split: option.splits)

lemma TimeUsageRule_sound: "sound_for TimeUsageRule (TimeUsageRule_evaluate node ctx)"
  unfolding TimeUsageRule_evaluate_def
  by (rule on_function_induct) (auto simp: sound_for_def list_all_iff  split: option.splits)

lemma RandomnessRule_sound: "sound_for RandomnessRule (RandomnessRule_evaluate node ctx)"
  unfolding RandomnessRule_evaluate_def
  by (rule on_function_induct) (auto simp: sound_for_def list_all_iff  split: option.splits)

lemma GlobalStateRule_sound: "sound_for GlobalStateRule (GlobalStateRule_evaluate node ctx)"
  unfolding GlobalStateRule_evaluate_def
  by (rule on_function_induct) (auto simp: sound_for_def list_all_iff  split: option.splits)

lemma MixedIOLogicRule_sound: "sound_for MixedIOLogicRule (MixedIOLogicRule_evaluate node ctx)"
  unfolding MixedIOLogicRule_evaluate_def
  by (rule on_function_induct) (auto simp: sound_for_def list_all_iff  )

lemma HiddenImportsRule_sound: "sound_for HiddenImportsRule (HiddenImportsRule_evaluate node ctx)"
  unfolding HiddenImportsRule_evaluate_def
  by (rule on_function_induct) (auto simp: sound_for_def list_all_iff  split: option.splits)

lemma ParameterCountRule_sound: "sound_for ParameterCountRule (ParameterCountRule_evaluate node ctx)"
  unfolding ParameterCountRule_evaluate_def
  by (rule on_function_induct) (auto simp: sound_for_def list_all_iff Let_def )

lemma ObservabilityRule_sound: "sound_for ObservabilityRule (ObservabilityRule_evaluate node ctx)"
  unfolding ObservabilityRule_evaluate_def
  by (rule on_function_induct) (auto simp: sound_for_def list_all_iff  )

lemma BranchExplosionRule_sound:
  "case BranchExplosionRule_evaluate node ctx of Inl e \<Rightarrow> True
   | Inr vs \<Rightarrow> sound_for BranchExplosionRule vs"
  unfolding BranchExplosionRule_evaluate_def
  by (rule on_function_induct)
     (simp_all add: sound_for_def Let_def branch_threshold_def split: sum.splits)

lemma ExceptionControlFlowRule_sound:
  "sound_for ExceptionControlFlowRule (ExceptionControlFlowRule_evaluate node ctx)"
  unfolding ExceptionControlFlowRule_evaluate_def
proof (rule on_function_induct)
  fix name line
  show "sound_for ExceptionControlFlowRule
          (case find is_exception_driven_control_flow (walk node) of
             Some (Try body handlers orelse finalbody child_lineno) \<Rightarrow>
               [\<lparr>rule_name = ''Exception-Driven Control Flow'',
                 description = ''Exception-driven control flow makes testing difficult'',
                 points_deducted = 5, line_number = child_lineno,
                 function_name = name, is_red_flag = True\<rparr>]
           | _ \<Rightarrow> [])"
  proof (cases "find is_exception_driven_control_flow (walk node)")
    case None
    then show ?thesis by (simp add: sound_for_def)
  next
    case (Some child)
    then show ?thesis by (cases child) (simp_all add: sound_for_def)
  qed
qed (simp add: sound_for_def)

lemma ConstructorSideEffectsRule_sound:
  "sound_for ConstructorSideEffectsRule (ConstructorSideEffectsRule_evaluate node ctx)"
proof (cases node)
  case (ClassDef cname bases kws body decorator_list l)
  show ?thesis
  proof (cases "find is_init_method body")
    case None
    then show ?thesis
      by (simp add: ConstructorSideEffectsRule_evaluate_def ClassDef sound_for_def)
  next
    case (Some init_method)
    then show ?thesis
      by (cases init_method)
         (simp_all add: ConstructorSideEffectsRule_evaluate_def ClassDef sound_for_def)
  qed
qed (simp_all add: ConstructorSideEffectsRule_evaluate_def sound_for_def)

lemma evaluate_sound:
  "evaluate rule node ctx = Inr vs \<Longrightarrow> sound_for rule vs"
  using ExternalDependencyRule_sound [of node ctx] FileIORule_sound [of node ctx]
    TimeUsageRule_sound [of node ctx] RandomnessRule_sound [of node ctx]
    GlobalStateRule_sound [of node ctx] MixedIOLogicRule_sound [of node ctx]
    BranchExplosionRule_sound [of node ctx] ExceptionControlFlowRule_sound [of node ctx]
    ConstructorSideEffectsRule_sound [of node ctx] HiddenImportsRule_sound [of node ctx]
    ParameterCountRule_sound [of node ctx] ObservabilityRule_sound [of node ctx]
  by (cases rule) auto

lemma positive_points_append [simp]:
  "positive_points (vs @ ws) \<longleftrightarrow> positive_points vs \<and> positive_points ws"
  by (simp add: positive_points_def)

lemma positive_points_Nil [simp]: "positive_points []"
  by (simp add: positive_points_def)

lemma positive_total: "positive_points vs \<Longrightarrow> (0 < total_points vs) = (vs \<noteq> [])"
proof (induction vs)
  case Nil
  then show ?case by (simp add: total_points_def)
next
  case (Cons v vs)
  then have "0 < points_deducted v" and "0 \<le> total_points vs"
    by (cases vs; simp add: positive_points_def total_points_def)+
  then show ?case by (simp add: total_points_def)
qed

lemma evaluate_rules_positive:
  "evaluate_rules rs node ctx = Inr vs \<Longrightarrow> positive_points vs"
proof (induction rs arbitrary: vs)
  case Nil
  then show ?case by simp
next
  case (Cons r rs)
  then show ?case
    using evaluate_sound [of r node ctx]
    by (auto simp: sound_for_def positive_points_def list_all_iff split: sum.splits)
qed

lemma run_rules_positive: "run_rules self node ctx = Inr vs \<Longrightarrow> positive_points vs"
  by (simp add: run_rules_def evaluate_rules_positive)

lemma class_body_positive:
  "analyze_class_body self items ctx = Inr (cvs, mss) \<Longrightarrow> positive_points cvs"
proof (induction items arbitrary: cvs mss)
  case Nil
  then show ?case by simp
next
  case (Cons item items)
  then show ?case
    by (auto split: if_splits sum.splits option.splits dest: run_rules_positive)
qed

lemma class_nodes_positive:
  "analyze_class_nodes self ns ctx = Inr css \<Longrightarrow>
   list_all (\<lambda>c. positive_points (constructor_violations c)) css"
proof (induction ns arbitrary: css)
  case Nil
  then show ?case by simp
next
  case (Cons n ns)
  show ?case
  proof (cases n)
    case (ClassDef cname bases kws body decorator_list line)
    from Cons.prems obtain cvs mss rest
      where body: "analyze_class_body self body ctx = Inr (cvs, mss)"
        and rest: "analyze_class_nodes self ns ctx = Inr rest"
        and css: "css = \<lparr>cs_name = cname, cs_line_number = line,
                          constructor_violations = cvs, method_scores = mss\<rparr> # rest"
      by (auto simp: ClassDef split: sum.splits)
    from body have "positive_points cvs" by (rule class_body_positive)
    with Cons.IH [OF rest] css show ?thesis by simp
  qed (use Cons in simp_all)
qed

subsection \<open>The pool of the code and the pool of the specification\<close>

lemma constructor_scores_positive:
  "list_all (\<lambda>c. positive_points (constructor_violations c)) css \<Longrightarrow>
   constructor_scores 100 0 css = dirty_constructor_scores css"
  by (induction css)
     (auto simp: constructor_scores_def dirty_constructor_scores_def positive_total
        constructor_score_def Let_def max.commute)

lemma all_scores_positive:
  "list_all (\<lambda>c. positive_points (constructor_violations c)) css \<Longrightarrow>
   all_scores 100 0 fss css = scored_constructs fss css"
  by (simp add: all_scores_def scored_constructs_def constructor_scores_positive)

lemma min_list_minimum: "(if xs \<noteq> [] then min_list xs else 100) = minimum_or_100 xs"
  by (simp add: minimum_or_100_def min_list_Min)

lemma min_list_le: "x \<in> set xs \<Longrightarrow> min_list xs \<le> (x::int)"
proof -
  assume x: "x \<in> set xs"
  then have "xs \<noteq> []" by auto
  then have "min_list xs = Min (set xs)" by (rule min_list_Min)
  with x show ?thesis by simp
qed

lemma analyze_tree_Inr:
  assumes "analyze_tree self path tree = Inr r"
  obtains fss css
    where "analyze_functions self tree (build_context tree) = Inr fss"
      and "analyze_classes self tree (build_context tree) = Inr css"
      and "function_scores r = fss" and "class_scores r = css"
      and "overall_score r = (if all_scores 100 0 fss css \<noteq> []
                              then min_list (all_scores 100 0 fss css) else 100)"
      and "red_flags r = collect_red_flags fss css"
      and "classification r = classify_file_score (overall_score r)"
      and "file_path r = path"
  using assms by (auto simp: analyze_tree_def Let_def split: sum.splits)

lemma analyze_tree_overall:
  assumes "analyze_tree self path tree = Inr r"
  shows "overall_score r = minimum_or_100 (scored_constructs (function_scores r) (class_scores r))"
proof -
  from assms obtain fss css
    where css: "analyze_classes self tree (build_context tree) = Inr css"
      and r: "function_scores r = fss" "class_scores r = css"
      and overall: "overall_score r = (if all_scores 100 0 fss css \<noteq> []
                              then min_list (all_scores 100 0 fss css) else 100)"
    by (rule analyze_tree_Inr)
  from css have "list_all (\<lambda>c. positive_points (constructor_violations c)) css"
    unfolding analyze_classes_def by (rule class_nodes_positive)
  then have eq: "all_scores 100 0 fss css = scored_constructs fss css"
    by (rule all_scores_positive)
  have "overall_score r = minimum_or_100 (all_scores 100 0 fss css)"
    unfolding overall by (rule min_list_minimum)
  then show ?thesis
    by (simp only: eq r)
qed

lemma total_points_nonneg:
  "\<forall>v\<in>set vs. 0 \<le> points_deducted v \<Longrightarrow> 0 \<le> total_points vs"
  unfolding total_points_def by (auto intro!: sum_list_nonneg)

lemma constructor_scores_invariant:
  assumes "\<forall>c\<in>set css. \<forall>v\<in>set (constructor_violations c). 0 \<le> points_deducted v"
  shows "set (constructor_scores 100 0 css) \<subseteq> set (dirty_constructor_scores css)"
    and "set (dirty_constructor_scores css) \<subseteq> insert 100 (set (constructor_scores 100 0 css))"
    and "\<forall>x \<in> set (constructor_scores 100 0 css). x \<le> 100"
proof -
  have nonneg: "0 \<le> total_points (constructor_violations c)" if "c \<in> set css" for c
    using assms that by (auto intro: total_points_nonneg)
  have empty: "total_points [] = 0" by (simp add: total_points_def)
  have one: "total_points (constructor_violations c) > 0 \<Longrightarrow> constructor_violations c \<noteq> []"
    for c :: ClassScore
    using empty by auto
  show "set (constructor_scores 100 0 css) \<subseteq> set (dirty_constructor_scores css)"
    using one
    by (auto simp: constructor_scores_def dirty_constructor_scores_def Let_def
          constructor_score_def max.commute split: if_splits)
  show "set (dirty_constructor_scores css) \<subseteq> insert 100 (set (constructor_scores 100 0 css))"
  proof
    fix x assume "x \<in> set (dirty_constructor_scores css)"
    then obtain c where c: "c \<in> set css" and x: "x = constructor_score (constructor_violations c)"
      by (auto simp: dirty_constructor_scores_def)
    from nonneg [OF c] have "total_points (constructor_violations c) = 0
        \<or> 0 < total_points (constructor_violations c)" by linarith
    then show "x \<in> insert 100 (set (constructor_scores 100 0 css))"
    proof
      assume "total_points (constructor_violations c) = 0"
      then show ?thesis by (simp add: x constructor_score_def)
    next
      assume "0 < total_points (constructor_violations c)"
      with c have "max (100 - total_points (constructor_violations c)) 0
                   \<in> set (constructor_scores 100 0 css)"
        by (force simp: constructor_scores_def Let_def)
      then show ?thesis by (simp add: x constructor_score_def max.commute)
    qed
  qed
  show "\<forall>x \<in> set (constructor_scores 100 0 css). x \<le> 100"
    by (auto simp: constructor_scores_def Let_def split: if_splits)
qed

lemma aggregate_invariant:
  assumes cv: "\<forall>c\<in>set css. \<forall>v\<in>set (constructor_violations c). 0 \<le> points_deducted v"
    and fs: "\<forall>f\<in>set fss. final_score f \<le> 100"
    and ms: "\<forall>c\<in>set css. \<forall>m\<in>set (method_scores c). final_score m \<le> 100"
  shows "aggregate_file_score ScoreCalculator_init fss css
         = minimum_or_100 (scored_constructs fss css)"
proof -
  let ?code = "all_scores 100 0 fss css"
  let ?claim = "scored_constructs fss css"
  have sub: "set ?code \<subseteq> set ?claim"
    using constructor_scores_invariant(1) [OF cv]
    by (auto simp: all_scores_def scored_constructs_def)
  have sup: "set ?claim \<subseteq> insert 100 (set ?code)"
    using constructor_scores_invariant(2) [OF cv]
    by (auto simp: all_scores_def scored_constructs_def)
  have le: "x \<le> 100" if "x \<in> set ?code" for x
    using that constructor_scores_invariant(3) [OF cv] fs ms
    by (auto simp: all_scores_def)
  have agg: "aggregate_file_score ScoreCalculator_init fss css
             = (if ?code = [] then 100 else min_list ?code)"
    by (simp add: aggregate_file_score_def ScoreCalculator_init_def Let_def)
  show ?thesis
  proof (cases "?code = []")
    case True
    with sup have "set ?claim \<subseteq> {100}" by simp
    then have "set ?claim = {} \<or> set ?claim = {100}" by (rule subset_singletonD)
    then have "minimum_or_100 ?claim = 100"
      unfolding minimum_or_100_def
      by (elim disjE) (simp_all only: if_True if_False Min_singleton insert_not_empty simp_thms)
    then show ?thesis using True agg by simp
  next
    case False
    then have ne: "set ?code \<noteq> {}" by simp
    with sub have ne': "set ?claim \<noteq> {}" by auto
    have mem: "Min (set ?code) \<in> set ?code"
      using ne by (intro Min_in) simp_all
    have "Min (set ?claim) = Min (set ?code)"
    proof (rule Min_eqI)
      show "finite (set ?claim)" by simp
      show "Min (set ?code) \<in> set ?claim"
        using mem sub by (rule subsetD [rotated])
      fix y assume "y \<in> set ?claim"
      with sup have "y \<in> insert 100 (set ?code)" by (rule subsetD)
      then have "y = 100 \<or> y \<in> set ?code" by simp
      then show "Min (set ?code) \<le> y"
      proof
        assume "y = 100"
        with le [OF mem] show ?thesis by simp
      next
        assume "y \<in> set ?code"
        then show ?thesis by simp
      qed
    qed
    moreover have "min_list ?code = Min (set ?code)"
      using False by (rule min_list_Min)
    ultimately show ?thesis
      using False ne' agg by (simp only: minimum_or_100_def if_False)
  qed
qed

lemma count_list_pos: "x \<in> set xs \<Longrightarrow> 0 < count_list xs x"
  by (induction xs) auto

lemma dirty_constructor_member:
  assumes "c \<in> set css" and "0 < total_points (constructor_violations c)"
  shows "max (100 - total_points (constructor_violations c)) 0 \<in> set (constructor_scores 100 0 css)"
  using assms by (force simp: constructor_scores_def Let_def)

subsection \<open>The two enumerations\<close>

lemma function_nodes_member:
  "analyze_function_nodes self ns ctx = Inr fss \<Longrightarrow> n \<in> set ns \<Longrightarrow>
   def_header n = Some (name, line) \<Longrightarrow>
   \<exists>vs. run_rules self n ctx = Inr vs
        \<and> calculate_function_score (score_calculator self) name line vs \<in> set fss"
proof (induction ns arbitrary: fss)
  case Nil
  then show ?case by simp
next
  case (Cons m ns)
  show ?case
  proof (cases "def_header m")
    case None
    with Cons.prems have "analyze_function_nodes self ns ctx = Inr fss" and "n \<in> set ns"
      by auto
    with Cons.IH Cons.prems(3) show ?thesis by blast
  next
    case (Some h)
    obtain mname mline where h: "h = (mname, mline)" by (cases h)
    from Cons.prems(1) Some h obtain vs rest
      where vs: "run_rules self m ctx = Inr vs"
        and rest: "analyze_function_nodes self ns ctx = Inr rest"
        and fss: "fss = calculate_function_score (score_calculator self) mname mline vs # rest"
      by (auto split: sum.splits)
    show ?thesis
    proof (cases "n = m")
      case True
      with Cons.prems(3) Some h vs fss show ?thesis by auto
    next
      case False
      with Cons.prems(2) have "n \<in> set ns" by simp
      from Cons.IH [OF rest this Cons.prems(3)] fss show ?thesis by auto
    qed
  qed
qed

lemma function_nodes_names:
  "analyze_function_nodes self ns ctx = Inr fss \<Longrightarrow>
   map (\<lambda>fs. (fs_name fs, fs_line_number fs)) fss = List.map_filter def_header ns"
proof (induction ns arbitrary: fss)
  case Nil
  then show ?case by simp
next
  case (Cons m ns)
  then show ?case
    by (auto simp: calculate_function_score_def Let_def
          split: option.splits sum.splits)
qed

lemma class_body_cvs:
  "analyze_class_body self items ctx = Inr (cvs, mss) \<Longrightarrow>
   cvs = concat (map (\<lambda>i. projr (run_rules self i ctx)) (filter is_init_method items))
   \<and> (\<forall>i \<in> set items. is_init_method i \<longrightarrow> (\<exists>vs. run_rules self i ctx = Inr vs))"
proof (induction items arbitrary: cvs mss)
  case Nil
  then show ?case by simp
next
  case (Cons i items)
  show ?case
  proof (cases "is_init_method i")
    case True
    with Cons.prems obtain vs cvs' where vs: "run_rules self i ctx = Inr vs"
      and rest: "analyze_class_body self items ctx = Inr (cvs', mss)"
      and cvs: "cvs = vs @ cvs'"
      by (auto split: sum.splits)
    from Cons.IH [OF rest] True vs cvs show ?thesis by simp
  next
    case False
    with Cons.prems obtain mss' where rest: "analyze_class_body self items ctx = Inr (cvs, mss')"
      by (auto split: sum.splits option.splits)
    from Cons.IH [OF rest] False show ?thesis by simp
  qed
qed

lemma class_body_constructor:
  assumes "analyze_class_body self items ctx = Inr (cvs, mss)"
    and "item \<in> set items" and "is_init_method item"
  shows "\<exists>vs. run_rules self item ctx = Inr vs \<and> set vs \<subseteq> set cvs
            \<and> (filter is_init_method items = [item] \<longrightarrow> cvs = vs)"
proof -
  from class_body_cvs [OF assms(1)] assms(2,3) obtain vs
    where vs: "run_rules self item ctx = Inr vs"
      and cvs: "cvs = concat (map (\<lambda>i. projr (run_rules self i ctx))
                               (filter is_init_method items))"
    by blast
  have "item \<in> set (filter is_init_method items)" using assms(2,3) by simp
  then have "set (projr (run_rules self item ctx)) \<subseteq> set cvs"
    unfolding cvs by auto
  moreover have "filter is_init_method items = [item] \<Longrightarrow> cvs = vs"
    unfolding cvs by (simp add: vs)
  ultimately show ?thesis using vs by auto
qed

lemma class_body_method:
  "analyze_class_body self items ctx = Inr (cvs, mss) \<Longrightarrow> item \<in> set items \<Longrightarrow>
   \<not> is_init_method item \<Longrightarrow> def_header item = Some (name, line) \<Longrightarrow>
   \<exists>vs. run_rules self item ctx = Inr vs
        \<and> calculate_function_score (score_calculator self) name line vs \<in> set mss"
proof (induction items arbitrary: cvs mss)
  case Nil
  then show ?case by simp
next
  case (Cons i items)
  show ?case
  proof (cases "is_init_method i")
    case True
    with Cons.prems(1) obtain cvs' where
      rest: "analyze_class_body self items ctx = Inr (cvs', mss)"
      by (auto split: sum.splits)
    from True Cons.prems(2,3) have "item \<in> set items" by auto
    from Cons.IH [OF rest this Cons.prems(3,4)] show ?thesis .
  next
    case False
    show ?thesis
    proof (cases "def_header i")
      case None
      with False Cons.prems(1) have rest: "analyze_class_body self items ctx = Inr (cvs, mss)"
        by simp
      from None Cons.prems(2,4) have "item \<in> set items" by auto
      from Cons.IH [OF rest this Cons.prems(3,4)] show ?thesis .
    next
      case (Some h)
      obtain iname iline where h: "h = (iname, iline)" by (cases h)
      from False Some h Cons.prems(1) obtain vs mss'
        where vs: "run_rules self i ctx = Inr vs"
          and rest: "analyze_class_body self items ctx = Inr (cvs, mss')"
          and mss: "mss = calculate_function_score (score_calculator self) iname iline vs # mss'"
        by (auto split: sum.splits)
      show ?thesis
      proof (cases "item = i")
        case True
        with Cons.prems(4) Some h vs mss show ?thesis by auto
      next
        case False
        with Cons.prems(2) have "item \<in> set items" by simp
        from Cons.IH [OF rest this Cons.prems(3,4)] mss show ?thesis by auto
      qed
    qed
  qed
qed

lemma class_nodes_member:
  "analyze_class_nodes self ns ctx = Inr css \<Longrightarrow>
   ClassDef cname bases kws body decorator_list line \<in> set ns \<Longrightarrow>
   \<exists>cvs mss. analyze_class_body self body ctx = Inr (cvs, mss)
      \<and> \<lparr>cs_name = cname, cs_line_number = line, constructor_violations = cvs,
          method_scores = mss\<rparr> \<in> set css"
proof (induction ns arbitrary: css)
  case Nil
  then show ?case by simp
next
  case (Cons n ns)
  show ?case
  proof (cases n)
    case (ClassDef cname' bases' kws' body' decorator_list' line')
    from Cons.prems(1) obtain cvs mss rest
      where body: "analyze_class_body self body' ctx = Inr (cvs, mss)"
        and rest: "analyze_class_nodes self ns ctx = Inr rest"
        and css: "css = \<lparr>cs_name = cname', cs_line_number = line',
                          constructor_violations = cvs, method_scores = mss\<rparr> # rest"
      by (auto simp: ClassDef split: sum.splits)
    show ?thesis
    proof (cases "ClassDef cname bases kws body decorator_list line = n")
      case True
      with ClassDef body css show ?thesis by auto
    next
      case False
      with Cons.prems(2) have "ClassDef cname bases kws body decorator_list line \<in> set ns"
        by auto
      from Cons.IH [OF rest this] css show ?thesis by auto
    qed
  qed (use Cons in auto)
qed

subsection \<open>The Constructor Side Effects rule on a function node\<close>

lemma constructor_rule_on_function:
  "is_function_node node \<Longrightarrow> ConstructorSideEffectsRule_evaluate node ctx = []"
  by (cases node) (simp_all add: is_function_node_def ConstructorSideEffectsRule_evaluate_def)

lemma no_constructor_rule_simps [simp]:
  "no_constructor_rule []"
  "no_constructor_rule (vs @ ws) \<longleftrightarrow> no_constructor_rule vs \<and> no_constructor_rule ws"
  by (simp_all add: no_constructor_rule_def)

lemma evaluate_no_constructor_rule:
  assumes "evaluate rule node ctx = Inr vs" and "is_function_node node"
  shows "no_constructor_rule vs"
proof (cases "rule = ConstructorSideEffectsRule")
  case True
  with assms show ?thesis by (simp add: constructor_rule_on_function)
next
  case False
  then have "rule_name_of rule \<noteq> ''Constructor Side Effects''"
    by (cases rule) simp_all
  with evaluate_sound [OF assms(1)] show ?thesis
    by (auto simp: sound_for_def no_constructor_rule_def list_all_iff)
qed

lemma evaluate_rules_no_constructor_rule:
  "evaluate_rules rs node ctx = Inr vs \<Longrightarrow> is_function_node node \<Longrightarrow> no_constructor_rule vs"
proof (induction rs arbitrary: vs)
  case Nil
  then show ?case by simp
next
  case (Cons rule rs)
  from Cons.prems(1) obtain ws others where ws: "evaluate rule node ctx = Inr ws"
    and others: "evaluate_rules rs node ctx = Inr others" and vs: "vs = ws @ others"
    by (auto split: sum.splits)
  from evaluate_no_constructor_rule [OF ws Cons.prems(2)] Cons.IH [OF others Cons.prems(2)] vs
  show ?case by simp
qed

lemma run_rules_no_constructor_rule:
  "run_rules self node ctx = Inr vs \<Longrightarrow> is_function_node node \<Longrightarrow> no_constructor_rule vs"
  unfolding run_rules_def by (rule evaluate_rules_no_constructor_rule)

lemma function_nodes_no_constructor_rule:
  "analyze_function_nodes self ns ctx = Inr fss \<Longrightarrow>
   list_all (\<lambda>fs. no_constructor_rule (violations fs)) fss"
proof (induction ns arbitrary: fss)
  case Nil
  then show ?case by simp
next
  case (Cons n ns)
  show ?case
  proof (cases "def_header n")
    case None
    with Cons show ?thesis by simp
  next
    case (Some h)
    obtain name line where h: "h = (name, line)" by (cases h)
    from Cons.prems Some h obtain vs rest
      where vs: "run_rules self n ctx = Inr vs"
        and rest: "analyze_function_nodes self ns ctx = Inr rest"
        and fss: "fss = calculate_function_score (score_calculator self) name line vs # rest"
      by (auto split: sum.splits)
    from Some have "is_function_node n" by (rule def_header_function)
    with vs have "no_constructor_rule vs" by (rule run_rules_no_constructor_rule)
    with Cons.IH [OF rest] fss show ?thesis
      by (simp add: calculate_function_score_def Let_def)
  qed
qed

lemma class_body_no_constructor_rule:
  "analyze_class_body self items ctx = Inr (cvs, mss) \<Longrightarrow>
   no_constructor_rule cvs \<and> list_all (\<lambda>fs. no_constructor_rule (violations fs)) mss"
proof (induction items arbitrary: cvs mss)
  case Nil
  then show ?case by simp
next
  case (Cons i items)
  show ?case
  proof (cases "is_init_method i")
    case True
    with Cons.prems obtain vs cvs' where vs: "run_rules self i ctx = Inr vs"
      and rest: "analyze_class_body self items ctx = Inr (cvs', mss)"
      and cvs: "cvs = vs @ cvs'"
      by (auto split: sum.splits)
    from True have "is_function_node i" by (rule init_method_function)
    with vs have "no_constructor_rule vs" by (rule run_rules_no_constructor_rule)
    with Cons.IH [OF rest] cvs show ?thesis by simp
  next
    case False
    show ?thesis
    proof (cases "def_header i")
      case None
      with False Cons.prems have "analyze_class_body self items ctx = Inr (cvs, mss)" by simp
      then show ?thesis by (rule Cons.IH)
    next
      case (Some h)
      obtain name line where h: "h = (name, line)" by (cases h)
      from False Some h Cons.prems obtain vs mss'
        where vs: "run_rules self i ctx = Inr vs"
          and rest: "analyze_class_body self items ctx = Inr (cvs, mss')"
          and mss: "mss = calculate_function_score (score_calculator self) name line vs # mss'"
        by (auto split: sum.splits)
      from Some have "is_function_node i" by (rule def_header_function)
      with vs have "no_constructor_rule vs" by (rule run_rules_no_constructor_rule)
      with Cons.IH [OF rest] mss show ?thesis
        by (simp add: calculate_function_score_def Let_def)
    qed
  qed
qed

lemma class_nodes_no_constructor_rule:
  "analyze_class_nodes self ns ctx = Inr css \<Longrightarrow>
   list_all (\<lambda>c. no_constructor_rule (constructor_violations c)
                \<and> list_all (\<lambda>fs. no_constructor_rule (violations fs)) (method_scores c)) css"
proof (induction ns arbitrary: css)
  case Nil
  then show ?case by simp
next
  case (Cons n ns)
  show ?case
  proof (cases n)
    case (ClassDef cname bases kws body decorator_list line)
    from Cons.prems obtain cvs mss rest
      where body: "analyze_class_body self body ctx = Inr (cvs, mss)"
        and rest: "analyze_class_nodes self ns ctx = Inr rest"
        and css: "css = \<lparr>cs_name = cname, cs_line_number = line,
                          constructor_violations = cvs, method_scores = mss\<rparr> # rest"
      by (auto simp: ClassDef split: sum.splits)
    from class_body_no_constructor_rule [OF body] Cons.IH [OF rest] css show ?thesis by simp
  qed (use Cons in simp_all)
qed

subsection \<open>The Branch Explosion rule on a function node\<close>

lemma count_branches_function:
  "is_function_node node \<Longrightarrow> count_branches node = Inl AttributeError"
  by (cases node)
     (simp_all add: is_function_node_def count_branches_def walk_head branches_of_def
        ast_AsyncWhile_def)

lemma branch_rule_function:
  "is_function_node node \<Longrightarrow> BranchExplosionRule_evaluate node ctx = Inl AttributeError"
  by (cases node)
     (simp_all add: is_function_node_def BranchExplosionRule_evaluate_def
        count_branches_function)

lemma run_rules_init_function:
  "is_function_node node \<Longrightarrow> run_rules TestabilityAnalyzer_init node ctx = Inl AttributeError"
  by (simp add: run_rules_def TestabilityAnalyzer_init_def get_all_rules_def
        RuleRegistry_init_def branch_rule_function)

lemma function_nodes_init_raise:
  "list_ex is_function_node ns \<Longrightarrow>
   analyze_function_nodes TestabilityAnalyzer_init ns ctx = Inl AttributeError"
proof (induction ns)
  case Nil
  then show ?case by simp
next
  case (Cons n ns)
  show ?case
  proof (cases "is_function_node n")
    case True
    then obtain h where "def_header n = Some h"
      using def_header_None [of n] by auto
    with True show ?thesis
      by (cases h) (simp add: run_rules_init_function)
  next
    case False
    then have "def_header n = None" by (simp add: def_header_None)
    with False Cons show ?thesis by simp
  qed
qed

subsection \<open>Imports in a function body\<close>

lemma allowed_not_external:
  "m \<in> set allowed_imports \<Longrightarrow> m \<notin> set external_indicators"
  by (auto simp: allowed_imports_def external_indicators_def)

lemma is_external_dependency_iff:
  "is_external_dependency m \<longleftrightarrow> top_level_module m \<in> set external_indicators"
  using allowed_not_external [of "top_level_module m"]
  by (auto simp: is_external_dependency_def Let_def)

lemma is_problematic_import_iff:
  "is_problematic_import n \<longleftrightarrow>
   (\<exists>m \<in> set (import_names_of n). top_level_module m \<in> set external_indicators)"
  by (cases n)
     (auto simp: is_problematic_import_def import_names_of_def is_external_dependency_iff
        list_ex_iff split: option.splits)

lemma find_None_list_ex: "find P xs = None \<longleftrightarrow> \<not> list_ex P xs"
  by (auto simp: find_None_iff list_ex_iff)

lemma find_Some_list_ex: "find P xs = Some x \<Longrightarrow> list_ex P xs"
  by (auto simp: find_Some_iff list_ex_iff)

lemma hidden_imports_nonempty:
  "is_function_node node \<Longrightarrow>
   HiddenImportsRule_evaluate node ctx \<noteq> [] \<longleftrightarrow> list_ex is_problematic_import (walk node)"
  by (cases node)
     (auto simp: is_function_node_def HiddenImportsRule_evaluate_def find_None_list_ex
        split: option.splits dest: find_Some_list_ex)

lemma imported_os: "imported_modules os_import_function = [''os'']"
  by (simp add: imported_modules_def os_import_function_def walk_def import_names_of_def
        optional_def alias_names_def)

lemma is_problematic_import_eq: "is_problematic_import = names_external_package"
  by (rule ext) (simp add: is_problematic_import_iff names_external_package_def list_ex_iff)

lemma find_filter_conv:
  "find P xs = (case filter P xs of [] \<Rightarrow> None | x # rest \<Rightarrow> Some x)"
  by (induction xs) simp_all

lemma external_import_lineno:
  "names_external_package child \<Longrightarrow> lineno_or child line = the (lineno child)
     \<and> lineno child \<noteq> None"
  by (cases child) (simp_all add: names_external_package_def import_names_of_def lineno_or_def)

lemma hidden_imports_first:
  assumes "def_header node = Some (name, line)"
  shows "HiddenImportsRule_evaluate node ctx =
     (case external_imports node of
        [] \<Rightarrow> []
      | first_import # others \<Rightarrow>
          [\<lparr>rule_name = ''Hidden Dependencies via Imports-in-Function'',
            description = ''Hidden dependency via import inside function'',
            points_deducted = 5, line_number = the (lineno first_import),
            function_name = name, is_red_flag = False\<rparr>])"
proof -
  have ev: "HiddenImportsRule_evaluate node ctx =
     (case find is_problematic_import (walk node) of
            None \<Rightarrow> []
          | Some child \<Rightarrow>
              [\<lparr>rule_name = ''Hidden Dependencies via Imports-in-Function'',
                description = ''Hidden dependency via import inside function'',
                points_deducted = 5, line_number = lineno_or child line,
                function_name = name, is_red_flag = False\<rparr>])"
    using assms
    by (cases node) (simp_all add: def_header_def on_function_def HiddenImportsRule_evaluate_def)
  show ?thesis
  proof (cases "external_imports node")
    case Nil
    then show ?thesis
      unfolding ev is_problematic_import_eq find_filter_conv external_imports_def by simp
  next
    case (Cons first_import others)
    then have "first_import \<in> set (filter names_external_package (walk node))"
      by (simp add: external_imports_def)
    then have "names_external_package first_import" by simp
    from external_import_lineno [OF this, of line] Cons show ?thesis
      unfolding ev is_problematic_import_eq find_filter_conv external_imports_def by simp
  qed
qed

subsection \<open>When the analysis returns, and what\<close>

lemma rules_return_on_Cons:
  "rules_return_on self ctx (n # ns) \<longleftrightarrow>
     (is_function_node n \<longrightarrow> \<not> isl (run_rules self n ctx)) \<and> rules_return_on self ctx ns"
  by (simp add: rules_return_on_def)

lemma rules_return_on_Nil [simp]: "rules_return_on self ctx []"
  by (simp add: rules_return_on_def)

lemma rules_return_on_subset:
  "rules_return_on self ctx ns \<Longrightarrow> set ms \<subseteq> set ns \<Longrightarrow> rules_return_on self ctx ms"
  by (auto simp: rules_return_on_def list_all_iff)

lemma rules_return_on_append:
  "rules_return_on self ctx (xs @ ys)
      \<longleftrightarrow> rules_return_on self ctx xs \<and> rules_return_on self ctx ys"
  by (simp add: rules_return_on_def)

lemma score_of_None: "\<not> is_function_node n \<Longrightarrow> score_of self ctx n = None"
  by (simp add: score_of_def def_header_None)

lemma score_of_Some:
  "def_header n = Some (name, line) \<Longrightarrow> run_rules self n ctx = Inr vs \<Longrightarrow>
   score_of self ctx n = Some (calculate_function_score (score_calculator self) name line vs)"
  by (simp add: score_of_def)

lemma function_nodes_return:
  "rules_return_on self ctx ns \<Longrightarrow>
   analyze_function_nodes self ns ctx = Inr (List.map_filter (score_of self ctx) ns)"
proof (induction ns)
  case Nil
  then show ?case by simp
next
  case (Cons n ns)
  from Cons.prems have rest: "rules_return_on self ctx ns"
    by (simp add: rules_return_on_Cons)
  show ?case
  proof (cases "def_header n")
    case None
    then have "score_of self ctx n = None" by (simp add: score_of_def)
    with None Cons.IH [OF rest] show ?thesis by simp
  next
    case (Some h)
    obtain name line where h: "h = (name, line)" by (cases h)
    from Some have "is_function_node n" by (rule def_header_function)
    with Cons.prems have "\<not> isl (run_rules self n ctx)"
      by (simp add: rules_return_on_Cons)
    then obtain vs where vs: "run_rules self n ctx = Inr vs"
      by (cases "run_rules self n ctx") simp_all
    with Some h have "score_of self ctx n
          = Some (calculate_function_score (score_calculator self) name line vs)"
      by (simp add: score_of_Some)
    with Some h vs Cons.IH [OF rest] show ?thesis by simp
  qed
qed

lemma function_nodes_returned:
  "analyze_function_nodes self ns ctx = Inr fss \<Longrightarrow> rules_return_on self ctx ns"
proof (induction ns arbitrary: fss)
  case Nil
  then show ?case by simp
next
  case (Cons n ns)
  show ?case
  proof (cases "def_header n")
    case None
    then have "\<not> is_function_node n" by (simp add: def_header_None)
    with None Cons show ?thesis by (simp add: rules_return_on_Cons)
  next
    case (Some h)
    obtain name line where h: "h = (name, line)" by (cases h)
    from Cons.prems Some h obtain vs rest
      where "run_rules self n ctx = Inr vs" and "analyze_function_nodes self ns ctx = Inr rest"
      by (auto split: sum.splits)
    with Cons.IH show ?thesis by (simp add: rules_return_on_Cons)
  qed
qed

lemma function_nodes_iff:
  "analyze_function_nodes self ns ctx = Inr fss \<longleftrightarrow>
     rules_return_on self ctx ns \<and> fss = List.map_filter (score_of self ctx) ns"
  using function_nodes_return [of self ctx ns] function_nodes_returned [of self ns ctx fss]
  by auto

lemma class_body_return:
  "rules_return_on self ctx items \<Longrightarrow>
   analyze_class_body self items ctx
     = Inr (concat (map (\<lambda>item. projr (run_rules self item ctx)) (filter is_init_method items)),
            List.map_filter (score_of self ctx) (filter (\<lambda>item. \<not> is_init_method item) items))"
proof (induction items)
  case Nil
  then show ?case by simp
next
  case (Cons i items)
  from Cons.prems have rest: "rules_return_on self ctx items"
    by (simp add: rules_return_on_Cons)
  show ?case
  proof (cases "is_init_method i")
    case True
    then have "is_function_node i" by (rule init_method_function)
    with Cons.prems have "\<not> isl (run_rules self i ctx)"
      by (simp add: rules_return_on_Cons)
    then obtain vs where vs: "run_rules self i ctx = Inr vs"
      by (cases "run_rules self i ctx") simp_all
    with True Cons.IH [OF rest] show ?thesis by simp
  next
    case False
    show ?thesis
    proof (cases "def_header i")
      case None
      then have "score_of self ctx i = None" by (simp add: score_of_def)
      with None False Cons.IH [OF rest] show ?thesis by simp
    next
      case (Some h)
      obtain name line where h: "h = (name, line)" by (cases h)
      from Some have "is_function_node i" by (rule def_header_function)
      with Cons.prems have "\<not> isl (run_rules self i ctx)"
        by (simp add: rules_return_on_Cons)
      then obtain vs where vs: "run_rules self i ctx = Inr vs"
        by (cases "run_rules self i ctx") simp_all
      with Some h have "score_of self ctx i
            = Some (calculate_function_score (score_calculator self) name line vs)"
        by (simp add: score_of_Some)
      with False Some h vs Cons.IH [OF rest] show ?thesis by simp
    qed
  qed
qed

lemma class_body_returned:
  "analyze_class_body self items ctx = Inr p \<Longrightarrow> rules_return_on self ctx items"
proof (induction items arbitrary: p)
  case Nil
  then show ?case by simp
next
  case (Cons i items)
  show ?case
  proof (cases "is_init_method i")
    case True
    with Cons.prems obtain vs q
      where "run_rules self i ctx = Inr vs" and "analyze_class_body self items ctx = Inr q"
      by (auto split: sum.splits)
    with Cons.IH show ?thesis by (simp add: rules_return_on_Cons)
  next
    case False
    show ?thesis
    proof (cases "def_header i")
      case None
      then have "\<not> is_function_node i" by (simp add: def_header_None)
      with None False Cons show ?thesis by (simp add: rules_return_on_Cons)
    next
      case (Some h)
      obtain name line where h: "h = (name, line)" by (cases h)
      from Cons.prems False Some h obtain vs q
        where "run_rules self i ctx = Inr vs" and "analyze_class_body self items ctx = Inr q"
        by (auto split: sum.splits)
      with Cons.IH show ?thesis by (simp add: rules_return_on_Cons)
    qed
  qed
qed

lemma class_nodes_return:
  "rules_return_on self ctx (class_bodies ns) \<Longrightarrow>
   analyze_class_nodes self ns ctx = Inr (List.map_filter (class_score_of self ctx) ns)"
proof (induction ns)
  case Nil
  then show ?case by simp
next
  case (Cons n ns)
  show ?case
  proof (cases n)
    case (ClassDef cname bases kws body decorator_list line)
    have bodies: "class_bodies (n # ns) = body @ class_bodies ns"
      by (simp add: class_bodies_def ClassDef)
    with Cons.prems have body: "rules_return_on self ctx body"
      and rest: "rules_return_on self ctx (class_bodies ns)"
      by (simp_all add: rules_return_on_append)
    have cs: "class_score_of self ctx n
          = Some \<lparr>cs_name = cname, cs_line_number = line,
                  constructor_violations =
                    concat (map (\<lambda>item. projr (run_rules self item ctx))
                              (filter is_init_method body)),
                  method_scores =
                    List.map_filter (score_of self ctx)
                      (filter (\<lambda>item. \<not> is_init_method item) body)\<rparr>"
      by (simp add: class_score_of_def ClassDef)
    have "analyze_class_nodes self (n # ns) ctx
          = Inr (the (class_score_of self ctx n) # List.map_filter (class_score_of self ctx) ns)"
      by (simp add: ClassDef class_body_return [OF body] Cons.IH [OF rest] cs [unfolded ClassDef])
    then show ?thesis by (simp add: cs)
  next
    case (Module x)
    with Cons show ?thesis by (simp add: class_bodies_def class_score_of_def)
  qed (use Cons in \<open>simp_all add: class_bodies_def class_score_of_def\<close>)
qed

lemma class_nodes_returned:
  "analyze_class_nodes self ns ctx = Inr css \<Longrightarrow> rules_return_on self ctx (class_bodies ns)"
proof (induction ns arbitrary: css)
  case Nil
  then show ?case by (simp add: class_bodies_def)
next
  case (Cons n ns)
  show ?case
  proof (cases n)
    case (ClassDef cname bases kws body decorator_list line)
    have bodies: "class_bodies (n # ns) = body @ class_bodies ns"
      by (simp add: class_bodies_def ClassDef)
    from Cons.prems obtain p rest
      where body: "analyze_class_body self body ctx = Inr p"
        and rest: "analyze_class_nodes self ns ctx = Inr rest"
      by (auto simp: ClassDef split: sum.splits)
    from class_body_returned [OF body] Cons.IH [OF rest] show ?thesis
      by (simp add: bodies rules_return_on_append)
  qed (use Cons in \<open>simp_all add: class_bodies_def\<close>)
qed

lemma class_bodies_walk: "set (class_bodies (walk tree)) \<subseteq> set (walk tree)"
  by (auto simp: class_bodies_def split: node.splits intro: walk_class_body)

lemma analyze_tree_iff:
  "analyze_tree self path tree = Inr r \<longleftrightarrow>
     rules_return self tree
     \<and> r = \<lparr>file_path = path,
             overall_score = (if all_scores 100 0 (walk_function_scores self tree)
                                   (walk_class_scores self tree) \<noteq> []
                              then min_list (all_scores 100 0 (walk_function_scores self tree)
                                               (walk_class_scores self tree))
                              else 100),
             classification = classify_file_score
                (if all_scores 100 0 (walk_function_scores self tree)
                      (walk_class_scores self tree) \<noteq> []
                 then min_list (all_scores 100 0 (walk_function_scores self tree)
                                  (walk_class_scores self tree))
                 else 100),
             function_scores = walk_function_scores self tree,
             class_scores = walk_class_scores self tree,
             red_flags = collect_red_flags (walk_function_scores self tree)
                           (walk_class_scores self tree)\<rparr>"
proof -
  let ?ctx = "build_context tree"
  have bodies: "rules_return_on self ?ctx (walk tree)
      \<Longrightarrow> rules_return_on self ?ctx (class_bodies (walk tree))"
    using class_bodies_walk by (rule rules_return_on_subset [rotated])
  show ?thesis
  proof (cases "rules_return self tree")
    case True
    then have f: "analyze_function_nodes self (walk tree) ?ctx
                  = Inr (walk_function_scores self tree)"
      by (simp add: function_nodes_iff rules_return_def walk_function_scores_def)
    from True have c: "analyze_class_nodes self (walk tree) ?ctx
                  = Inr (walk_class_scores self tree)"
      unfolding walk_class_scores_def
      by (intro class_nodes_return bodies) (simp add: rules_return_def)
    show ?thesis
      using True f c
      by (auto simp: analyze_tree_def analyze_functions_def analyze_classes_def Let_def)
  next
    case False
    then have "isl (analyze_function_nodes self (walk tree) ?ctx)"
      using function_nodes_iff [of self "walk tree" ?ctx]
      by (cases "analyze_function_nodes self (walk tree) ?ctx") (auto simp: rules_return_def)
    then have "isl (analyze_tree self path tree)"
      by (auto simp: analyze_tree_def analyze_functions_def Let_def split: sum.splits)
    with False show ?thesis by auto
  qed
qed

lemma rules_return_init:
  "rules_return TestabilityAnalyzer_init tree \<longleftrightarrow> \<not> list_ex is_function_node (walk tree)"
  by (auto simp: rules_return_def rules_return_on_def list_all_iff list_ex_iff
        run_rules_init_function)

lemma analyze_tree_returns:
  assumes "rules_return self tree"
  shows "\<exists>r. analyze_tree self path tree = Inr r
           \<and> function_scores r = walk_function_scores self tree
           \<and> class_scores r = walk_class_scores self tree
           \<and> red_flags r = collect_red_flags (walk_function_scores self tree)
                              (walk_class_scores self tree)
           \<and> overall_score r
               = minimum_or_100 (scored_constructs (walk_function_scores self tree)
                                   (walk_class_scores self tree))"
proof -
  from assms obtain r where r: "analyze_tree self path tree = Inr r"
    and f: "function_scores r = walk_function_scores self tree"
    and c: "class_scores r = walk_class_scores self tree"
    and g: "red_flags r = collect_red_flags (walk_function_scores self tree)
                              (walk_class_scores self tree)"
    using analyze_tree_iff [of self path tree] by simp
  from analyze_tree_overall [OF r] have "overall_score r
               = minimum_or_100 (scored_constructs (walk_function_scores self tree)
                                   (walk_class_scores self tree))"
    by (simp only: f c)
  with r f c g show ?thesis by blast
qed

lemma analyze_tree_raises:
  assumes "\<not> rules_return self tree"
  shows "isl (analyze_tree self path tree)"
proof (cases "analyze_tree self path tree")
  case (Inl e)
  then show ?thesis by simp
next
  case (Inr r)
  then have "rules_return self tree" unfolding analyze_tree_iff by (rule conjunct1)
  with assms show ?thesis by simp
qed

lemma map_filter_no_functions:
  "\<not> list_ex is_function_node ns \<Longrightarrow> List.map_filter (score_of self ctx) ns = []"
  by (induction ns) (simp_all add: score_of_None)

lemma filter_init_no_functions:
  "\<not> list_ex is_function_node ns \<Longrightarrow> filter is_init_method ns = []"
  by (induction ns) (auto dest: init_method_function)

lemma class_score_no_functions:
  assumes "\<not> list_ex is_function_node (walk tree)" and "n \<in> set (walk tree)"
    and "class_score_of self ctx n = Some cs"
  shows "constructor_violations cs = [] \<and> method_scores cs = []"
proof (cases n)
  case (ClassDef cname bases kws body decorator_list line)
  have "set body \<subseteq> set (walk tree)"
    using assms(2) unfolding ClassDef by (auto intro: walk_class_body)
  with assms(1) have none: "\<not> list_ex is_function_node body"
    by (auto simp: list_ex_iff)
  then have "\<not> list_ex is_function_node (filter (\<lambda>item. \<not> is_init_method item) body)"
    by (auto simp: list_ex_iff)
  then have "List.map_filter (score_of self ctx) (filter (\<lambda>item. \<not> is_init_method item) body) = []"
    by (rule map_filter_no_functions)
  with assms(3) filter_init_no_functions [OF none] show ?thesis
    by (auto simp: class_score_of_def ClassDef)
qed (use assms(3) in \<open>simp_all add: class_score_of_def\<close>)

lemma walk_class_scores_no_functions:
  assumes "\<not> list_ex is_function_node (walk tree)"
  shows "list_all (\<lambda>c. constructor_violations c = [] \<and> method_scores c = [])
           (walk_class_scores self tree)"
  unfolding list_all_iff walk_class_scores_def
proof
  fix cs assume "cs \<in> set (List.map_filter (class_score_of self (build_context tree)) (walk tree))"
  then obtain n where "n \<in> set (walk tree)"
    and "class_score_of self (build_context tree) n = Some cs"
    by (auto simp: map_filter_def)
  with assms show "constructor_violations cs = [] \<and> method_scores cs = []"
    by (rule class_score_no_functions)
qed

lemma scored_constructs_clean:
  "list_all (\<lambda>c. constructor_violations c = [] \<and> method_scores c = []) css \<Longrightarrow>
   scored_constructs [] css = []"
  by (induction css) (simp_all add: scored_constructs_def dirty_constructor_scores_def)

lemma constructor_scored_twice:
  assumes "analyze_tree self path tree = Inr r"
    and "ClassDef cname bases kws body decorator_list line \<in> set (walk tree)"
    and "item \<in> set body"
    and "is_init_method item"
  shows "\<exists>vs init_line.
      def_header item = Some (''__init__'', init_line)
      \<and> run_rules self item (build_context tree) = Inr vs
      \<and> calculate_function_score (score_calculator self) ''__init__'' init_line vs
          \<in> set (function_scores r)
      \<and> overall_score r
          \<le> final_score (calculate_function_score (score_calculator self) ''__init__'' init_line vs)
      \<and> (\<exists>cs \<in> set (class_scores r).
            cs_name cs = cname \<and> cs_line_number cs = line
            \<and> set vs \<subseteq> set (constructor_violations cs)
            \<and> (filter is_init_method body = [item] \<longrightarrow> constructor_violations cs = vs))
      \<and> (score_calculator self = ScoreCalculator_init
           \<and> filter is_init_method body = [item] \<and> vs \<noteq> [] \<longrightarrow>
           2 \<le> count_list (all_scores 100 0 (function_scores r) (class_scores r))
                  (final_score (calculate_function_score (score_calculator self)
                                  ''__init__'' init_line vs)))"
proof -
  let ?ctx = "build_context tree"
  from assms(1) obtain fss css
    where fss: "analyze_functions self tree ?ctx = Inr fss"
      and css: "analyze_classes self tree ?ctx = Inr css"
      and r: "function_scores r = fss" "class_scores r = css"
      and overall: "overall_score r = (if all_scores 100 0 fss css \<noteq> []
                              then min_list (all_scores 100 0 fss css) else 100)"
    by (rule analyze_tree_Inr)
  from assms(4) obtain init_line where hdr: "def_header item = Some (''__init__'', init_line)"
    using init_method_header by blast
  have item: "item \<in> set (walk tree)"
    using assms(2,3) by (rule walk_class_body)
  from function_nodes_member [OF fss [unfolded analyze_functions_def] item hdr]
  obtain vs where vs: "run_rules self item ?ctx = Inr vs"
    and mem: "calculate_function_score (score_calculator self) ''__init__'' init_line vs \<in> set fss"
    by blast
  let ?fs = "calculate_function_score (score_calculator self) ''__init__'' init_line vs"
  have in_pool: "final_score ?fs \<in> set (all_scores 100 0 fss css)"
    using mem by (auto simp: all_scores_def)
  then have le: "overall_score r \<le> final_score ?fs"
    using min_list_le [OF in_pool] overall by auto
  from class_nodes_member [OF css [unfolded analyze_classes_def] assms(2)]
  obtain cvs mss where body: "analyze_class_body self body ?ctx = Inr (cvs, mss)"
    and cs: "\<lparr>cs_name = cname, cs_line_number = line, constructor_violations = cvs,
              method_scores = mss\<rparr> \<in> set css"
    by blast
  let ?cs = "\<lparr>cs_name = cname, cs_line_number = line, constructor_violations = cvs,
              method_scores = mss\<rparr>"
  from class_body_constructor [OF body assms(3,4)] vs
  have sub: "set vs \<subseteq> set cvs" and single: "filter is_init_method body = [item] \<longrightarrow> cvs = vs"
    by auto
  have twice: "2 \<le> count_list (all_scores 100 0 fss css) (final_score ?fs)"
    if calc: "score_calculator self = ScoreCalculator_init"
      and one: "filter is_init_method body = [item]" and dirty: "vs \<noteq> []"
  proof -
    from single one have cvs: "cvs = vs" by simp
    have pos: "0 < total_points vs"
      using run_rules_positive [OF vs] dirty by (simp add: positive_total)
    have final: "final_score ?fs = max (100 - total_points vs) 0"
      by (simp add: calc calculate_function_score_def ScoreCalculator_init_def Let_def)
    have "max (100 - total_points (constructor_violations ?cs)) 0
            \<in> set (constructor_scores 100 0 css)"
      using cs by (rule dirty_constructor_member) (simp add: cvs pos)
    then have c: "0 < count_list (constructor_scores 100 0 css) (final_score ?fs)"
      by (simp add: final cvs count_list_pos)
    have f: "0 < count_list (map final_score fss) (final_score ?fs)"
      using mem by (intro count_list_pos) auto
    show ?thesis
      using c f by (simp add: all_scores_def)
  qed
  show ?thesis
    apply (rule exI [of _ vs], rule exI [of _ init_line])
    using hdr vs mem le cs sub single twice
    by (auto simp: r intro!: bexI [of _ ?cs])
qed

subsection \<open>The External Dependency Count rule\<close>

lemma dependency_titles:
  "map (\<lambda>(dep_type, funs, modules). dep_type_title dep_type) dependency_types =
      [''File System'', ''Environment'', ''Network'', ''Os Level'', ''Singletons'']"
  by (simp add: dependency_types_def dep_type_title_def)

lemma dep_type_title_range:
  "dep_type_title t \<in> set [''File System'', ''Environment'', ''Network'', ''Os Level'',
                             ''Singletons'']"
  by (simp add: dep_type_title_def)

lemma classify_dependency_range:
  "classify_dependency c = Some t \<Longrightarrow>
   t \<in> set [''File System'', ''Environment'', ''Network'', ''Os Level'', ''Singletons'']"
  using dep_type_title_range
  by (auto simp: classify_dependency_def split: option.splits callee.splits prod.splits
        simp del: set_simps)

lemma detected_categories_range:
  "detected_categories node
     \<subseteq> set [''File System'', ''Environment'', ''Network'', ''Os Level'', ''Singletons'']"
  using classify_dependency_range
  by (auto simp: detected_categories_def map_filter_def simp del: set_simps)

lemma external_dependency_function:
  assumes "def_header node = Some (name, line)"
  shows "ExternalDependencyRule_evaluate node ctx
     = map (\<lambda>dep_type.
              \<lparr>rule_name = ''External Dependency Count'',
               description = ''External dependency: '' @ dep_type,
               points_deducted = 5, line_number = line, function_name = name,
               is_red_flag = False\<rparr>)
         (filter (\<lambda>t. t \<in> detected_categories node)
            [''File System'', ''Environment'', ''Network'', ''Os Level'', ''Singletons''])"
  using assms
  by (cases node)
     (simp_all add: def_header_def on_function_def ExternalDependencyRule_evaluate_def Let_def
        dependency_titles detected_categories_def del: filter.simps)

lemma filter_detected:
  "set (filter (\<lambda>t. t \<in> detected_categories node)
          [''File System'', ''Environment'', ''Network'', ''Os Level'', ''Singletons''])
   = detected_categories node"
  using detected_categories_range [of node] by (auto simp del: filter.simps set_simps)

lemma length_detected:
  "length (filter (\<lambda>t. t \<in> detected_categories node)
          [''File System'', ''Environment'', ''Network'', ''Os Level'', ''Singletons''])
   = card (detected_categories node)"
proof -
  have "distinct (filter (\<lambda>t. t \<in> detected_categories node)
          [''File System'', ''Environment'', ''Network'', ''Os Level'', ''Singletons''])"
    by (rule distinct_filter) simp
  from distinct_card [OF this] show ?thesis by (simp only: filter_detected)
qed

lemma total_points_flat:
  "list_all (\<lambda>v. points_deducted v = k) vs \<Longrightarrow> total_points vs = k * int (length vs)"
  by (induction vs) (simp_all add: total_points_def algebra_simps)

lemma external_dependency_exact:
  assumes "is_function_node node"
  shows "set (map description (ExternalDependencyRule_evaluate node ctx))
           = (\<lambda>t. ''External dependency: '' @ t) ` detected_categories node"
    and "length (ExternalDependencyRule_evaluate node ctx) = card (detected_categories node)"
    and "total_points (ExternalDependencyRule_evaluate node ctx)
           = 5 * int (card (detected_categories node))"
    and "list_all (\<lambda>v. def_header node = Some (function_name v, line_number v))
           (ExternalDependencyRule_evaluate node ctx)"
proof -
  from assms obtain name line where hdr: "def_header node = Some (name, line)"
    using def_header_None [of node] by (cases "def_header node") auto
  define found where "found = filter (\<lambda>t. t \<in> detected_categories node)
            [''File System'', ''Environment'', ''Network'', ''Os Level'', ''Singletons'']"
  have ev: "ExternalDependencyRule_evaluate node ctx
     = map (\<lambda>dep_type.
              \<lparr>rule_name = ''External Dependency Count'',
               description = ''External dependency: '' @ dep_type,
               points_deducted = 5, line_number = line, function_name = name,
               is_red_flag = False\<rparr>) found"
    unfolding found_def by (rule external_dependency_function [OF hdr])
  have found_set: "set found = detected_categories node"
    unfolding found_def by (rule filter_detected)
  have found_length: "length found = card (detected_categories node)"
    unfolding found_def by (rule length_detected)
  have "map description (ExternalDependencyRule_evaluate node ctx)
          = map (\<lambda>t. ''External dependency: '' @ t) found"
    unfolding ev by (simp add: comp_def)
  then have "set (map description (ExternalDependencyRule_evaluate node ctx))
          = (\<lambda>t. ''External dependency: '' @ t) ` set found"
    by (simp only: set_map)
  then show "set (map description (ExternalDependencyRule_evaluate node ctx))
           = (\<lambda>t. ''External dependency: '' @ t) ` detected_categories node"
    by (simp only: found_set)
  show len: "length (ExternalDependencyRule_evaluate node ctx) = card (detected_categories node)"
    unfolding ev by (simp add: found_length)
  have "list_all (\<lambda>v. points_deducted v = 5) (ExternalDependencyRule_evaluate node ctx)"
    unfolding ev by (simp add: list_all_iff)
  from total_points_flat [OF this] len
  show "total_points (ExternalDependencyRule_evaluate node ctx)
           = 5 * int (card (detected_categories node))"
    by simp
  show "list_all (\<lambda>v. def_header node = Some (function_name v, line_number v))
           (ExternalDependencyRule_evaluate node ctx)"
    unfolding ev by (simp add: list_all_iff hdr)
qed

section \<open>Properties\<close>

text \<open>
  The properties of the orchestration hold for every analyzer \<open>self\<close>, that is, for every
  score calculator and every registry of rules, whenever the analysis returns a
  \<^verbatim>\<open>FileScore\<close>. With the registry as constructed the analysis of a tree that holds a
  function definition raises \<^verbatim>\<open>AttributeError\<close> (Claim C8); the instances below run the
  registry without the Branch Explosion rule.
\<close>

subsection \<open>The file score\<close>

text \<open>
  Claim C1. The file score, as the code computes it. When the rules of the registry return
  on every function and async function definition of \<^verbatim>\<open>ast.walk(tree)\<close>, the analysis returns
  a \<^verbatim>\<open>FileScore\<close>: its \<^verbatim>\<open>function_scores\<close> are the scores of every definition of the walk
  (functions at the top level, methods, constructors and nested functions), its
  \<^verbatim>\<open>class_scores\<close> those of every class of the walk, and its overall score is the minimum
  over the final scores of these function scores, the final scores of the method scores
  and, for each class with at least one constructor violation,
  \<open>max(0, 100 - sum of the points of its constructor violations)\<close>; 100 when there is no
  such score. When a rule raises on some definition of the walk, the analysis raises.

  With the analyzer as constructed the analysis raises \<^verbatim>\<open>AttributeError\<close> as soon as the walk
  holds a function definition; otherwise it returns a \<^verbatim>\<open>FileScore\<close> with no function score,
  no method score, no constructor violation and the overall score 100.

  Whenever an analysis returns a \<^verbatim>\<open>FileScore\<close>, its overall score is the minimum over the
  pool built from its own lists, and \<^verbatim>\<open>aggregate_file_score\<close> of the score calculator as
  constructed returns the same number for arbitrary lists of function and class scores
  that keep the invariants of the data model: the points of the constructor violations are
  not negative and no final score exceeds 100.
\<close>

theorem C1_overall_score:
  "(rules_return self tree \<longrightarrow>
      (\<exists>r. analyze_tree self path tree = Inr r
           \<and> function_scores r = walk_function_scores self tree
           \<and> class_scores r = walk_class_scores self tree
           \<and> overall_score r
               = minimum_or_100 (scored_constructs (walk_function_scores self tree)
                                   (walk_class_scores self tree))))
   \<and> (\<not> rules_return self tree \<longrightarrow> isl (analyze_tree self path tree))
   \<and> (list_ex is_function_node (walk tree) \<longrightarrow>
        analyze_tree TestabilityAnalyzer_init path tree = Inl AttributeError)
   \<and> (\<not> list_ex is_function_node (walk tree) \<longrightarrow>
        (\<exists>r. analyze_tree TestabilityAnalyzer_init path tree = Inr r
            \<and> overall_score r = 100 \<and> function_scores r = []
            \<and> list_all (\<lambda>c. constructor_violations c = [] \<and> method_scores c = [])
                 (class_scores r)))
   \<and> (analyze_tree self path tree = Inr r \<longrightarrow>
        overall_score r
          = minimum_or_100 (scored_constructs (function_scores r) (class_scores r)))
   \<and> ((\<forall>c\<in>set css. \<forall>v\<in>set (constructor_violations c). 0 \<le> points_deducted v)
        \<and> (\<forall>f\<in>set fss. final_score f \<le> 100)
        \<and> (\<forall>c\<in>set css. \<forall>m\<in>set (method_scores c). final_score m \<le> 100)
      \<longrightarrow> aggregate_file_score ScoreCalculator_init fss css
            = minimum_or_100 (scored_constructs fss css))"
proof (intro conjI impI)
  assume "rules_return self tree"
  from analyze_tree_returns [OF this, of path]
  show "\<exists>r. analyze_tree self path tree = Inr r
           \<and> function_scores r = walk_function_scores self tree
           \<and> class_scores r = walk_class_scores self tree
           \<and> overall_score r
               = minimum_or_100 (scored_constructs (walk_function_scores self tree)
                                   (walk_class_scores self tree))"
    by blast
next
  assume "\<not> rules_return self tree"
  then show "isl (analyze_tree self path tree)" by (rule analyze_tree_raises)
next
  assume "list_ex is_function_node (walk tree)"
  then have "analyze_function_nodes TestabilityAnalyzer_init (walk tree) (build_context tree)
             = Inl AttributeError"
    by (rule function_nodes_init_raise)
  then show "analyze_tree TestabilityAnalyzer_init path tree = Inl AttributeError"
    by (simp add: analyze_tree_def analyze_functions_def)
next
  assume none: "\<not> list_ex is_function_node (walk tree)"
  then have "rules_return TestabilityAnalyzer_init tree" by (simp add: rules_return_init)
  from analyze_tree_returns [OF this, of path]
  obtain r where r: "analyze_tree TestabilityAnalyzer_init path tree = Inr r"
    and f: "function_scores r = walk_function_scores TestabilityAnalyzer_init tree"
    and c: "class_scores r = walk_class_scores TestabilityAnalyzer_init tree"
    and o: "overall_score r
               = minimum_or_100 (scored_constructs (walk_function_scores TestabilityAnalyzer_init tree)
                                   (walk_class_scores TestabilityAnalyzer_init tree))"
    by blast
  have f': "walk_function_scores TestabilityAnalyzer_init tree = []"
    unfolding walk_function_scores_def using none by (rule map_filter_no_functions)
  have c': "list_all (\<lambda>c. constructor_violations c = [] \<and> method_scores c = [])
              (walk_class_scores TestabilityAnalyzer_init tree)"
    using none by (rule walk_class_scores_no_functions)
  have "overall_score r = 100"
    by (simp add: o f' scored_constructs_clean [OF c'] minimum_or_100_def)
  with r f f' c c'
  show "\<exists>r. analyze_tree TestabilityAnalyzer_init path tree = Inr r
            \<and> overall_score r = 100 \<and> function_scores r = []
            \<and> list_all (\<lambda>c. constructor_violations c = [] \<and> method_scores c = [])
                 (class_scores r)"
    by auto
next
  assume "analyze_tree self path tree = Inr r"
  then show "overall_score r
        = minimum_or_100 (scored_constructs (function_scores r) (class_scores r))"
    by (rule analyze_tree_overall)
next
  assume "(\<forall>c\<in>set css. \<forall>v\<in>set (constructor_violations c). 0 \<le> points_deducted v)
        \<and> (\<forall>f\<in>set fss. final_score f \<le> 100)
        \<and> (\<forall>c\<in>set css. \<forall>m\<in>set (method_scores c). final_score m \<le> 100)"
  then show "aggregate_file_score ScoreCalculator_init fss css
            = minimum_or_100 (scored_constructs fss css)"
    using aggregate_invariant by blast
qed

text \<open>
  Instances: the nested functions, the empty module, the class whose constructor reads a
  file (85), and the three function scores of the repository's aggregation test (70).
\<close>

theorem C1_overall_score_witness:
  "rules_return without_branch_rule nested_functions
   \<and> overall_score (projr (analyze_tree without_branch_rule ''nested.py'' nested_functions))
       = minimum_or_100 (scored_constructs
           (walk_function_scores without_branch_rule nested_functions)
           (walk_class_scores without_branch_rule nested_functions))
   \<and> map final_score (walk_function_scores without_branch_rule nested_functions) = [100, 95]
   \<and> list_ex is_function_node (walk nested_functions)
   \<and> analyze_tree TestabilityAnalyzer_init ''nested.py'' nested_functions = Inl AttributeError
   \<and> \<not> list_ex is_function_node (walk (Module []))
   \<and> overall_score (projr (analyze_tree TestabilityAnalyzer_init ''empty.py'' (Module []))) = 100
   \<and> overall_score (projr (analyze_tree without_branch_rule ''my_class.py'' constructor_class))
       = minimum_or_100 (scored_constructs
         (function_scores (projr (analyze_tree without_branch_rule ''my_class.py'' constructor_class)))
         (class_scores (projr (analyze_tree without_branch_rule ''my_class.py'' constructor_class))))
   \<and> overall_score (projr (analyze_tree without_branch_rule ''my_class.py'' constructor_class)) = 85
   \<and> aggregate_file_score ScoreCalculator_init worst_score_functions []
     = minimum_or_100 (scored_constructs worst_score_functions [])
   \<and> aggregate_file_score ScoreCalculator_init worst_score_functions [] = 70"
proof -
  let ?n = "analyze_tree without_branch_rule ''nested.py'' nested_functions"
  let ?a = "analyze_tree without_branch_rule ''my_class.py'' constructor_class"
  have ret: "rules_return without_branch_rule nested_functions" by code_simp
  have fn: "list_ex is_function_node (walk nested_functions)"
    by (simp add: nested_functions_def walk_def is_function_node_def)
  have empty: "\<not> list_ex is_function_node (walk (Module []))"
    by (simp add: walk_def is_function_node_def)
  note n = C1_overall_score [of without_branch_rule nested_functions "''nested.py''"]
  from n [THEN conjunct1] ret
  have 1: "overall_score (projr ?n)
       = minimum_or_100 (scored_constructs
           (walk_function_scores without_branch_rule nested_functions)
           (walk_class_scores without_branch_rule nested_functions))"
    by auto
  have 2: "map final_score (walk_function_scores without_branch_rule nested_functions) = [100, 95]"
    by code_simp
  from n [THEN conjunct2, THEN conjunct2, THEN conjunct1] fn
  have 3: "analyze_tree TestabilityAnalyzer_init ''nested.py'' nested_functions = Inl AttributeError"
    by (rule mp)
  from C1_overall_score [of _ "Module []" "''empty.py''",
      THEN conjunct2, THEN conjunct2, THEN conjunct2, THEN conjunct1] empty
  have 4: "overall_score (projr (analyze_tree TestabilityAnalyzer_init ''empty.py'' (Module [])))
           = 100"
    by auto
  have "\<not> isl ?a" by code_simp
  then have inr: "?a = Inr (projr ?a)" by simp
  have finals: "map final_score worst_score_functions = [100, 85, 70]"
    by (simp add: worst_score_functions_def calculate_function_score_def
          ScoreCalculator_init_def total_points_def)
  have le: "\<forall>f\<in>set worst_score_functions. final_score f \<le> 100"
  proof
    fix f assume "f \<in> set worst_score_functions"
    then have "final_score f \<in> set (map final_score worst_score_functions)" by simp
    then show "final_score f \<le> 100" unfolding finals by auto
  qed
  have hyps: "(\<forall>c\<in>set ([]::ClassScore list). \<forall>v\<in>set (constructor_violations c). 0 \<le> points_deducted v)
        \<and> (\<forall>f\<in>set worst_score_functions. final_score f \<le> 100)
        \<and> (\<forall>c\<in>set ([]::ClassScore list). \<forall>m\<in>set (method_scores c). final_score m \<le> 100)"
    using le by simp
  note a = C1_overall_score [of without_branch_rule constructor_class "''my_class.py''"
      "projr ?a" "[]" worst_score_functions,
      THEN conjunct2, THEN conjunct2, THEN conjunct2, THEN conjunct2]
  from a [THEN conjunct1] inr have 5: "overall_score (projr ?a)
     = minimum_or_100 (scored_constructs (function_scores (projr ?a)) (class_scores (projr ?a)))"
    by (rule mp)
  from a [THEN conjunct2] hyps
  have 6: "aggregate_file_score ScoreCalculator_init worst_score_functions []
     = minimum_or_100 (scored_constructs worst_score_functions [])"
    by (rule mp)
  have 7: "overall_score (projr ?a) = 85" by code_simp
  have 8: "minimum_or_100 (scored_constructs worst_score_functions []) = 70"
    by (simp add: minimum_or_100_def scored_constructs_def dirty_constructor_scores_def finals)
  from ret 1 2 fn 3 empty 4 5 6 7 8 show ?thesis by simp
qed

text \<open>
  The pool of the specification holds the scores of the top-level functions, of the
  methods and of the constructors with a violation. For the nested functions the inner
  one, which is neither a top-level function nor a method, scores 95: the overall score
  is 95 where the minimum over the pool of the specification is 100. With the registry as
  constructed the analysis raises.
\<close>

theorem C1_counterexample:
  "(\<exists>r. analyze_tree without_branch_rule ''nested.py'' nested_functions = Inr r
        \<and> map (\<lambda>fs. (fs_name fs, final_score fs)) (function_scores r)
            = [(''outer'', 100), (''inner'', 95)]
        \<and> overall_score r = 95
        \<and> minimum_or_100 (claimed_pool without_branch_rule nested_functions) = 100)
   \<and> analyze_tree TestabilityAnalyzer_init ''nested.py'' nested_functions = Inl AttributeError"
proof -
  let ?a = "analyze_tree without_branch_rule ''nested.py'' nested_functions"
  have "\<not> isl ?a" by code_simp
  then have inr: "?a = Inr (projr ?a)" by simp
  moreover have "map (\<lambda>fs. (fs_name fs, final_score fs)) (function_scores (projr ?a))
            = [(''outer'', 100), (''inner'', 95)]" by code_simp
  moreover have "overall_score (projr ?a) = 95" by code_simp
  moreover have "claimed_pool without_branch_rule nested_functions = [100]" by code_simp
  then have "minimum_or_100 (claimed_pool without_branch_rule nested_functions) = 100"
    by (simp add: minimum_or_100_def)
  moreover have "analyze_tree TestabilityAnalyzer_init ''nested.py'' nested_functions
            = Inl AttributeError" by code_simp
  ultimately show ?thesis using inr by (intro conjI exI [of _ "projr ?a"])
qed

subsection \<open>The function score\<close>

text \<open>
  Claim C2. For every violation list \<open>V\<close>, \<^verbatim>\<open>calculate_function_score\<close> of the score calculator
  as constructed (baseline 100, minimum 0) returns a FunctionScore whose final score is
  \<open>max(0, 100 - sum of points_deducted over V)\<close>; the score is never negative, and it is at
  most 100 when the points of the violations are non-negative, as the data model requires
  of a Violation. The record keeps the name, the line, the baseline and the violations.
\<close>

theorem C2_calculate_function_score:
  "final_score (calculate_function_score ScoreCalculator_init n l V)
     = max 0 (100 - sum_list (map points_deducted V))
   \<and> 0 \<le> final_score (calculate_function_score ScoreCalculator_init n l V)
   \<and> ((\<forall>v \<in> set V. 0 \<le> points_deducted v) \<longrightarrow>
        final_score (calculate_function_score ScoreCalculator_init n l V) \<le> 100)
   \<and> violations (calculate_function_score ScoreCalculator_init n l V) = V
   \<and> fs_baseline_score (calculate_function_score ScoreCalculator_init n l V) = 100"
proof -
  have nonneg: "(\<forall>v \<in> set V. 0 \<le> points_deducted v) \<Longrightarrow> 0 \<le> sum_list (map points_deducted V)"
    by (induction V) auto
  show ?thesis
    using nonneg
    by (auto simp: calculate_function_score_def ScoreCalculator_init_def total_points_def Let_def)
qed

theorem C2_calculate_function_score_witness:
  "final_score (calculate_function_score ScoreCalculator_init ''f'' 1
      [\<lparr>rule_name = ''Randomness Usage'', description = ''d'', points_deducted = 10,
        line_number = 2, function_name = ''f'', is_red_flag = True\<rparr>,
       \<lparr>rule_name = ''Low Observability'', description = ''d'', points_deducted = 5,
        line_number = 1, function_name = ''f'', is_red_flag = False\<rparr>]) = 85
   \<and> final_score (calculate_function_score ScoreCalculator_init ''f'' 1
      [\<lparr>rule_name = ''Randomness Usage'', description = ''d'', points_deducted = 10,
        line_number = 2, function_name = ''f'', is_red_flag = True\<rparr>,
       \<lparr>rule_name = ''Low Observability'', description = ''d'', points_deducted = 5,
        line_number = 1, function_name = ''f'', is_red_flag = False\<rparr>]) \<le> 100"
  using C2_calculate_function_score [of "''f''" 1
      "[\<lparr>rule_name = ''Randomness Usage'', description = ''d'', points_deducted = 10,
        line_number = 2, function_name = ''f'', is_red_flag = True\<rparr>,
       \<lparr>rule_name = ''Low Observability'', description = ''d'', points_deducted = 5,
        line_number = 1, function_name = ''f'', is_red_flag = False\<rparr>]"]
  by simp

subsection \<open>Failures of reading and parsing\<close>




subsection \<open>The registry\<close>

text \<open>
  Claim C4. \<^verbatim>\<open>get_all_rules\<close> of the registry as constructed returns eleven rules in a fixed
  order, with eleven different names: Direct File I/O in Logic, Non-Deterministic Time
  Usage, Randomness Usage, Global State Mutation, Mixed I/O and Logic, Branch Explosion
  Risk, Exception-Driven Control Flow, Constructor Side Effects, Hidden Dependencies via
  Imports-in-Function, Excessive Parameter Count, Low Observability. The External
  Dependency Count rule is not among them and \<^verbatim>\<open>get_rule_by_name\<close> does not find it.

  The class of that rule exists. For a function or async function definition it returns
  one violation for each category that \<^verbatim>\<open>_classify_dependency\<close> gives to some call of the
  walk, whatever the number of calls of that category: the descriptions of the violations
  are those of the detected categories, the number of violations is the number of detected
  categories, and the deduction is 5 times that number. Each violation deducts 5 points,
  is no red flag and carries the name and the line of the function. There are five
  categories. For any other node the rule returns no violation.
\<close>

theorem C4_registry:
  "get_all_rules RuleRegistry_init =
     [FileIORule, TimeUsageRule, RandomnessRule, GlobalStateRule, MixedIOLogicRule,
      BranchExplosionRule, ExceptionControlFlowRule, ConstructorSideEffectsRule,
      HiddenImportsRule, ParameterCountRule, ObservabilityRule]
   \<and> length (get_all_rules RuleRegistry_init) = 11
   \<and> distinct (map rule_name_of (get_all_rules RuleRegistry_init))
   \<and> map rule_name_of (get_all_rules RuleRegistry_init) =
       [''Direct File I/O in Logic'', ''Non-Deterministic Time Usage'', ''Randomness Usage'',
        ''Global State Mutation'', ''Mixed I/O and Logic'', ''Branch Explosion Risk'',
        ''Exception-Driven Control Flow'', ''Constructor Side Effects'',
        ''Hidden Dependencies via Imports-in-Function'', ''Excessive Parameter Count'',
        ''Low Observability'']
   \<and> ExternalDependencyRule \<notin> set (get_all_rules RuleRegistry_init)
   \<and> get_rule_by_name RuleRegistry_init ''External Dependency Count'' = None
   \<and> rule_name_of ExternalDependencyRule = ''External Dependency Count''
   \<and> penalty_points ExternalDependencyRule = 5
   \<and> list_all (\<lambda>v. points_deducted v = 5 \<and> \<not> is_red_flag v
                    \<and> rule_name v = ''External Dependency Count'')
        (ExternalDependencyRule_evaluate node ctx)
   \<and> distinct (map description (ExternalDependencyRule_evaluate node ctx))
   \<and> length (ExternalDependencyRule_evaluate node ctx) \<le> 5
   \<and> detected_categories node
        \<subseteq> {''File System'', ''Environment'', ''Network'', ''Os Level'', ''Singletons''}
   \<and> (is_function_node node \<longrightarrow>
        set (map description (ExternalDependencyRule_evaluate node ctx))
          = (\<lambda>category. ''External dependency: '' @ category) ` detected_categories node
        \<and> length (ExternalDependencyRule_evaluate node ctx) = card (detected_categories node)
        \<and> total_points (ExternalDependencyRule_evaluate node ctx)
            = 5 * int (card (detected_categories node))
        \<and> list_all (\<lambda>v. def_header node = Some (function_name v, line_number v))
             (ExternalDependencyRule_evaluate node ctx))
   \<and> (\<not> is_function_node node \<longrightarrow> ExternalDependencyRule_evaluate node ctx = [])"
proof -
  have reg: "get_all_rules RuleRegistry_init =
     [FileIORule, TimeUsageRule, RandomnessRule, GlobalStateRule, MixedIOLogicRule,
      BranchExplosionRule, ExceptionControlFlowRule, ConstructorSideEffectsRule,
      HiddenImportsRule, ParameterCountRule, ObservabilityRule]"
    by (simp add: get_all_rules_def RuleRegistry_init_def)
  have ev: "list_all (\<lambda>v. points_deducted v = 5 \<and> \<not> is_red_flag v
                    \<and> rule_name v = ''External Dependency Count'')
        (ExternalDependencyRule_evaluate node ctx)"
    by (cases node)
       (simp_all add: ExternalDependencyRule_evaluate_def on_function_def list_all_iff Let_def)
  have d: "distinct (map description (ExternalDependencyRule_evaluate node ctx))"
    by (cases node)
       (simp_all add: ExternalDependencyRule_evaluate_def on_function_def Let_def
          dependency_titles distinct_map_filter comp_def del: distinct.simps,
        simp_all add: distinct_map inj_on_def)
  have other: "\<not> is_function_node node \<longrightarrow> ExternalDependencyRule_evaluate node ctx = []"
    by (simp add: ExternalDependencyRule_evaluate_def on_function_other)
  have l: "length (ExternalDependencyRule_evaluate node ctx) \<le> 5"
  proof (cases "is_function_node node")
    case True
    have "card (detected_categories node)
          \<le> card (set [''File System'', ''Environment'', ''Network'', ''Os Level'',
                        ''Singletons''])"
      by (rule card_mono [OF _ detected_categories_range]) simp
    also have "\<dots> \<le> 5" by (rule order_trans [OF card_length]) simp
    finally show ?thesis using external_dependency_exact(2) [OF True, of ctx] by simp
  next
    case False
    with other show ?thesis by simp
  qed
  have range: "detected_categories node
        \<subseteq> {''File System'', ''Environment'', ''Network'', ''Os Level'', ''Singletons''}"
    using detected_categories_range [of node] by simp
  have exact: "is_function_node node \<longrightarrow>
        set (map description (ExternalDependencyRule_evaluate node ctx))
          = (\<lambda>category. ''External dependency: '' @ category) ` detected_categories node
        \<and> length (ExternalDependencyRule_evaluate node ctx) = card (detected_categories node)
        \<and> total_points (ExternalDependencyRule_evaluate node ctx)
            = 5 * int (card (detected_categories node))
        \<and> list_all (\<lambda>v. def_header node = Some (function_name v, line_number v))
             (ExternalDependencyRule_evaluate node ctx)"
    using external_dependency_exact [of node ctx] by (intro impI conjI)
  have registry: "length (get_all_rules RuleRegistry_init) = 11
   \<and> distinct (map rule_name_of (get_all_rules RuleRegistry_init))
   \<and> map rule_name_of (get_all_rules RuleRegistry_init) =
       [''Direct File I/O in Logic'', ''Non-Deterministic Time Usage'', ''Randomness Usage'',
        ''Global State Mutation'', ''Mixed I/O and Logic'', ''Branch Explosion Risk'',
        ''Exception-Driven Control Flow'', ''Constructor Side Effects'',
        ''Hidden Dependencies via Imports-in-Function'', ''Excessive Parameter Count'',
        ''Low Observability'']
   \<and> ExternalDependencyRule \<notin> set (get_all_rules RuleRegistry_init)
   \<and> get_rule_by_name RuleRegistry_init ''External Dependency Count'' = None
   \<and> rule_name_of ExternalDependencyRule = ''External Dependency Count''
   \<and> penalty_points ExternalDependencyRule = 5"
    unfolding reg by (simp add: get_rule_by_name_def RuleRegistry_init_def)
  from reg registry ev d l range exact other show ?thesis by (intro conjI) simp_all
qed

text \<open>
  Instances: the function of the repository's test (one category, 5 points), a function
  with three calls of two categories (10 points), and a module.
\<close>

theorem C4_registry_witness:
  "is_function_node read_config
   \<and> detected_categories read_config = {''File System''}
   \<and> length (ExternalDependencyRule_evaluate read_config AnalysisContext_init) = 1
   \<and> total_points (ExternalDependencyRule_evaluate read_config AnalysisContext_init) = 5
   \<and> is_function_node fetch_and_store
   \<and> detected_categories fetch_and_store = {''Network'', ''File System''}
   \<and> length (ExternalDependencyRule_evaluate fetch_and_store AnalysisContext_init) = 2
   \<and> total_points (ExternalDependencyRule_evaluate fetch_and_store AnalysisContext_init) = 10
   \<and> \<not> is_function_node (Module [read_config])
   \<and> ExternalDependencyRule_evaluate (Module [read_config]) AnalysisContext_init = []"
proof -
  have f1: "is_function_node read_config"
    by (simp add: is_function_node_def read_config_def)
  have f2: "is_function_node fetch_and_store"
    by (simp add: is_function_node_def fetch_and_store_def)
  have f3: "\<not> is_function_node (Module [read_config])"
    by (simp add: is_function_node_def)
  have "List.map_filter classify_dependency (walk read_config) = [''File System'']"
    by code_simp
  then have d1: "detected_categories read_config = {''File System''}"
    by (simp add: detected_categories_def)
  have "List.map_filter classify_dependency (walk fetch_and_store)
          = [''Network'', ''File System'', ''File System'']"
    by code_simp
  then have d2: "detected_categories fetch_and_store = {''Network'', ''File System''}"
    by (simp add: detected_categories_def)
  have c1: "card (detected_categories read_config) = 1" by (simp add: d1)
  have c2: "card (detected_categories fetch_and_store) = 2" by (simp add: d2)
  note t1 = C4_registry [of read_config AnalysisContext_init]
  note t2 = C4_registry [of fetch_and_store AnalysisContext_init]
  note t3 = C4_registry [of "Module [read_config]" AnalysisContext_init]
  from t1 f1 c1
  have r1: "length (ExternalDependencyRule_evaluate read_config AnalysisContext_init) = 1
      \<and> total_points (ExternalDependencyRule_evaluate read_config AnalysisContext_init) = 5"
    by simp
  from t2 f2 c2
  have r2: "length (ExternalDependencyRule_evaluate fetch_and_store AnalysisContext_init) = 2
      \<and> total_points (ExternalDependencyRule_evaluate fetch_and_store AnalysisContext_init) = 10"
    by simp
  from t3 f3
  have r3: "ExternalDependencyRule_evaluate (Module [read_config]) AnalysisContext_init = []"
    by simp
  from f1 d1 r1 f2 d2 r2 f3 r3 show ?thesis by (intro conjI) simp_all
qed

text \<open>No rule of the registry is named External Dependency Count.\<close>

theorem C4_counterexample:
  "\<not> (\<exists>rule \<in> set (get_all_rules RuleRegistry_init).
         rule_name_of rule = ''External Dependency Count'')"
  by (simp add: get_all_rules_def RuleRegistry_init_def)

subsection \<open>The function scores of a file\<close>

text \<open>
  Claim C5. Whenever the analysis of a tree returns a \<^verbatim>\<open>FileScore\<close>, the names and lines of
  its \<^verbatim>\<open>function_scores\<close> are those of every function and async function definition of
  \<^verbatim>\<open>ast.walk(tree)\<close>, in the order of the walk: the definitions at the top level, the methods
  of the classes and the nested definitions. In particular a method of a class of the
  tree that is not a constructor has one and the same FunctionScore in \<^verbatim>\<open>function_scores\<close>
  and in the \<^verbatim>\<open>method_scores\<close> of its class.
\<close>

theorem C5_function_scores_whole_tree:
  assumes "analyze_tree self path tree = Inr r"
  shows "map (\<lambda>fs. (fs_name fs, fs_line_number fs)) (function_scores r)
           = List.map_filter def_header (walk tree)
     \<and> (ClassDef cname bases kws body decorator_list line \<in> set (walk tree)
          \<and> item \<in> set body \<and> \<not> is_init_method item \<and> def_header item = Some (name, l)
        \<longrightarrow> (\<exists>vs. run_rules self item (build_context tree) = Inr vs
               \<and> calculate_function_score (score_calculator self) name l vs
                    \<in> set (function_scores r)
               \<and> (\<exists>cs \<in> set (class_scores r).
                     cs_name cs = cname \<and> cs_line_number cs = line
                     \<and> calculate_function_score (score_calculator self) name l vs
                          \<in> set (method_scores cs))))"
proof (intro conjI impI)
  let ?ctx = "build_context tree"
  from assms obtain fss css
    where fss: "analyze_functions self tree ?ctx = Inr fss"
      and css: "analyze_classes self tree ?ctx = Inr css"
      and r: "function_scores r = fss" "class_scores r = css"
    by (rule analyze_tree_Inr)
  show "map (\<lambda>fs. (fs_name fs, fs_line_number fs)) (function_scores r)
           = List.map_filter def_header (walk tree)"
    using function_nodes_names [OF fss [unfolded analyze_functions_def]] by (simp add: r)
  assume a: "ClassDef cname bases kws body decorator_list line \<in> set (walk tree)
          \<and> item \<in> set body \<and> \<not> is_init_method item \<and> def_header item = Some (name, l)"
  then have cls: "ClassDef cname bases kws body decorator_list line \<in> set (walk tree)"
    and item: "item \<in> set body" and meth: "\<not> is_init_method item"
    and hdr: "def_header item = Some (name, l)"
    by simp_all
  have walked: "item \<in> set (walk tree)"
    using cls item by (rule walk_class_body)
  from function_nodes_member [OF fss [unfolded analyze_functions_def] walked hdr]
  obtain vs where vs: "run_rules self item ?ctx = Inr vs"
    and mem: "calculate_function_score (score_calculator self) name l vs \<in> set fss"
    by blast
  from class_nodes_member [OF css [unfolded analyze_classes_def] cls]
  obtain cvs mss where body: "analyze_class_body self body ?ctx = Inr (cvs, mss)"
    and cs: "\<lparr>cs_name = cname, cs_line_number = line, constructor_violations = cvs,
              method_scores = mss\<rparr> \<in> set css"
    by blast
  from class_body_method [OF body item meth hdr] vs
  have "calculate_function_score (score_calculator self) name l vs \<in> set mss" by auto
  with vs mem cs
  show "\<exists>vs. run_rules self item ?ctx = Inr vs
               \<and> calculate_function_score (score_calculator self) name l vs
                    \<in> set (function_scores r)
               \<and> (\<exists>cs \<in> set (class_scores r).
                     cs_name cs = cname \<and> cs_line_number cs = line
                     \<and> calculate_function_score (score_calculator self) name l vs
                          \<in> set (method_scores cs))"
    by (auto simp: r intro!: exI [of _ vs]
          bexI [of _ "\<lparr>cs_name = cname, cs_line_number = line, constructor_violations = cvs,
              method_scores = mss\<rparr>"])
qed

text \<open>
  An instance: the file of the repository's integration test, where the test expects two
  function scores.
\<close>

theorem C5_function_scores_whole_tree_witness:
  "map (\<lambda>fs. (fs_name fs, fs_line_number fs))
     (function_scores (projr (analyze_tree without_branch_rule ''simple.py'' simple_codebase)))
   = [(''calculate_area'', 2), (''format_result'', 6), (''__init__'', 13), (''area'', 17)]"
proof -
  let ?a = "analyze_tree without_branch_rule ''simple.py'' simple_codebase"
  have "\<not> isl ?a" by code_simp
  then have inr: "?a = Inr (projr ?a)" by simp
  have "List.map_filter def_header (walk simple_codebase)
        = [(''calculate_area'', 2), (''format_result'', 6), (''__init__'', 13), (''area'', 17)]"
    by code_simp
  with C5_function_scores_whole_tree [OF inr, THEN conjunct1] show ?thesis by simp
qed

text \<open>
  The function scores of that file hold the two methods of the class \<^verbatim>\<open>Rectangle\<close>; with the
  registry as constructed the analysis raises.
\<close>

theorem C5_counterexample:
  "(\<exists>r. analyze_tree without_branch_rule ''simple.py'' simple_codebase = Inr r
        \<and> map fs_name (function_scores r)
            = [''calculate_area'', ''format_result'', ''__init__'', ''area''])
   \<and> analyze_tree TestabilityAnalyzer_init ''simple.py'' simple_codebase = Inl AttributeError"
proof -
  let ?a = "analyze_tree without_branch_rule ''simple.py'' simple_codebase"
  have "\<not> isl ?a" by code_simp
  then have inr: "?a = Inr (projr ?a)" by simp
  moreover have "map fs_name (function_scores (projr ?a))
            = [''calculate_area'', ''format_result'', ''__init__'', ''area'']" by code_simp
  moreover have "analyze_tree TestabilityAnalyzer_init ''simple.py'' simple_codebase
            = Inl AttributeError" by code_simp
  ultimately show ?thesis using inr by (intro conjI exI [of _ "projr ?a"])
qed

subsection \<open>The red flags of a file\<close>

text \<open>
  Claim C6. Whenever the analysis of a tree returns a \<^verbatim>\<open>FileScore\<close>, its \<^verbatim>\<open>red_flags\<close> are the
  violations marked as red flags of every entry of \<^verbatim>\<open>function_scores\<close>, followed by every
  constructor violation of every class score, marked or not. Since the function scores
  hold the methods, every violation marked as a red flag that the rules raise for a method
  that is not a constructor is among the red flags of the file.
\<close>

theorem C6_red_flags:
  assumes "analyze_tree self path tree = Inr r"
  shows "red_flags r
           = concat (map (\<lambda>fs. filter is_red_flag (violations fs)) (function_scores r))
             @ concat (map constructor_violations (class_scores r))
     \<and> (ClassDef cname bases kws body decorator_list line \<in> set (walk tree)
          \<and> item \<in> set body \<and> \<not> is_init_method item \<and> def_header item = Some (name, l)
        \<longrightarrow> (\<exists>vs. run_rules self item (build_context tree) = Inr vs
               \<and> set (filter is_red_flag vs) \<subseteq> set (red_flags r)))"
proof (intro conjI impI)
  let ?ctx = "build_context tree"
  from assms obtain fss css
    where fss: "analyze_functions self tree ?ctx = Inr fss"
      and r: "function_scores r = fss" "class_scores r = css"
      and flags: "red_flags r = collect_red_flags fss css"
    by (rule analyze_tree_Inr)
  show flags': "red_flags r
           = concat (map (\<lambda>fs. filter is_red_flag (violations fs)) (function_scores r))
             @ concat (map constructor_violations (class_scores r))"
    by (simp add: flags r collect_red_flags_def)
  assume a: "ClassDef cname bases kws body decorator_list line \<in> set (walk tree)
          \<and> item \<in> set body \<and> \<not> is_init_method item \<and> def_header item = Some (name, l)"
  then have "item \<in> set (walk tree)" by (auto intro: walk_class_body)
  from function_nodes_member [OF fss [unfolded analyze_functions_def] this] a
  obtain vs where vs: "run_rules self item ?ctx = Inr vs"
    and mem: "calculate_function_score (score_calculator self) name l vs \<in> set fss"
    by blast
  have "violations (calculate_function_score (score_calculator self) name l vs) = vs"
    by (simp add: calculate_function_score_def Let_def)
  with mem have "set (filter is_red_flag vs) \<subseteq> set (red_flags r)"
    unfolding flags collect_red_flags_def by force
  with vs show "\<exists>vs. run_rules self item ?ctx = Inr vs
               \<and> set (filter is_red_flag vs) \<subseteq> set (red_flags r)"
    by blast
qed

text \<open>An instance: the method \<^verbatim>\<open>now\<close> of the class \<^verbatim>\<open>Clock\<close>.\<close>

theorem C6_red_flags_witness:
  "set (filter is_red_flag
          (projr (run_rules without_branch_rule clock_now (build_context clock_class))))
     \<subseteq> set (red_flags (projr (analyze_tree without_branch_rule ''clock.py'' clock_class)))
   \<and> map rule_name
        (filter is_red_flag
           (projr (run_rules without_branch_rule clock_now (build_context clock_class))))
       = [''Non-Deterministic Time Usage'']"
proof -
  let ?a = "analyze_tree without_branch_rule ''clock.py'' clock_class"
  let ?run = "run_rules without_branch_rule clock_now (build_context clock_class)"
  have "\<not> isl ?a" by code_simp
  then have inr: "?a = Inr (projr ?a)" by simp
  have cls: "ClassDef ''Clock'' [] [] [clock_now] [] 1 \<in> set (walk clock_class)"
    by (simp add: clock_class_def walk_def)
  have meth: "\<not> is_init_method clock_now"
    by (simp add: is_init_method_def clock_now_def)
  have hdr: "def_header clock_now = Some (''now'', 2)"
    by (simp add: def_header_def on_function_def clock_now_def)
  from C6_red_flags [OF inr, THEN conjunct2, of "''Clock''" "[]" "[]" "[clock_now]" "[]" 1
      clock_now "''now''" 2] cls meth hdr
  obtain vs where "?run = Inr vs" and "set (filter is_red_flag vs) \<subseteq> set (red_flags (projr ?a))"
    by auto
  then have sub: "set (filter is_red_flag (projr ?run)) \<subseteq> set (red_flags (projr ?a))"
    by simp
  have "map rule_name (filter is_red_flag (projr ?run)) = [''Non-Deterministic Time Usage'']"
    by code_simp
  with sub show ?thesis by (rule conjI)
qed

text \<open>
  The only red flag of that file is the violation of the method \<^verbatim>\<open>now\<close>, which is no
  constructor; with the registry as constructed the analysis raises.
\<close>

theorem C6_counterexample:
  "(\<exists>r. analyze_tree without_branch_rule ''clock.py'' clock_class = Inr r
        \<and> map (\<lambda>v. (rule_name v, function_name v, is_red_flag v)) (red_flags r)
            = [(''Non-Deterministic Time Usage'', ''now'', True)]
        \<and> map cs_name (class_scores r) = [''Clock'']
        \<and> map (map fs_name \<circ> method_scores) (class_scores r) = [[''now'']]
        \<and> map constructor_violations (class_scores r) = [[]])
   \<and> analyze_tree TestabilityAnalyzer_init ''clock.py'' clock_class = Inl AttributeError"
proof -
  let ?a = "analyze_tree without_branch_rule ''clock.py'' clock_class"
  have "\<not> isl ?a" by code_simp
  then have inr: "?a = Inr (projr ?a)" by simp
  moreover have "map (\<lambda>v. (rule_name v, function_name v, is_red_flag v)) (red_flags (projr ?a))
            = [(''Non-Deterministic Time Usage'', ''now'', True)]" by code_simp
  moreover have "map cs_name (class_scores (projr ?a)) = [''Clock'']" by code_simp
  moreover have "map (map fs_name \<circ> method_scores) (class_scores (projr ?a)) = [[''now'']]"
    by code_simp
  moreover have "map constructor_violations (class_scores (projr ?a)) = [[]]" by code_simp
  moreover have "analyze_tree TestabilityAnalyzer_init ''clock.py'' clock_class
            = Inl AttributeError" by code_simp
  ultimately show ?thesis using inr by (intro conjI exI [of _ "projr ?a"])
qed

subsection \<open>The Constructor Side Effects rule in a file analysis\<close>

text \<open>
  Claim C7. The Constructor Side Effects rule returns a violation for a class definition
  only, and the analyzer evaluates the rules on function definitions only (the
  \<^verbatim>\<open>__init__\<close> of a class, not the class). So, whenever the analysis of a tree returns a
  \<^verbatim>\<open>FileScore\<close>, no violation of it comes from that rule: none of the constructor violations
  and of the method scores of a class score, none of the function scores, none of the red
  flags.
\<close>

theorem C7_constructor_rule_never_fires:
  assumes "analyze_tree self path tree = Inr r"
  shows "(\<forall>cs \<in> set (class_scores r).
            (\<forall>v \<in> set (constructor_violations cs). rule_name v \<noteq> ''Constructor Side Effects'')
            \<and> (\<forall>ms \<in> set (method_scores cs). \<forall>v \<in> set (violations ms).
                  rule_name v \<noteq> ''Constructor Side Effects''))
       \<and> (\<forall>fs \<in> set (function_scores r). \<forall>v \<in> set (violations fs).
             rule_name v \<noteq> ''Constructor Side Effects'')
       \<and> (\<forall>v \<in> set (red_flags r). rule_name v \<noteq> ''Constructor Side Effects'')
       \<and> (is_function_node node \<longrightarrow> evaluate ConstructorSideEffectsRule node ctx = Inr [])"
proof -
  let ?ctx = "build_context tree"
  from assms obtain fss css
    where fss: "analyze_functions self tree ?ctx = Inr fss"
      and css: "analyze_classes self tree ?ctx = Inr css"
      and r: "function_scores r = fss" "class_scores r = css"
      and flags: "red_flags r = collect_red_flags fss css"
    by (rule analyze_tree_Inr)
  from fss have f: "list_all (\<lambda>fs. no_constructor_rule (violations fs)) fss"
    unfolding analyze_functions_def by (rule function_nodes_no_constructor_rule)
  from css have c: "list_all (\<lambda>c. no_constructor_rule (constructor_violations c)
                \<and> list_all (\<lambda>fs. no_constructor_rule (violations fs)) (method_scores c)) css"
    unfolding analyze_classes_def by (rule class_nodes_no_constructor_rule)
  have 1: "\<forall>cs \<in> set (class_scores r).
            (\<forall>v \<in> set (constructor_violations cs). rule_name v \<noteq> ''Constructor Side Effects'')
            \<and> (\<forall>ms \<in> set (method_scores cs). \<forall>v \<in> set (violations ms).
                  rule_name v \<noteq> ''Constructor Side Effects'')"
    using c by (simp add: r list_all_iff no_constructor_rule_def)
  have 2: "\<forall>fs \<in> set (function_scores r). \<forall>v \<in> set (violations fs).
             rule_name v \<noteq> ''Constructor Side Effects''"
    using f by (simp add: r list_all_iff no_constructor_rule_def)
  have 3: "\<forall>v \<in> set (red_flags r). rule_name v \<noteq> ''Constructor Side Effects''"
    using 1 2 unfolding flags collect_red_flags_def r [symmetric] by auto
  have 4: "is_function_node node \<longrightarrow> evaluate ConstructorSideEffectsRule node ctx = Inr []"
    by (simp add: constructor_rule_on_function)
  from 1 2 3 4 show ?thesis by (intro conjI)
qed

text \<open>An instance: the class whose constructor opens and reads a file.\<close>

theorem C7_constructor_rule_never_fires_witness:
  "list_all (\<lambda>v. rule_name v \<noteq> ''Constructor Side Effects'')
     (red_flags (projr (analyze_tree without_branch_rule ''my_class.py'' constructor_class)))
   \<and> map rule_name
       (red_flags (projr (analyze_tree without_branch_rule ''my_class.py'' constructor_class)))
     = [''Direct File I/O in Logic'', ''Low Observability'']
   \<and> is_function_node my_class_init
   \<and> evaluate ConstructorSideEffectsRule my_class_init (build_context constructor_class) = Inr []"
proof -
  let ?a = "analyze_tree without_branch_rule ''my_class.py'' constructor_class"
  have "\<not> isl ?a" by code_simp
  then have inr: "?a = Inr (projr ?a)" by simp
  have f: "is_function_node my_class_init"
    by (simp add: is_function_node_def my_class_init_def)
  note C7 = C7_constructor_rule_never_fires [OF inr, of my_class_init "build_context constructor_class"]
  from C7 [THEN conjunct2, THEN conjunct2, THEN conjunct1]
  have "list_all (\<lambda>v. rule_name v \<noteq> ''Constructor Side Effects'') (red_flags (projr ?a))"
    unfolding list_all_iff .
  moreover have "map rule_name (red_flags (projr ?a))
     = [''Direct File I/O in Logic'', ''Low Observability'']"
    by code_simp
  moreover from C7 [THEN conjunct2, THEN conjunct2, THEN conjunct2] f
  have "evaluate ConstructorSideEffectsRule my_class_init (build_context constructor_class) = Inr []"
    by (rule mp)
  ultimately show ?thesis using f by (intro conjI)
qed

text \<open>
  On the class definition the rule returns its one violation of 15 points, a red flag. On
  the constructor, which is what the analyzer passes to it, it returns nothing, and the
  constructor violations of the class are those of two other rules; with the registry as
  constructed the analysis raises.
\<close>

theorem C7_counterexample:
  "map (\<lambda>v. (rule_name v, points_deducted v, is_red_flag v))
       (ConstructorSideEffectsRule_evaluate my_class AnalysisContext_init)
     = [(''Constructor Side Effects'', 15, True)]
   \<and> evaluate ConstructorSideEffectsRule my_class_init (build_context constructor_class) = Inr []
   \<and> (\<exists>r. analyze_tree without_branch_rule ''my_class.py'' constructor_class = Inr r
        \<and> map (map rule_name \<circ> constructor_violations) (class_scores r)
            = [[''Direct File I/O in Logic'', ''Low Observability'']])
   \<and> analyze_tree TestabilityAnalyzer_init ''my_class.py'' constructor_class
       = Inl AttributeError"
proof -
  let ?a = "analyze_tree without_branch_rule ''my_class.py'' constructor_class"
  have "map (\<lambda>v. (rule_name v, points_deducted v, is_red_flag v))
       (ConstructorSideEffectsRule_evaluate my_class AnalysisContext_init)
     = [(''Constructor Side Effects'', 15, True)]" by code_simp
  moreover have "evaluate ConstructorSideEffectsRule my_class_init (build_context constructor_class)
     = Inr []"
    by (simp add: ConstructorSideEffectsRule_evaluate_def my_class_init_def)
  moreover have "\<not> isl ?a" by code_simp
  then have inr: "?a = Inr (projr ?a)" by simp
  moreover have "map (map rule_name \<circ> constructor_violations) (class_scores (projr ?a))
            = [[''Direct File I/O in Logic'', ''Low Observability'']]" by code_simp
  moreover have "analyze_tree TestabilityAnalyzer_init ''my_class.py'' constructor_class
       = Inl AttributeError" by code_simp
  ultimately show ?thesis using inr by (intro conjI exI [of _ "projr ?a"])
qed

subsection \<open>The Branch Explosion rule\<close>

text \<open>
  Claim C8. For every function or async function definition the evaluation of the Branch
  Explosion rule raises \<^verbatim>\<open>AttributeError\<close>, whatever the number of branches: the first node of
  the walk is the definition itself, which reaches the lookup of \<^verbatim>\<open>ast.AsyncWhile\<close>. The rule
  is in the registry as constructed, so running the rules of that registry on a function
  definition raises, and so does the analysis of every tree whose walk holds one. For any
  other node the rule returns no violation.
\<close>

theorem C8_branch_rule_raises:
  "(is_function_node node \<longrightarrow>
      BranchExplosionRule_evaluate node ctx = Inl AttributeError
      \<and> run_rules TestabilityAnalyzer_init node ctx = Inl AttributeError)
   \<and> (\<not> is_function_node node \<longrightarrow> BranchExplosionRule_evaluate node ctx = Inr [])
   \<and> (list_ex is_function_node (walk tree) \<longrightarrow>
        analyze_tree TestabilityAnalyzer_init path tree = Inl AttributeError)"
proof (intro conjI impI)
  assume "is_function_node node"
  then show "BranchExplosionRule_evaluate node ctx = Inl AttributeError"
    by (rule branch_rule_function)
next
  assume "is_function_node node"
  then show "run_rules TestabilityAnalyzer_init node ctx = Inl AttributeError"
    by (rule run_rules_init_function)
next
  assume "\<not> is_function_node node"
  then show "BranchExplosionRule_evaluate node ctx = Inr []"
    by (simp add: BranchExplosionRule_evaluate_def on_function_other)
next
  assume "list_ex is_function_node (walk tree)"
  then have "analyze_function_nodes TestabilityAnalyzer_init (walk tree) (build_context tree)
             = Inl AttributeError"
    by (rule function_nodes_init_raise)
  then show "analyze_tree TestabilityAnalyzer_init path tree = Inl AttributeError"
    by (simp add: analyze_tree_def analyze_functions_def)
qed

text \<open>
  An instance: the function of the repository's test of the rule, for which the test
  expects no violation.
\<close>

theorem C8_branch_rule_raises_witness:
  "is_function_node simple_function
   \<and> evaluate BranchExplosionRule simple_function AnalysisContext_init = Inl AttributeError
   \<and> list_ex is_function_node (walk (Module [simple_function]))
   \<and> analyze_tree TestabilityAnalyzer_init ''simple.py'' (Module [simple_function])
       = Inl AttributeError"
proof -
  have f: "is_function_node simple_function"
    by (simp add: is_function_node_def simple_function_def)
  have w: "list_ex is_function_node (walk (Module [simple_function]))"
    using f by (simp add: walk_head)
  from C8_branch_rule_raises [of simple_function AnalysisContext_init "Module [simple_function]"
      "''simple.py''"] f w
  show ?thesis by simp
qed

subsection \<open>The Hidden Imports rule\<close>

text \<open>
  Claim C9. For every function or async function definition the Hidden Dependencies via
  Imports-in-Function rule returns at most one violation, and it returns one exactly when
  the top-level module of some module imported in the body is one of the fifteen packages
  of \<^verbatim>\<open>external_indicators\<close>. The violation deducts 5 points and is no red flag. When the
  top-level module of every import of the body is in the allow-list the rule returns no
  violation. The violation reports the first import statement, in the order of
  \<^verbatim>\<open>ast.walk\<close>, that names one of these packages: it carries the line of that statement and
  the name of the function.
\<close>

theorem C9_hidden_imports:
  assumes "is_function_node node"
  shows "length (HiddenImportsRule_evaluate node ctx) \<le> 1
    \<and> (HiddenImportsRule_evaluate node ctx \<noteq> [] \<longleftrightarrow>
           (\<exists>m \<in> set (imported_modules node). top_level_module m \<in> set external_indicators))
    \<and> (\<forall>v \<in> set (HiddenImportsRule_evaluate node ctx).
           points_deducted v = 5 \<and> \<not> is_red_flag v
           \<and> rule_name v = ''Hidden Dependencies via Imports-in-Function'')
    \<and> ((\<forall>m \<in> set (imported_modules node). top_level_module m \<in> set allowed_imports)
           \<longrightarrow> HiddenImportsRule_evaluate node ctx = [])
    \<and> (external_imports node = [] \<longrightarrow> HiddenImportsRule_evaluate node ctx = [])
    \<and> (\<forall>first_import others. external_imports node = first_import # others \<longrightarrow>
          lineno first_import \<noteq> None
          \<and> HiddenImportsRule_evaluate node ctx
              = [\<lparr>rule_name = ''Hidden Dependencies via Imports-in-Function'',
                  description = ''Hidden dependency via import inside function'',
                  points_deducted = 5, line_number = the (lineno first_import),
                  function_name = fst (the (def_header node)), is_red_flag = False\<rparr>])"
proof -
  have len: "length (HiddenImportsRule_evaluate node ctx) \<le> 1"
    using assms
    by (cases node)
       (simp_all add: is_function_node_def HiddenImportsRule_evaluate_def split: option.splits)
  have iff: "HiddenImportsRule_evaluate node ctx \<noteq> [] \<longleftrightarrow>
           (\<exists>m \<in> set (imported_modules node). top_level_module m \<in> set external_indicators)"
    using hidden_imports_nonempty [OF assms, of ctx]
    by (auto simp: imported_modules_def list_ex_iff is_problematic_import_iff)
  have vs: "\<forall>v \<in> set (HiddenImportsRule_evaluate node ctx).
           points_deducted v = 5 \<and> \<not> is_red_flag v
           \<and> rule_name v = ''Hidden Dependencies via Imports-in-Function''"
    using assms
    by (cases node)
       (auto simp: is_function_node_def HiddenImportsRule_evaluate_def split: option.splits)
  have allowed: "(\<forall>m \<in> set (imported_modules node). top_level_module m \<in> set allowed_imports)
           \<longrightarrow> HiddenImportsRule_evaluate node ctx = []"
    using iff allowed_not_external by blast
  from assms obtain name line where hdr: "def_header node = Some (name, line)"
    using def_header_None [of node] by (cases "def_header node") auto
  note first = hidden_imports_first [OF hdr, of ctx]
  have none: "external_imports node = [] \<longrightarrow> HiddenImportsRule_evaluate node ctx = []"
    by (simp add: first)
  have some: "\<forall>first_import others. external_imports node = first_import # others \<longrightarrow>
          lineno first_import \<noteq> None
          \<and> HiddenImportsRule_evaluate node ctx
              = [\<lparr>rule_name = ''Hidden Dependencies via Imports-in-Function'',
                  description = ''Hidden dependency via import inside function'',
                  points_deducted = 5, line_number = the (lineno first_import),
                  function_name = fst (the (def_header node)), is_red_flag = False\<rparr>]"
  proof (intro allI impI)
    fix first_import others
    assume ext: "external_imports node = first_import # others"
    then have "first_import \<in> set (filter names_external_package (walk node))"
      by (simp add: external_imports_def)
    then have "names_external_package first_import" by simp
    from external_import_lineno [OF this] have "lineno first_import \<noteq> None" by simp
    then show "lineno first_import \<noteq> None
          \<and> HiddenImportsRule_evaluate node ctx
              = [\<lparr>rule_name = ''Hidden Dependencies via Imports-in-Function'',
                  description = ''Hidden dependency via import inside function'',
                  points_deducted = 5, line_number = the (lineno first_import),
                  function_name = fst (the (def_header node)), is_red_flag = False\<rparr>]"
      by (simp add: first ext hdr)
  qed
  from len iff vs allowed none some show ?thesis by (intro conjI)
qed

text \<open>
  Instances: the function of the repository's test; two imports of external packages,
  where the violation is on the line of the first; an import nested in an \<^verbatim>\<open>if\<close>, which the
  walk reaches after the import that follows it in the source; and the import of \<^verbatim>\<open>os\<close>.
\<close>

theorem C9_hidden_imports_witness:
  "is_function_node requests_import_function
   \<and> length (HiddenImportsRule_evaluate requests_import_function AnalysisContext_init) = 1
   \<and> is_function_node two_imports_function
   \<and> external_imports two_imports_function
       = [Import [(''numpy'', None)] 2, Import [(''requests'', None)] 3]
   \<and> HiddenImportsRule_evaluate two_imports_function AnalysisContext_init
       = [\<lparr>rule_name = ''Hidden Dependencies via Imports-in-Function'',
           description = ''Hidden dependency via import inside function'',
           points_deducted = 5, line_number = 2, function_name = ''load'',
           is_red_flag = False\<rparr>]
   \<and> is_function_node nested_import_function
   \<and> external_imports nested_import_function
       = [Import [(''requests'', None)] 4, Import [(''numpy'', None)] 3]
   \<and> map line_number (HiddenImportsRule_evaluate nested_import_function AnalysisContext_init)
       = [4]
   \<and> is_function_node os_import_function
   \<and> external_imports os_import_function = []
   \<and> HiddenImportsRule_evaluate os_import_function AnalysisContext_init = []"
proof -
  have f: "is_function_node requests_import_function"
    by (simp add: is_function_node_def requests_import_function_def)
  have m: "imported_modules requests_import_function = [''requests'']"
    by (simp add: imported_modules_def requests_import_function_def walk_def import_names_of_def
          optional_def alias_names_def)
  have "top_level_module ''requests'' \<in> set external_indicators"
    by (simp add: top_level_module_def external_indicators_def)
  with C9_hidden_imports [OF f, of AnalysisContext_init] m f
  have 1: "length (HiddenImportsRule_evaluate requests_import_function AnalysisContext_init) = 1"
    by (cases "HiddenImportsRule_evaluate requests_import_function AnalysisContext_init") auto
  have f2: "is_function_node two_imports_function"
    by (simp add: is_function_node_def two_imports_function_def)
  have e2: "external_imports two_imports_function
       = [Import [(''numpy'', None)] 2, Import [(''requests'', None)] 3]"
    by code_simp
  have h2: "fst (the (def_header two_imports_function)) = ''load''"
    by (simp add: def_header_def two_imports_function_def)
  from C9_hidden_imports [OF f2, of AnalysisContext_init] e2 h2
  have 2: "HiddenImportsRule_evaluate two_imports_function AnalysisContext_init
       = [\<lparr>rule_name = ''Hidden Dependencies via Imports-in-Function'',
           description = ''Hidden dependency via import inside function'',
           points_deducted = 5, line_number = 2, function_name = ''load'',
           is_red_flag = False\<rparr>]"
    by simp
  have f3: "is_function_node nested_import_function"
    by (simp add: is_function_node_def nested_import_function_def)
  have e3: "external_imports nested_import_function
       = [Import [(''requests'', None)] 4, Import [(''numpy'', None)] 3]"
    by code_simp
  from C9_hidden_imports [OF f3, of AnalysisContext_init] e3
  have 3: "map line_number (HiddenImportsRule_evaluate nested_import_function AnalysisContext_init)
       = [4]"
    by simp
  have f4: "is_function_node os_import_function"
    by (simp add: is_function_node_def os_import_function_def)
  have e4: "external_imports os_import_function = []"
    by code_simp
  from C9_hidden_imports [OF f4, of AnalysisContext_init] e4
  have 4: "HiddenImportsRule_evaluate os_import_function AnalysisContext_init = []"
    by simp
  from f 1 f2 e2 2 f3 e3 3 f4 e4 4 show ?thesis by (intro conjI)
qed

text \<open>
  A function that imports \<^verbatim>\<open>os\<close>, which is not in the allow-list, gets no violation.
\<close>

theorem C9_counterexample:
  "\<not> (\<forall>node ctx. is_function_node node
        \<and> (\<exists>m \<in> set (imported_modules node). top_level_module m \<notin> set allowed_imports)
        \<longrightarrow> length (HiddenImportsRule_evaluate node ctx) = 1)"
proof -
  have "is_function_node os_import_function"
    by (simp add: is_function_node_def os_import_function_def)
  moreover have "top_level_module ''os'' \<notin> set allowed_imports"
    by (simp add: top_level_module_def allowed_imports_def)
  moreover have "HiddenImportsRule_evaluate os_import_function AnalysisContext_init = []"
    by (simp add: HiddenImportsRule_evaluate_def os_import_function_def walk_def optional_def
          is_problematic_import_def alias_names_def is_external_dependency_def
          top_level_module_def allowed_imports_def external_indicators_def)
  ultimately show ?thesis
    using imported_os by (metis list.set_intros(1) list.size(3) zero_neq_one)
qed

subsection \<open>The constructor of a class is scored twice\<close>

text \<open>
  Claim C10. For every class of the walk and every \<^verbatim>\<open>__init__\<close> of its body: with the analyzer
  as constructed the analysis raises \<^verbatim>\<open>AttributeError\<close>, so that it produces no FunctionScore
  for the constructor. For every analyzer, the analysis returns a \<^verbatim>\<open>FileScore\<close> when the rules
  of its registry return on every definition of the walk, and whenever it returns one:
  the rules of the registry return a list of violations for the \<^verbatim>\<open>__init__\<close>; the FunctionScore
  computed from that list is in \<^verbatim>\<open>function_scores\<close>; the overall score is at most its final
  score; and the class score of the class holds the same violations among its constructor
  violations (exactly them when the body has one \<^verbatim>\<open>__init__\<close>). When the list is not empty and
  the body has one \<^verbatim>\<open>__init__\<close>, the score of the constructor occurs at least twice in the
  list of scores whose minimum is the overall score.
\<close>

theorem C10_constructor_scored_twice:
  assumes "ClassDef cname bases kws body decorator_list line \<in> set (walk tree)"
    and "item \<in> set body"
    and "is_init_method item"
  shows "analyze_tree TestabilityAnalyzer_init path tree = Inl AttributeError
    \<and> (rules_return self tree \<longrightarrow> (\<exists>r. analyze_tree self path tree = Inr r))
    \<and> (analyze_tree self path tree = Inr r \<longrightarrow>
        (\<exists>vs init_line.
          def_header item = Some (''__init__'', init_line)
          \<and> run_rules self item (build_context tree) = Inr vs
          \<and> calculate_function_score (score_calculator self) ''__init__'' init_line vs
              \<in> set (function_scores r)
          \<and> overall_score r
              \<le> final_score (calculate_function_score (score_calculator self)
                               ''__init__'' init_line vs)
          \<and> (\<exists>cs \<in> set (class_scores r).
                cs_name cs = cname \<and> cs_line_number cs = line
                \<and> set vs \<subseteq> set (constructor_violations cs)
                \<and> (filter is_init_method body = [item] \<longrightarrow> constructor_violations cs = vs))
          \<and> (score_calculator self = ScoreCalculator_init
               \<and> filter is_init_method body = [item] \<and> vs \<noteq> [] \<longrightarrow>
               2 \<le> count_list (all_scores 100 0 (function_scores r) (class_scores r))
                      (final_score (calculate_function_score (score_calculator self)
                                      ''__init__'' init_line vs)))))"
proof (intro conjI impI)
  have "item \<in> set (walk tree)"
    using assms(1,2) by (rule walk_class_body)
  moreover have "is_function_node item"
    using assms(3) by (rule init_method_function)
  ultimately have "list_ex is_function_node (walk tree)"
    by (auto simp: list_ex_iff)
  then have "analyze_function_nodes TestabilityAnalyzer_init (walk tree) (build_context tree)
             = Inl AttributeError"
    by (rule function_nodes_init_raise)
  then show "analyze_tree TestabilityAnalyzer_init path tree = Inl AttributeError"
    by (simp add: analyze_tree_def analyze_functions_def)
next
  assume "rules_return self tree"
  from analyze_tree_returns [OF this, of path]
  show "\<exists>r. analyze_tree self path tree = Inr r" by blast
next
  assume "analyze_tree self path tree = Inr r"
  then show "\<exists>vs init_line.
          def_header item = Some (''__init__'', init_line)
          \<and> run_rules self item (build_context tree) = Inr vs
          \<and> calculate_function_score (score_calculator self) ''__init__'' init_line vs
              \<in> set (function_scores r)
          \<and> overall_score r
              \<le> final_score (calculate_function_score (score_calculator self)
                               ''__init__'' init_line vs)
          \<and> (\<exists>cs \<in> set (class_scores r).
                cs_name cs = cname \<and> cs_line_number cs = line
                \<and> set vs \<subseteq> set (constructor_violations cs)
                \<and> (filter is_init_method body = [item] \<longrightarrow> constructor_violations cs = vs))
          \<and> (score_calculator self = ScoreCalculator_init
               \<and> filter is_init_method body = [item] \<and> vs \<noteq> [] \<longrightarrow>
               2 \<le> count_list (all_scores 100 0 (function_scores r) (class_scores r))
                      (final_score (calculate_function_score (score_calculator self)
                                      ''__init__'' init_line vs)))"
    using assms by (rule constructor_scored_twice)
qed

text \<open>
  An instance: for the class whose constructor opens and reads a file, the analyzer as
  constructed raises; without the Branch Explosion rule the constructor scores 85, and 85
  occurs twice in the pool.
\<close>

theorem C10_constructor_scored_twice_witness:
  "analyze_tree TestabilityAnalyzer_init ''my_class.py'' constructor_class = Inl AttributeError
   \<and> rules_return without_branch_rule constructor_class
   \<and> \<not> isl (analyze_tree without_branch_rule ''my_class.py'' constructor_class)
   \<and> 2 \<le> count_list
          (all_scores 100 0
             (function_scores (projr (analyze_tree without_branch_rule ''my_class.py''
                                        constructor_class)))
             (class_scores (projr (analyze_tree without_branch_rule ''my_class.py''
                                     constructor_class)))) 85
   \<and> overall_score (projr (analyze_tree without_branch_rule ''my_class.py'' constructor_class))
       \<le> 85"
proof -
  let ?a = "analyze_tree without_branch_rule ''my_class.py'' constructor_class"
  let ?ctx = "build_context constructor_class"
  let ?run = "run_rules without_branch_rule my_class_init ?ctx"
  have cls: "ClassDef ''MyClass'' [] [] [my_class_init] [] 2 \<in> set (walk constructor_class)"
    by (simp add: constructor_class_def my_class_def walk_def)
  have item: "my_class_init \<in> set [my_class_init]" by simp
  have init: "is_init_method my_class_init"
    by (simp add: is_init_method_def my_class_init_def)
  note C10 = C10_constructor_scored_twice [OF cls item init, of "''my_class.py''"
      without_branch_rule "projr ?a"]
  from C10 have shipped: "analyze_tree TestabilityAnalyzer_init ''my_class.py'' constructor_class
      = Inl AttributeError"
    by (rule conjunct1)
  have ret: "rules_return without_branch_rule constructor_class" by code_simp
  with C10 [THEN conjunct2, THEN conjunct1] have "\<exists>r. ?a = Inr r" by (rule mp)
  then have notl: "\<not> isl ?a" by auto
  then have inr: "?a = Inr (projr ?a)" by simp
  from C10 [THEN conjunct2, THEN conjunct2] inr
  obtain vs init_line where hdr: "def_header my_class_init = Some (''__init__'', init_line)"
    and vs: "?run = Inr vs"
    and le: "overall_score (projr ?a)
          \<le> final_score (calculate_function_score (score_calculator without_branch_rule)
                            ''__init__'' init_line vs)"
    and twice: "score_calculator without_branch_rule = ScoreCalculator_init
           \<and> filter is_init_method [my_class_init] = [my_class_init] \<and> vs \<noteq> [] \<longrightarrow>
           2 \<le> count_list (all_scores 100 0 (function_scores (projr ?a)) (class_scores (projr ?a)))
                  (final_score (calculate_function_score (score_calculator without_branch_rule)
                                  ''__init__'' init_line vs))"
    by blast
  have vs': "vs = projr ?run" using vs by simp
  have "map points_deducted (projr ?run) = [10, 5]" by code_simp
  then have pts: "map points_deducted vs = [10, 5]" by (simp only: vs')
  then have ne: "vs \<noteq> []" by auto
  have calc: "score_calculator without_branch_rule = ScoreCalculator_init"
    by (simp add: without_branch_rule_def TestabilityAnalyzer_init_def)
  have final: "final_score (calculate_function_score ScoreCalculator_init
                                  ''__init__'' init_line vs) = 85"
    by (simp add: calculate_function_score_def ScoreCalculator_init_def total_points_def pts)
  from twice calc init ne le shipped ret notl show ?thesis
    by (simp add: final)
qed

text \<open>
  \<^verbatim>\<open>analyze_file\<close> of the analyzer as constructed on the file of that class raises
  \<^verbatim>\<open>AttributeError\<close> and returns no FileScore.
\<close>

theorem C10_counterexample:
  "analyze_file TestabilityAnalyzer_init my_class_env ''my_class.py'' = Inl AttributeError
   \<and> \<not> (\<exists>r. analyze_file TestabilityAnalyzer_init my_class_env ''my_class.py'' = Inr r)"
proof -
  have "analyze_tree TestabilityAnalyzer_init ''my_class.py'' constructor_class
          = Inl AttributeError" by code_simp
  then have "analyze_file TestabilityAnalyzer_init my_class_env ''my_class.py''
          = Inl AttributeError"
    by (simp add: analyze_file_def parse_file_def my_class_env_def)
  then show ?thesis by simp
qed

end
